(* ===== verification/Prelude.thy ===== *)
theory Prelude
  imports Main "HOL-Library.Word" "HOL-Library.Monad_Syntax"
begin

text \<open>
  What every component shares: the C types of the code as HOL types, the errno values the code
  returns, checked accesses to a heap buffer, the two byte orders, the named collections the
  proofs draw on, and the generic facts about lists and the option monad.

  A run of the code is an option: \<open>None\<close> means that the run has no defined continuation,
  because it touches memory outside an allocated buffer or because the answers scripted for
  the kernel (theory World) are exhausted, that is, the thread is still inside the call.
\<close>

unbundle bit_operations_syntax

type_synonym byte = "8 word"
type_synonym u16 = "16 word"
type_synonym u32 = "32 word"
type_synonym objhld = int

named_theorems frame_simps "fields an operation leaves unchanged"
named_theorems buf_simps "checked buffer accesses"
named_theorems wire_simps "bytes on the wire, read off a trace"

section \<open>errno\<close>

text \<open>The values of errno(3) on Linux; the code returns them negated, or as they are.\<close>

abbreviation (input) EPERM :: int where "EPERM \<equiv> 1"
abbreviation (input) ENOENT :: int where "ENOENT \<equiv> 2"
abbreviation (input) EINTR :: int where "EINTR \<equiv> 4"
abbreviation (input) EBADF :: int where "EBADF \<equiv> 9"
abbreviation (input) EAGAIN :: int where "EAGAIN \<equiv> 11"
abbreviation (input) ENOMEM :: int where "ENOMEM \<equiv> 12"
abbreviation (input) EBUSY :: int where "EBUSY \<equiv> 16"
abbreviation (input) EEXIST :: int where "EEXIST \<equiv> 17"
abbreviation (input) EINVAL :: int where "EINVAL \<equiv> 22"
abbreviation (input) ENFILE :: int where "ENFILE \<equiv> 23"
abbreviation (input) EPROTOTYPE :: int where "EPROTOTYPE \<equiv> 91"
abbreviation (input) EPROTONOSUPPORT :: int where "EPROTONOSUPPORT \<equiv> 93"
abbreviation (input) ECONNABORTED :: int where "ECONNABORTED \<equiv> 103"
abbreviation (input) ECONNRESET :: int where "ECONNRESET \<equiv> 104"
abbreviation (input) ENOBUFS :: int where "ENOBUFS \<equiv> 105"
abbreviation (input) EISCONN :: int where "EISCONN \<equiv> 106"
abbreviation (input) ECONNREFUSED :: int where "ECONNREFUSED \<equiv> 111"
abbreviation (input) EALREADY :: int where "EALREADY \<equiv> 114"
abbreviation (input) EINPROGRESS :: int where "EINPROGRESS \<equiv> 115"

section \<open>Protocol numbers\<close>

abbreviation (input) IPPROTO_TCP :: int where "IPPROTO_TCP \<equiv> 6"
abbreviation (input) IPPROTO_UDP :: int where "IPPROTO_UDP \<equiv> 17"
abbreviation (input) ETH_P_ARP :: int where "ETH_P_ARP \<equiv> 2054"
abbreviation (input) ETH_P_IP :: int where "ETH_P_IP \<equiv> 2048"

section \<open>Checked access to a buffer\<close>

text \<open>
  A heap buffer is the list of its bytes, as long as the allocation. A read or a write of
  \<open>memcpy\<close>, \<open>memmove\<close> or a system call names an offset and a length; outside the
  allocation it is undefined behaviour and the access is \<open>None\<close>.
\<close>

definition buf_get :: "byte list \<Rightarrow> int \<Rightarrow> int \<Rightarrow> byte list option" where
  "buf_get b off len =
     (if 0 \<le> off \<and> 0 \<le> len \<and> off + len \<le> int (length b)
      then Some (take (nat len) (drop (nat off) b)) else None)"

definition buf_put :: "byte list \<Rightarrow> int \<Rightarrow> byte list \<Rightarrow> byte list option" where
  "buf_put b off bs =
     (if 0 \<le> off \<and> off + int (length bs) \<le> int (length b)
      then Some (take (nat off) b @ bs @ drop (nat off + length bs) b) else None)"

lemma buf_put_SomeI [buf_simps]:
  "0 \<le> off \<Longrightarrow> off + int (length bs) \<le> int (length b) \<Longrightarrow>
     buf_put b off bs = Some (take (nat off) b @ bs @ drop (nat off + length bs) b)"
  by (simp add: buf_put_def)

lemma buf_get_SomeI [buf_simps]:
  "0 \<le> off \<Longrightarrow> 0 \<le> len \<Longrightarrow> off + len \<le> int (length b) \<Longrightarrow>
     buf_get b off len = Some (take (nat len) (drop (nat off) b))"
  by (simp add: buf_get_def)

text \<open>The same at natural numbers.\<close>

lemma buf_get_nat:
  "off + m \<le> length b \<Longrightarrow> buf_get b (int off) (int m) = Some (take m (drop off b))"
  by (simp add: buf_get_def)

lemma buf_get_front: "m \<le> length b \<Longrightarrow> buf_get b 0 (int m) = Some (take m b)"
  by (simp add: buf_get_def)

lemma buf_put_nat:
  "off + length bs \<le> length b \<Longrightarrow>
     buf_put b (int off) bs = Some (take off b @ bs @ drop (off + length bs) b)"
  by (simp add: buf_put_def)

lemma buf_put_length: "buf_put b off bs = Some b' \<Longrightarrow> length b' = length b"
  by (auto simp: buf_put_def split: if_splits)

lemma buf_get_length: "buf_get b off len = Some bs \<Longrightarrow> int (length bs) = len"
  by (auto simp: buf_get_def split: if_splits)

text \<open>Reading back what was written, and what lies before it.\<close>

lemma buf_get_put: "buf_put b off bs = Some b' \<Longrightarrow> buf_get b' off (int (length bs)) = Some bs"
  by (auto simp: buf_put_def buf_get_def min_def split: if_splits)

lemma buf_put_prefix:
  "buf_put b off bs = Some b' \<Longrightarrow> take (nat off + length bs) b' = take (nat off) b @ bs"
  by (auto simp: buf_put_def min_absorb2 nat_le_iff split: if_splits)

section \<open>Byte order\<close>

text \<open>The hosts the library is built for are little-endian: \<open>htons\<close>, \<open>htonl\<close> and their
  inverses swap the bytes.\<close>

definition htons :: "u16 \<Rightarrow> u16" where
  "htons x = push_bit 8 x OR drop_bit 8 x"

definition htonl :: "u32 \<Rightarrow> u32" where
  "htonl x = push_bit 24 x OR (push_bit 8 x AND 0x00FF0000)
             OR (drop_bit 8 x AND 0x0000FF00) OR drop_bit 24 x"

text \<open>The bytes of a host value in memory, lowest address first.\<close>

definition bytes16 :: "u16 \<Rightarrow> byte list" where
  "bytes16 x = [ucast x, ucast (drop_bit 8 x)]"

definition bytes32 :: "u32 \<Rightarrow> byte list" where
  "bytes32 x = [ucast x, ucast (drop_bit 8 x), ucast (drop_bit 16 x), ucast (drop_bit 24 x)]"

definition word16_of :: "byte list \<Rightarrow> u16" where
  "word16_of bs = ucast (bs ! 0) OR push_bit 8 (ucast (bs ! 1))"

definition word32_of :: "byte list \<Rightarrow> u32" where
  "word32_of bs = ucast (bs ! 0) OR push_bit 8 (ucast (bs ! 1))
                  OR push_bit 16 (ucast (bs ! 2)) OR push_bit 24 (ucast (bs ! 3))"

lemma htons_htons [simp]: "htons (htons x) = x"
  unfolding htons_def by (rule bit_word_eqI) (auto simp: bit_simps)

lemma length_bytes16 [simp]: "length (bytes16 x) = 2"
  by (simp add: bytes16_def)

lemma length_bytes32 [simp]: "length (bytes32 x) = 4"
  by (simp add: bytes32_def)

text \<open>A value is read back from its bytes.\<close>

lemma word16_bytes16 [simp]: "word16_of (bytes16 x @ r) = x"
  unfolding word16_of_def bytes16_def
  by (rule bit_word_eqI) (auto simp: bit_simps)

lemma word32_bytes32 [simp]: "word32_of (bytes32 x @ r) = x"
  unfolding word32_of_def bytes32_def
  apply (rule bit_word_eqI)
  apply (auto simp: bit_simps)
  subgoal for n by (cases "n < 24") auto
  done

section \<open>Lists\<close>

lemma take_app_le: "n \<le> length xs \<Longrightarrow> take n (xs @ ys) = take n xs"
  by simp

lemma drop_app_ge: "length xs \<le> n \<Longrightarrow> drop n (xs @ ys) = drop (n - length xs) ys"
  by simp

lemma take_take_drop: "take m xs @ take n (drop m xs) = take (m + n) xs"
  by (simp add: take_add)

lemma concat_filter_map_append:
  "concat (map f (xs @ ys)) = concat (map f xs) @ concat (map f ys)"
  by simp

section \<open>The option monad\<close>

lemma bind_SomeE:
  assumes "Option.bind m f = Some r"
  obtains x where "m = Some x" "f x = Some r"
  using assms by (cases m) auto

text \<open>A run is taken apart one \<open>let\<close>, test or call at a time, each value keeping its name.\<close>

lemma let_pairE:
  assumes "(let (a, b) = t in f a b) = r"
  obtains a b where "t = (a, b)" "f a b = r"
  using assms by (cases t) auto

lemma let_varE:
  assumes "(let a = t in f a) = r"
  obtains a where "a = t" "f a = r"
  using assms by auto

lemma if_eqE:
  assumes "(if c then a else b) = r"
  obtains (then_branch) c "a = r" | (else_branch) "\<not> c" "b = r"
  using assms by (cases c) auto

lemma case_pairE:
  assumes "(case t of (a, b) \<Rightarrow> f a b) = r"
  obtains a b where "t = (a, b)" "f a b = r"
  using assms by (cases t) auto

lemmas run_elims = let_pairE let_varE if_eqE bind_SomeE case_pairE

end
