(* ===== verification/Types.thy ===== *)
theory Types
  imports Prelude
begin

text \<open>
  The data of the library: the net control block of ncb.h, the transmit queue of fifo.h and
  its nodes, the packed Ethernet and ARP structures of arp.h, and the events handed to the
  user's callback. A pointer that may be \<open>NULL\<close> is an \<open>option\<close>; an \<open>int\<close> is an HOL
  \<open>int\<close>, a flag word or an address is a machine word. The members of the union \<open>u\<close> of
  \<open>struct _ncb\<close> are separate fields: an object has one protocol for its whole life and
  every accessor checks it first.
\<close>

section \<open>Addresses\<close>

record sockaddr_in =
  sin_addr :: u32
  sin_port :: u16

record sockaddr_ll =
  sll_family :: int
  sll_ifindex :: int

record ip_mreq =
  imr_multiaddr :: u32
  imr_interface :: u32

section \<open>arp.h\<close>

record Ethernet_Head =
  Eth_Dest_Mac :: "byte list"
  Eth_Srce_Mac :: "byte list"
  Eth_Layer_Type :: u16

record Address_Resolution_Protocol =
  Arp_Hardware_Type :: u16
  Arp_Protocol_Type :: u16
  Arp_Hardware_Size :: byte
  Arp_Protocol_Size :: byte
  Arp_Op_Code :: u16
  Arp_Sender_Mac :: "byte list"
  Arp_Sender_Ip :: u32
  Arp_Target_Mac :: "byte list"
  Arp_Target_Ip :: u32

section \<open>Transmit nodes and the transmit queue\<close>

record tx_node =
  data :: "byte list"
  wcb :: int
  offset :: int
  udp_target :: sockaddr_in
  arp_target :: sockaddr_ll

record tx_fifo =
  blocking :: int
  fsize :: int
  fhead :: "tx_node list"

section \<open>Callbacks of the user\<close>

text \<open>
  A stream template: the parser reads the protocol head at the front of the buffer it is given
  (its second argument is the number of bytes it may look at) and answers a status and the
  length of the payload; the builder answers a status and the head it writes for a payload
  length; a serializer answers a status and the bytes it writes. They are code of the user.
\<close>

type_synonym tst_parser = "byte list \<Rightarrow> int \<Rightarrow> int \<times> int"
type_synonym tst_builder = "int \<Rightarrow> int \<times> byte list"
type_synonym nis_serializer = "byte list \<Rightarrow> int \<Rightarrow> int \<times> byte list"

record tst =
  t_cb :: int
  t_builder :: "tst_builder option"
  t_parser :: "tst_parser option"

datatype nis_event =
    EVT_PRE_CLOSE objhld "nat option"
  | EVT_CLOSED objhld
  | EVT_RECEIVEDATA objhld "byte list"
  | EVT_PIPEDATA objhld "byte list"
  | EVT_TCP_ACCEPTED objhld objhld
  | EVT_TCP_CONNECTED objhld
  | EVT_UDP_RECEIVEDATA objhld "byte list" u32 u16
  | EVT_ARP_RECEIVEDATA objhld Address_Resolution_Protocol

section \<open>The net control block\<close>

text \<open>The IO response routines that the code stores in \<open>ncb_read\<close> and \<open>ncb_write\<close>.\<close>

datatype io_routine =
    R_tcp_syn | R_tcp_rx | R_udp_rx | R_arp_rx | R_pipe_rx
  | W_tcp_tx | W_tcp_tx_syn | W_udp_tx | W_arp_tx | W_pipe_tx

record tcp_part =
  rx_parse_offset :: int
  rx_buffer :: "byte list option"
  lbdata :: "byte list option"
  lboffset :: int
  lbsize :: int
  template :: tst
  prtemplate :: tst
  mss :: int

record ncb =
  hld :: objhld
  sockfd :: int
  epfd :: int
  protocol :: int
  packet :: "byte list option"
  fifo :: tx_fifo
  remot_addr :: sockaddr_in
  local_addr :: sockaddr_in
  nis_callback :: "nat option"
  ncb_read :: "io_routine option"
  ncb_write :: "io_routine option"
  rcvtimeo :: "int \<times> int"
  sndtimeo :: "int \<times> int"
  iptos :: int
  attr :: u32
  user_context :: "nat option"
  prcontext :: "nat option"
  tcp :: tcp_part
  mreq :: "ip_mreq option"
  arp_source :: u32
  arp_ifindex :: int
  arp_source_phyaddr :: "byte list"

text \<open>\<open>memset(ncb, 0, sizeof(ncb_t))\<close>.\<close>

definition sockaddr_zero :: sockaddr_in where
  "sockaddr_zero = \<lparr>sin_addr = 0, sin_port = 0\<rparr>"

definition tst_zero :: tst where
  "tst_zero = \<lparr>t_cb = 0, t_builder = None, t_parser = None\<rparr>"

definition tcp_part_zero :: tcp_part where
  "tcp_part_zero = \<lparr>rx_parse_offset = 0, rx_buffer = None, lbdata = None, lboffset = 0,
     lbsize = 0, template = tst_zero, prtemplate = tst_zero, mss = 0\<rparr>"

definition ncb_zero :: ncb where
  "ncb_zero = \<lparr>hld = 0, sockfd = 0, epfd = 0, protocol = 0, packet = None,
     fifo = \<lparr>blocking = 0, fsize = 0, fhead = []\<rparr>,
     remot_addr = sockaddr_zero, local_addr = sockaddr_zero, nis_callback = None,
     ncb_read = None, ncb_write = None, rcvtimeo = (0, 0), sndtimeo = (0, 0), iptos = 0, attr = 0, user_context = None,
     prcontext = None, tcp = tcp_part_zero, mreq = None, arp_source = 0, arp_ifindex = 0,
     arp_source_phyaddr = replicate 6 0\<rparr>"

text \<open>\<open>ncb_lb_marked\<close>: a large block is being received.\<close>

definition ncb_lb_marked :: "ncb \<Rightarrow> bool" where
  "ncb_lb_marked n \<longleftrightarrow> lbdata (tcp n) \<noteq> None \<and> lbsize (tcp n) > 0"

text \<open>The node \<open>memset\<close> to zero that the write operations start from.\<close>

definition tx_node_zero :: tx_node where
  "tx_node_zero = \<lparr>data = [], wcb = 0, offset = 0, udp_target = sockaddr_zero,
     arp_target = \<lparr>sll_family = 0, sll_ifindex = 0\<rparr>\<rparr>"

text \<open>The bytes of a node that the kernel has not taken yet, and a well-formed node: the
  counters stay within the buffer.\<close>

definition node_rest :: "tx_node \<Rightarrow> byte list" where
  "node_rest x = take (nat (wcb x - offset x)) (drop (nat (offset x)) (data x))"

definition node_ok :: "tx_node \<Rightarrow> bool" where
  "node_ok x \<longleftrightarrow> 0 \<le> offset x \<and> offset x \<le> wcb x \<and> wcb x \<le> int (length (data x))"

lemma length_node_rest: "node_ok x \<Longrightarrow> int (length (node_rest x)) = wcb x - offset x"
  by (auto simp: node_rest_def node_ok_def min_def)

lemma node_rest_done: "wcb x \<le> offset x \<Longrightarrow> node_rest x = []"
  by (simp add: node_rest_def)

end
