(* ===== verification/World.thy ===== *)
theory World
  imports Types
begin

text \<open>
  What the code runs on and does not contain: the kernel, the heap, and the object manager of
  libnsp. None of it is given a behaviour of its own. The answers of the kernel and of the
  allocator are scripts in the state, lists that the calls consume in order, so a statement
  about every script is a statement about every behaviour. A simple call that only succeeds or
  fails reads the script of its name (an errno, \<open>0\<close> for success) and succeeds where the
  script is at its end; a call that returns data needs an answer, and without one the run is
  \<open>None\<close>: the thread is still inside the call. What the calls are told is kept: the options
  set on a socket, the interest list of an epoll instance, and a trace of everything visible
  from outside.

  The object manager (\<open>objallo\<close>, \<open>objrefr\<close>, \<open>objdefr\<close>, \<open>objclos\<close>, \<open>objreff\<close>) is not part
  of the repository. \<open>objs\<close> holds the blocks of the handles that it still answers, and each
  call of it is an event of the trace; when it destroys a closed object is its own business.
\<close>

section \<open>Constants and functions of headers outside the repository\<close>

record nis_env =
  LINKATTR_TCP_FULLY_RECEIVE :: u32
  LINKATTR_TCP_NO_BUILD :: u32
  LINKATTR_TCP_UPDATE_ACCEPT_CONTEXT :: u32
  LINKATTR_UDP_BAORDCAST :: u32
  UDP_FLAG_BROADCAST :: u32
  UDP_FLAG_MULTICAST :: u32
  LINK_ADDR_LOCAL :: int
  LINK_ADDR_REMOTE :: int
  MAX_UDP_UNIT :: int
  SOMAXCONN :: int
  inet_addr :: "string \<Rightarrow> u32"
  posix__makeerror :: "int \<Rightarrow> int"
  posix__getnprocs :: int

section \<open>What is visible from outside\<close>

datatype epoll_op = EPOLL_CTL_ADD | EPOLL_CTL_MOD | EPOLL_CTL_DEL

datatype effect =
    Post nat nis_event
  | Refr objhld
  | Defr objhld
  | Clos objhld
  | Reff objhld
  | Send int "byte list"
  | SendtoIn int "byte list" sockaddr_in
  | SendtoLl int "byte list" sockaddr_ll
  | WritePipe int "byte list"
  | Bind int sockaddr_in
  | Connect int sockaddr_in
  | Listen int int
  | Shutdown int
  | Close int
  | Signal objhld

section \<open>Socket options\<close>

datatype sockopt =
    SO_REUSEADDR | SO_KEEPALIVE | SO_LINGER | SO_RCVTIMEO | SO_SNDTIMEO | SO_BROADCAST
  | SO_BUF int
  | TCP_KEEPIDLE | TCP_KEEPINTVL | TCP_KEEPCNT | TCP_NODELAY | TCP_CORK | TCP_MAXSEG | TCP_SYNCNT
  | IP_TOS | IP_HDRINCL | IP_MULTICAST_LOOP | IP_ADD_MEMBERSHIP | IP_DROP_MEMBERSHIP
  | OPT int int

datatype sysname =
    SYS_setsockopt | SYS_getsockopt | SYS_epoll_ctl | SYS_malloc | SYS_bind | SYS_listen
  | SYS_fcntl | SYS_gethostname | SYS_pthread_create | SYS_getifaddrs | SYS_ioctl

section \<open>Answers of the kernel\<close>

text \<open>
  \<open>KRet n\<close> is a success with the value \<open>n\<close>, \<open>KErr e\<close> a failure with \<open>errno\<close> set to \<open>e\<close>.
  For a send call \<open>n\<close> is the room the kernel has, and the call takes as many bytes as fit.
\<close>

datatype kans = KRet int | KErr int

datatype rxans = RxData "byte list" sockaddr_in | RxErr int

record epoll_object_block =
  eo_epfd :: int
  eo_actived :: bool
  eo_load :: int
  eo_pipefdw :: int

record io_object_block =
  epoptr :: "epoll_object_block list"
  divisions :: int
  io_protocol :: int

record wptask =
  task_hld :: objhld
  task_thread :: objhld

record wpool =
  tasks :: "wptask list"
  task_list_size :: int
  wp_actived :: bool

record world =
  env :: nis_env
  errno :: int
  trace :: "effect list"
  objs :: "objhld \<Rightarrow> ncb option"
  nl_head :: "objhld list"
  nl_count :: int
  iobs :: "objhld \<Rightarrow> io_object_block option"
  pools :: "objhld \<Rightarrow> wpool option"
  io_tcphld :: objhld
  io_udphld :: objhld
  wp_tcphld :: objhld
  wp_udphld :: objhld
  heap :: int
  junk :: byte
  sockopts :: "int \<Rightarrow> sockopt \<Rightarrow> int list"
  epolls :: "int \<Rightarrow> int \<Rightarrow> u32 option"
  k_fail :: "sysname \<Rightarrow> int list"
  k_send :: "kans list"
  k_recv :: "rxans list"
  k_accept :: "kans list"
  k_connect :: "kans list"
  k_soerror :: "kans list"
  k_tcpinfo :: "int option list"
  fdfl :: "int \<Rightarrow> u32"
  fdfd :: "int \<Rightarrow> u32"
  k_newfd :: "kans list"
  k_newobj :: "objhld list"
  k_names :: "sockaddr_in list"

definition emit :: "effect \<Rightarrow> world \<Rightarrow> world" where
  "emit e w = w\<lparr>trace := trace w @ [e]\<rparr>"

section \<open>Calls\<close>

text \<open>A call that returns \<open>0\<close>, or \<open>-1\<close> with \<open>errno\<close> set.\<close>

definition simple_call :: "sysname \<Rightarrow> world \<Rightarrow> int \<times> world" where
  "simple_call s w = (case k_fail w s of [] \<Rightarrow> (0, w)
     | e # es \<Rightarrow> (let w = w\<lparr>k_fail := (k_fail w)(s := es)\<rparr>
                 in if e = 0 then (0, w) else (-1, w\<lparr>errno := e\<rparr>)))"

text \<open>\<open>heap\<close> counts the blocks that are allocated and not freed.\<close>

definition malloc :: "int \<Rightarrow> world \<Rightarrow> byte list option \<times> world" where
  "malloc n w = (let (r, w) = simple_call SYS_malloc w
     in if r < 0 then (None, w) else (Some (replicate (nat n) (junk w)), w\<lparr>heap := heap w + 1\<rparr>))"

definition free :: "world \<Rightarrow> world" where
  "free w = w\<lparr>heap := heap w - 1\<rparr>"

definition setsockopt :: "int \<Rightarrow> sockopt \<Rightarrow> int list \<Rightarrow> world \<Rightarrow> int \<times> world" where
  "setsockopt fd opt val w = (let (r, w) = simple_call SYS_setsockopt w
     in if r < 0 then (r, w)
        else (0, w\<lparr>sockopts := (sockopts w)(fd := (sockopts w fd)(opt := val))\<rparr>))"

definition getsockopt :: "int \<Rightarrow> sockopt \<Rightarrow> world \<Rightarrow> int \<times> int list \<times> world" where
  "getsockopt fd opt w = (let (r, w) = simple_call SYS_getsockopt w
     in if r < 0 then (r, [], w) else (0, sockopts w fd opt, w))"

text \<open>\<open>epoll_ctl\<close> as epoll_ctl(2) documents it, beside the failures of the script.\<close>

definition epoll_ctl :: "int \<Rightarrow> epoll_op \<Rightarrow> int \<Rightarrow> u32 \<Rightarrow> world \<Rightarrow> int \<times> world" where
  "epoll_ctl ep op fd evts w = (let (r, w) = simple_call SYS_epoll_ctl w
     in if r < 0 then (r, w)
        else (case op of
          EPOLL_CTL_ADD \<Rightarrow>
            (if epolls w ep fd \<noteq> None then (-1, w\<lparr>errno := EEXIST\<rparr>)
             else (0, w\<lparr>epolls := (epolls w)(ep := (epolls w ep)(fd := Some evts))\<rparr>))
        | EPOLL_CTL_MOD \<Rightarrow>
            (if epolls w ep fd = None then (-1, w\<lparr>errno := ENOENT\<rparr>)
             else (0, w\<lparr>epolls := (epolls w)(ep := (epolls w ep)(fd := Some evts))\<rparr>))
        | EPOLL_CTL_DEL \<Rightarrow>
            (if epolls w ep fd = None then (-1, w\<lparr>errno := ENOENT\<rparr>)
             else (0, w\<lparr>epolls := (epolls w)(ep := (epolls w ep)(fd := None))\<rparr>))))"

text \<open>A send call: \<open>len\<close> bytes of \<open>buf\<close> at \<open>off\<close>, of which the kernel takes what it has room
  for; \<open>eff\<close> records the bytes taken.\<close>

definition send_call ::
  "(byte list \<Rightarrow> effect) \<Rightarrow> byte list \<Rightarrow> int \<Rightarrow> int \<Rightarrow> world \<Rightarrow> (int \<times> world) option" where
  "send_call eff buf off len w = do {
     bs \<leftarrow> buf_get buf off len;
     (case k_send w of [] \<Rightarrow> None
      | KErr e # ks \<Rightarrow> Some (-1, w\<lparr>k_send := ks, errno := e\<rparr>)
      | KRet n # ks \<Rightarrow> (let taken = take (nat n) bs
          in Some (int (length taken), emit (eff taken) (w\<lparr>k_send := ks\<rparr>))))
   }"

definition recv_call :: "int \<Rightarrow> world \<Rightarrow> (int \<times> byte list \<times> sockaddr_in \<times> world) option" where
  "recv_call len w = (case k_recv w of [] \<Rightarrow> None
      | RxErr e # ks \<Rightarrow> Some (-1, [], sockaddr_zero, w\<lparr>k_recv := ks, errno := e\<rparr>)
      | RxData bs a # ks \<Rightarrow> (let got = take (nat len) bs
          in Some (int (length got), got, a, w\<lparr>k_recv := ks\<rparr>)))"

text \<open>Calls that answer a number: the new descriptor of \<open>accept\<close> and \<open>socket\<close>, the pending
  error of \<open>SO_ERROR\<close>.\<close>

definition accept_call :: "world \<Rightarrow> (int \<times> world) option" where
  "accept_call w = (case k_accept w of [] \<Rightarrow> None
      | KErr e # ks \<Rightarrow> Some (-1, w\<lparr>k_accept := ks, errno := e\<rparr>)
      | KRet n # ks \<Rightarrow> Some (n, w\<lparr>k_accept := ks\<rparr>))"

text \<open>Every attempt to connect is visible, with the address it names; so is an address that is bound.\<close>

definition connect_call :: "int \<Rightarrow> sockaddr_in \<Rightarrow> world \<Rightarrow> (int \<times> world) option" where
  "connect_call fd a w = (case k_connect w of [] \<Rightarrow> None
      | KErr e # ks \<Rightarrow> Some (-1, emit (Connect fd a) (w\<lparr>k_connect := ks, errno := e\<rparr>))
      | KRet n # ks \<Rightarrow> Some (0, emit (Connect fd a) (w\<lparr>k_connect := ks\<rparr>)))"

definition bind_call :: "int \<Rightarrow> sockaddr_in \<Rightarrow> world \<Rightarrow> int \<times> world" where
  "bind_call fd a w = (let (r, w) = simple_call SYS_bind w
     in if r < 0 then (r, w) else (0, emit (Bind fd a) w))"

definition newfd_call :: "world \<Rightarrow> (int \<times> world) option" where
  "newfd_call w = (case k_newfd w of [] \<Rightarrow> None
      | KErr e # ks \<Rightarrow> Some (-1, w\<lparr>k_newfd := ks, errno := e\<rparr>)
      | KRet n # ks \<Rightarrow> Some (n, w\<lparr>k_newfd := ks\<rparr>))"

definition soerror_call :: "world \<Rightarrow> (int \<times> int \<times> world) option" where
  "soerror_call w = (case k_soerror w of [] \<Rightarrow> None
      | KErr e # ks \<Rightarrow> Some (-1, 0, w\<lparr>k_soerror := ks, errno := e\<rparr>)
      | KRet n # ks \<Rightarrow> Some (0, n, w\<lparr>k_soerror := ks\<rparr>))"

text \<open>\<open>fcntl\<close> on the status flags and on the descriptor flags of a file descriptor.\<close>

definition fcntl_getfl :: "int \<Rightarrow> world \<Rightarrow> int \<times> u32 \<times> world" where
  "fcntl_getfl fd w = (let (r, w) = simple_call SYS_fcntl w in (r, fdfl w fd, w))"

definition fcntl_setfl :: "int \<Rightarrow> u32 \<Rightarrow> world \<Rightarrow> int \<times> world" where
  "fcntl_setfl fd fl w = (let (r, w) = simple_call SYS_fcntl w
     in if r < 0 then (r, w) else (0, w\<lparr>fdfl := (fdfl w)(fd := fl)\<rparr>))"

definition fcntl_getfd :: "int \<Rightarrow> world \<Rightarrow> int \<times> u32 \<times> world" where
  "fcntl_getfd fd w = (let (r, w) = simple_call SYS_fcntl w in (r, fdfd w fd, w))"

definition fcntl_setfd :: "int \<Rightarrow> u32 \<Rightarrow> world \<Rightarrow> int \<times> world" where
  "fcntl_setfd fd fl w = (let (r, w) = simple_call SYS_fcntl w
     in if r < 0 then (r, w) else (0, w\<lparr>fdfd := (fdfd w)(fd := fl)\<rparr>))"

text \<open>\<open>getsockname\<close> and \<open>getpeername\<close>: the code ignores their status; an answer is the
  address they store.\<close>

definition getname :: "sockaddr_in \<Rightarrow> world \<Rightarrow> sockaddr_in \<times> world" where
  "getname old w = (case k_names w of [] \<Rightarrow> (old, w) | a # as \<Rightarrow> (a, w\<lparr>k_names := as\<rparr>))"

section \<open>The object manager\<close>

definition objrefr :: "objhld \<Rightarrow> world \<Rightarrow> ncb option \<times> world" where
  "objrefr h w = (case objs w h of None \<Rightarrow> (None, w) | Some n \<Rightarrow> (Some n, emit (Refr h) w))"

definition objdefr :: "objhld \<Rightarrow> world \<Rightarrow> world" where
  "objdefr h w = emit (Defr h) w"

definition objclos :: "objhld \<Rightarrow> world \<Rightarrow> world" where
  "objclos h w = emit (Clos h) w"

definition objreff :: "objhld \<Rightarrow> world \<Rightarrow> ncb option \<times> world" where
  "objreff h w = (case objs w h of None \<Rightarrow> (None, w) | Some n \<Rightarrow> (Some n, emit (Reff h) w))"

text \<open>Storing back the block that a handler has changed through its pointer.\<close>

definition put_ncb :: "objhld \<Rightarrow> ncb \<Rightarrow> world \<Rightarrow> world" where
  "put_ncb h n w = w\<lparr>objs := (objs w)(h := Some n)\<rparr>"

text \<open>References taken and not given back on a trace, per handle.\<close>

fun ref_balance :: "objhld \<Rightarrow> effect list \<Rightarrow> int" where
  "ref_balance h [] = 0"
| "ref_balance h (Refr g # es) = (if g = h then 1 else 0) + ref_balance h es"
| "ref_balance h (Defr g # es) = (if g = h then -1 else 0) + ref_balance h es"
| "ref_balance h (e # es) = ref_balance h es"

lemma ref_balance_append [simp]: "ref_balance h (xs @ ys) = ref_balance h xs + ref_balance h ys"
  by (induction h xs rule: ref_balance.induct) auto

section \<open>Frame facts\<close>

lemma emit_sel [simp]:
  "trace (emit e w) = trace w @ [e]" "objs (emit e w) = objs w" "env (emit e w) = env w"
  "k_send (emit e w) = k_send w" "k_recv (emit e w) = k_recv w" "heap (emit e w) = heap w"
  "epolls (emit e w) = epolls w" "k_fail (emit e w) = k_fail w" "errno (emit e w) = errno w"
  "pools (emit e w) = pools w" "iobs (emit e w) = iobs w" "junk (emit e w) = junk w"
  "k_accept (emit e w) = k_accept w" "k_connect (emit e w) = k_connect w"
  "k_soerror (emit e w) = k_soerror w" "k_tcpinfo (emit e w) = k_tcpinfo w"
  "fdfl (emit e w) = fdfl w" "fdfd (emit e w) = fdfd w" "k_newfd (emit e w) = k_newfd w"
  "k_newobj (emit e w) = k_newobj w" "k_names (emit e w) = k_names w"
  "nl_head (emit e w) = nl_head w" "nl_count (emit e w) = nl_count w"
  "io_tcphld (emit e w) = io_tcphld w" "io_udphld (emit e w) = io_udphld w"
  "wp_tcphld (emit e w) = wp_tcphld w" "wp_udphld (emit e w) = wp_udphld w"
  "sockopts (emit e w) = sockopts w"
  by (simp_all add: emit_def)

lemma simple_call_sel [simp]:
  "trace (snd (simple_call s w)) = trace w" "objs (snd (simple_call s w)) = objs w"
  "env (snd (simple_call s w)) = env w" "k_send (snd (simple_call s w)) = k_send w"
  "k_recv (snd (simple_call s w)) = k_recv w" "heap (snd (simple_call s w)) = heap w"
  "epolls (snd (simple_call s w)) = epolls w" "pools (snd (simple_call s w)) = pools w"
  "iobs (snd (simple_call s w)) = iobs w" "junk (snd (simple_call s w)) = junk w"
  "k_accept (snd (simple_call s w)) = k_accept w"
  "k_tcpinfo (snd (simple_call s w)) = k_tcpinfo w"
  "sockopts (snd (simple_call s w)) = sockopts w"
  "k_soerror (snd (simple_call s w)) = k_soerror w"
  "fdfl (snd (simple_call s w)) = fdfl w" "fdfd (snd (simple_call s w)) = fdfd w"
  by (auto simp: simple_call_def Let_def split: list.splits)

text \<open>What a simple call may change, in the form the proofs take it: by elimination, so that the
  rest of the state is read off a record update.\<close>

lemma simple_callD:
  "simple_call s w = (r, w') \<Longrightarrow> \<exists>f e. w' = w\<lparr>k_fail := f, errno := e\<rparr> \<and> (r = 0 \<or> r = -1)"
  by (cases w) (auto simp: simple_call_def Let_def split: list.splits if_splits)

lemma epoll_ctlD:
  "epoll_ctl ep op fd evts w = (r, w') \<Longrightarrow>
     (\<exists>f e. r = -1 \<and> w' = w\<lparr>k_fail := f, errno := e\<rparr>)
     \<or> (\<exists>f e. r = 0 \<and> w' = w\<lparr>k_fail := f, errno := e, epolls := (epolls w)(ep := (epolls w ep)
              (fd := (if op = EPOLL_CTL_DEL then None else Some evts)))\<rparr>
           \<and> (op = EPOLL_CTL_MOD \<longrightarrow> epolls w ep fd \<noteq> None)
           \<and> (op = EPOLL_CTL_DEL \<longrightarrow> epolls w ep fd \<noteq> None))"
  by (cases op; auto simp: epoll_ctl_def Let_def split: prod.splits if_splits dest!: simple_callD;
      (blast | ((rule exI)+; rule refl)))

lemma mallocD:
  "malloc n w = (b, w') \<Longrightarrow>
     (\<exists>f e. b = None \<and> w' = w\<lparr>k_fail := f, errno := e\<rparr>)
     \<or> (\<exists>f e. b = Some (replicate (nat n) (junk w)) \<and>
            w' = w\<lparr>k_fail := f, errno := e, heap := heap w + 1\<rparr>)"
  by (auto simp: malloc_def Let_def split: prod.splits if_splits dest!: simple_callD;
      (blast | ((rule exI)+; rule refl)))

lemma simple_call_ok: "k_fail w s = [] \<Longrightarrow> simple_call s w = (0, w)"
  by (simp add: simple_call_def)

text \<open>A step that only talks to the kernel about descriptors: the failure scripts, \<open>errno\<close> and the
  interest lists may move, nothing else does.\<close>

definition ctl_step :: "world \<Rightarrow> world \<Rightarrow> bool" where
  "ctl_step w w' \<longleftrightarrow> (\<exists>f e p. w' = w\<lparr>k_fail := f, errno := e, epolls := p\<rparr>)"

lemma ctl_stepI:
  "ctl_step w w" "ctl_step w (w\<lparr>k_fail := f, errno := e\<rparr>)"
  "ctl_step w (w\<lparr>k_fail := f, errno := e, epolls := p\<rparr>)"
  by (cases w; auto simp: ctl_step_def; blast)+

lemma ctl_stepD:
  assumes "ctl_step w w'"
  shows "trace w' = trace w \<and> objs w' = objs w \<and> env w' = env w \<and> k_send w' = k_send w
    \<and> k_recv w' = k_recv w \<and> heap w' = heap w \<and> pools w' = pools w \<and> iobs w' = iobs w
    \<and> junk w' = junk w \<and> k_tcpinfo w' = k_tcpinfo w \<and> sockopts w' = sockopts w
    \<and> io_tcphld w' = io_tcphld w \<and> io_udphld w' = io_udphld w
    \<and> wp_tcphld w' = wp_tcphld w \<and> wp_udphld w' = wp_udphld w \<and> nl_head w' = nl_head w
    \<and> nl_count w' = nl_count w"
  using assms by (auto simp: ctl_step_def)

lemma ctl_step_trans: "ctl_step w w' \<Longrightarrow> ctl_step w' w'' \<Longrightarrow> ctl_step w w''"
  by (auto simp: ctl_step_def; blast)

text \<open>Each answer is consumed, so a loop around a call that answers ends with the script.\<close>

lemma send_call_consumes:
  "send_call eff buf off len w = Some (r, w') \<Longrightarrow> length (k_send w') < length (k_send w)"
  by (auto simp: send_call_def Let_def split: Option.bind_splits list.splits kans.splits)

lemma recv_call_consumes:
  "recv_call len w = Some (r, bs, a, w') \<Longrightarrow> length (k_recv w') < length (k_recv w)"
  by (auto simp: recv_call_def Let_def split: list.splits rxans.splits)

section \<open>A concrete state\<close>

text \<open>An environment and an idle world, for the concrete runs that accompany the theorems.\<close>

definition env0 :: nis_env where
  "env0 = \<lparr>LINKATTR_TCP_FULLY_RECEIVE = 1, LINKATTR_TCP_NO_BUILD = 2,
     LINKATTR_TCP_UPDATE_ACCEPT_CONTEXT = 4, LINKATTR_UDP_BAORDCAST = 1, UDP_FLAG_BROADCAST = 1,
     UDP_FLAG_MULTICAST = 2, LINK_ADDR_LOCAL = 1, LINK_ADDR_REMOTE = 2, MAX_UDP_UNIT = 1472, SOMAXCONN = 128,
     inet_addr = (\<lambda>s. of_nat (length s)), posix__makeerror = (\<lambda>e. if 0 < e then - e else -1),
     posix__getnprocs = 2\<rparr>"

definition world0 :: world where
  "world0 = \<lparr>env = env0, errno = 0, trace = [], objs = (\<lambda>_. None), nl_head = [], nl_count = 0,
     iobs = (\<lambda>_. None), pools = (\<lambda>_. None), io_tcphld = -1, io_udphld = -1, wp_tcphld = -1,
     wp_udphld = -1, heap = 0, junk = 0, sockopts = (\<lambda>_ _. []), epolls = (\<lambda>_ _. None),
     k_fail = (\<lambda>_. []), k_send = [], k_recv = [], k_accept = [], k_connect = [], k_soerror = [],
     k_tcpinfo = [], fdfl = (\<lambda>_. 0), fdfd = (\<lambda>_. 0), k_newfd = [], k_newobj = [], k_names = []\<rparr>"

end
