(* ===== verification/Io.thy ===== *)
theory Io
  imports World
begin

text \<open>
  io.c, the operations on one descriptor: putting it in non-blocking mode (\<open>io_fcntl\<close>),
  joining it to the epoll instance its handle selects (\<open>io_attach\<close>), changing its interest
  emask (\<open>io_modify\<close>), and taking it off and closing it (\<open>io_detach\<close>, \<open>io_close\<close>). The
  lemmas say which flags and which emask each leaves in the kernel.
\<close>

abbreviation (input) EPOLLIN :: u32 where "EPOLLIN \<equiv> 0x001"
abbreviation (input) EPOLLOUT :: u32 where "EPOLLOUT \<equiv> 0x004"
abbreviation (input) EPOLLERR :: u32 where "EPOLLERR \<equiv> 0x008"
abbreviation (input) EPOLLHUP :: u32 where "EPOLLHUP \<equiv> 0x010"
abbreviation (input) EPOLLRDHUP :: u32 where "EPOLLRDHUP \<equiv> 0x2000"
abbreviation (input) EPOLLET :: u32 where "EPOLLET \<equiv> 0x80000000"

text \<open>The emask every registration starts from.\<close>

definition base_events :: u32 where
  "base_events = EPOLLET OR EPOLLRDHUP OR EPOLLHUP OR EPOLLERR"

abbreviation (input) O_NONBLOCK :: u32 where "O_NONBLOCK \<equiv> 0x800"
abbreviation (input) FD_CLOEXEC :: u32 where "FD_CLOEXEC \<equiv> 1"

section \<open>Operations\<close>

definition io_fcntl :: "int \<Rightarrow> world \<Rightarrow> int \<times> world" where
  "io_fcntl fd w =
     (if fd < 0 then (- EINVAL, w) else
      let (r, opt, w) = fcntl_getfl fd w in
      if r < 0 then (posix__makeerror (env w) (errno w), w) else
      let (r, w) = (if opt AND O_NONBLOCK = 0 then fcntl_setfl fd (opt OR O_NONBLOCK) w else (0, w)) in
      if r < 0 then (posix__makeerror (env w) (errno w), w) else
      let (r, opt, w) = fcntl_getfd fd w in
      if r < 0 then (posix__makeerror (env w) (errno w), w) else
      let (r, w) = (if opt AND FD_CLOEXEC = 0 then fcntl_setfd fd (opt OR FD_CLOEXEC) w else (0, w)) in
      if r < 0 then (posix__makeerror (env w) (errno w), w) else (0, w))"

text \<open>The handle of the io object of a protocol, as \<open>io_attach\<close> and \<open>io_pipefd\<close> choose it.\<close>

definition io_handle :: "int \<Rightarrow> world \<Rightarrow> objhld" where
  "io_handle proto w = (if proto = IPPROTO_TCP then io_tcphld w
     else if proto = IPPROTO_UDP \<or> proto = ETH_P_ARP then io_udphld w else -1)"

definition iob_refr :: "objhld \<Rightarrow> world \<Rightarrow> io_object_block option \<times> world" where
  "iob_refr h w = (case iobs w h of None \<Rightarrow> (None, w) | Some b \<Rightarrow> (Some b, emit (Refr h) w))"

text \<open>\<open>iobptr->epoptr[hld % iobptr->divisions]\<close>, undefined outside the array.\<close>

definition epo_index :: "objhld \<Rightarrow> int \<Rightarrow> int" where
  "epo_index h d = (if h < 0 then - ((- h) mod d) else h mod d)"

definition epo_of :: "io_object_block \<Rightarrow> objhld \<Rightarrow> epoll_object_block option" where
  "epo_of b h = (let i = epo_index h (divisions b)
     in if divisions b \<noteq> 0 \<and> 0 \<le> i \<and> i < int (length (epoptr b))
        then Some (epoptr b ! nat i) else None)"

definition io_attach :: "ncb \<Rightarrow> u32 \<Rightarrow> world \<Rightarrow> (int \<times> ncb \<times> world) option" where
  "io_attach n emask w = (let (r, w) = io_fcntl (sockfd n) w in
     if r < 0 then Some (r, n, w) else
     let h = io_handle (protocol n) w in
     if h < 0 then Some (- EPROTOTYPE, n, w) else
     case iob_refr h w of
       (None, w) \<Rightarrow> Some (- ENOENT, n, w)
     | (Some b, w) \<Rightarrow> do {
         eo \<leftarrow> epo_of b (hld n);
         let n = n\<lparr>epfd := eo_epfd eo\<rparr>;
         let (r, w) = epoll_ctl (epfd n) EPOLL_CTL_ADD (sockfd n) (base_events OR emask) w;
         let n = (if r < 0 \<and> errno w \<noteq> EEXIST then n\<lparr>epfd := -1\<rparr> else n);
         Some (epfd n, n, objdefr h w)
       })"

definition io_modify :: "ncb \<Rightarrow> u32 \<Rightarrow> world \<Rightarrow> int \<times> world" where
  "io_modify n emask w =
     (let (r, w) = epoll_ctl (epfd n) EPOLL_CTL_MOD (sockfd n) (base_events OR emask) w
      in if r < 0 then (posix__makeerror (env w) (errno w), w) else (0, w))"

definition io_detach :: "ncb \<Rightarrow> world \<Rightarrow> world" where
  "io_detach n w = snd (epoll_ctl (epfd n) EPOLL_CTL_DEL (sockfd n) 0 w)"

definition io_close :: "ncb \<Rightarrow> world \<Rightarrow> ncb \<times> world" where
  "io_close n w =
     (if sockfd n > 0 then
        let (n, w) = (if epfd n > 0 then (n\<lparr>epfd := -1\<rparr>, io_detach n w) else (n, w));
            w = emit (Close (sockfd n)) (emit (Shutdown (sockfd n)) w)
        in (n\<lparr>sockfd := -1\<rparr>, w)
      else (n, w))"

definition io_pipefd :: "ncb \<Rightarrow> world \<Rightarrow> (int \<times> world) option" where
  "io_pipefd n w = (let h = io_handle (protocol n) w in
     if h < 0 then Some (- EPROTOTYPE, w) else
     case iob_refr h w of
       (None, w) \<Rightarrow> Some (- ENOENT, w)
     | (Some b, w) \<Rightarrow> do {
         eo \<leftarrow> epo_of b (hld n);
         Some (eo_pipefdw eo, objdefr h w)
       })"

section \<open>What they leave in the kernel\<close>

definition interest :: "ncb \<Rightarrow> world \<Rightarrow> u32 option" where
  "interest n w = epolls w (epfd n) (sockfd n)"

definition armed :: "ncb \<Rightarrow> world \<Rightarrow> bool" where
  "armed n w \<longleftrightarrow> (\<exists>m. interest n w = Some m \<and> m AND EPOLLOUT \<noteq> 0)"

lemma io_modifyD:
  "io_modify n em w = (r, w') \<Longrightarrow>
     (\<exists>f e. r = posix__makeerror (env w) e \<and> w' = w\<lparr>k_fail := f, errno := e\<rparr>)
     \<or> (\<exists>f e. r = 0 \<and> interest n w \<noteq> None \<and> w' = w\<lparr>k_fail := f, errno := e,
              epolls := (epolls w)(epfd n := (epolls w (epfd n))
                (sockfd n := Some (base_events OR em)))\<rparr>)"
proof -
  assume m: "io_modify n em w = (r, w')"
  obtain r1 w1 where e: "epoll_ctl (epfd n) EPOLL_CTL_MOD (sockfd n) (base_events OR em) w = (r1, w1)"
    by fastforce
  from epoll_ctlD [OF e] show ?thesis
    using m by (elim disjE exE conjE) (simp_all add: io_modify_def e interest_def, blast+)
qed

lemma io_modify_ctl: "io_modify n em w = (r, w') \<Longrightarrow> ctl_step w w'"
  by (auto dest!: io_modifyD intro: ctl_stepI)

text \<open>A failed modification leaves the interest list as it was; a successful one installs the
  mask, with the edge-triggered and error bits that are always on. A socket that is not
  registered is refused, one that is registered fails only where the kernel says so.\<close>

lemma io_modify_interest:
  "io_modify n em w = (r, w') \<Longrightarrow>
     interest n w' = interest n w \<or> interest n w' = Some (base_events OR em)"
  by (auto simp: interest_def dest!: io_modifyD)

definition errors_negative :: "world \<Rightarrow> bool" where
  "errors_negative w \<longleftrightarrow> (\<forall>e. posix__makeerror (env w) e < 0)"

lemma io_modify_success:
  "io_modify n em w = (r, w') \<Longrightarrow> 0 \<le> r \<Longrightarrow> errors_negative w \<Longrightarrow>
     r = 0 \<and> interest n w' = Some (base_events OR em)"
  by (auto simp: interest_def errors_negative_def not_le[symmetric] dest!: io_modifyD)

lemma io_modify_failure:
  "io_modify n em w = (r, w') \<Longrightarrow> r < 0 \<Longrightarrow> interest n w' = interest n w"
  by (auto simp: interest_def dest!: io_modifyD)

lemma io_modify_ok:
  "k_fail w SYS_epoll_ctl = [] \<Longrightarrow> interest n w \<noteq> None \<Longrightarrow>
     io_modify n em w =
       (0, w\<lparr>epolls := (epolls w)(epfd n := (epolls w (epfd n))(sockfd n := Some (base_events OR em)))\<rparr>)"
  by (auto simp: io_modify_def epoll_ctl_def interest_def simple_call_ok Let_def)

lemma armed_out: "interest n w = Some (base_events OR (EPOLLIN OR EPOLLOUT)) \<Longrightarrow> armed n w"
  by (simp add: armed_def base_events_def)

lemma not_armed_in: "interest n w = Some (base_events OR EPOLLIN) \<Longrightarrow> \<not> armed n w"
  by (simp add: armed_def base_events_def)

section \<open>Non-blocking mode\<close>

text \<open>A set bit is set whether it was there before or has just been added.\<close>

lemma or_bit_set: "(x OR b) AND b = (b :: 'a::len word)"
  by (rule bit_word_eqI) (auto simp: bit_simps)

lemma io_fcntl_flags:
  assumes "io_fcntl fd w = (r, w')" and "0 \<le> r" and "errors_negative w"
  shows "fdfl w' fd AND O_NONBLOCK \<noteq> 0 \<and> fdfd w' fd AND FD_CLOEXEC \<noteq> 0"
  using assms
  by (fastforce simp: io_fcntl_def fcntl_getfl_def fcntl_setfl_def fcntl_getfd_def
        fcntl_setfd_def errors_negative_def or_bit_set Let_def not_le[symmetric]
        split: prod.splits if_splits dest!: simple_callD)

section \<open>Closing\<close>

text \<open>\<open>io_close\<close> shuts the socket down and closes it once: the descriptor is then \<open>-1\<close>, and a
  second call does nothing.\<close>

lemma io_close_closed: "io_close n w = (n', w') \<Longrightarrow> sockfd n' \<le> 0"
  by (auto simp: io_close_def Let_def split: if_splits)

lemma io_close_again: "io_close n w = (n', w') \<Longrightarrow> io_close n' w' = (n', w')"
  by (auto simp: io_close_def Let_def split: if_splits)

section \<open>Frames\<close>

lemma io_fcntlD:
  assumes "io_fcntl fd w = (r, w')"
  shows "\<exists>f e a b. w' = w\<lparr>k_fail := f, errno := e, fdfl := a, fdfd := b\<rparr>"
proof -
  have s: "\<exists>f e. snd (simple_call SYS_fcntl v) = v\<lparr>k_fail := f, errno := e\<rparr>" for v
    using simple_callD [of SYS_fcntl v "fst (simple_call SYS_fcntl v)" "snd (simple_call SYS_fcntl v)"]
    by auto
  have P: "\<exists>f e a b. v2 = w\<lparr>k_fail := f, errno := e, fdfl := a, fdfd := b\<rparr>"
    if "\<exists>f e a b. v = w\<lparr>k_fail := f, errno := e, fdfl := a, fdfd := b\<rparr>"
      "v2 = snd (simple_call SYS_fcntl v) \<or> (\<exists>a. v2 = (snd (simple_call SYS_fcntl v))\<lparr>fdfl := a\<rparr>)
        \<or> (\<exists>a. v2 = (snd (simple_call SYS_fcntl v))\<lparr>fdfd := a\<rparr>)" for v v2
    using that s [of v] by (cases w) (auto; blast)
  have w0: "\<exists>f e a b. w = w\<lparr>k_fail := f, errno := e, fdfl := a, fdfd := b\<rparr>"
    by (intro exI [of _ "k_fail w"] exI [of _ "errno w"] exI [of _ "fdfl w"] exI [of _ "fdfd w"]) simp
  show ?thesis
  proof (cases "fd < 0")
    case True
    with assms w0 show ?thesis by (simp add: io_fcntl_def)
  next
    case False
    obtain r1 o1 w1 where 1: "fcntl_getfl fd w = (r1, o1, w1)" by (metis prod_cases3)
    have w1: "\<exists>f e a b. w1 = w\<lparr>k_fail := f, errno := e, fdfl := a, fdfd := b\<rparr>"
      using 1 by (intro P [OF w0]) (auto simp: fcntl_getfl_def Let_def split: prod.splits)
    obtain r2 w2 where 2: "(if o1 AND O_NONBLOCK = 0 then fcntl_setfl fd (o1 OR O_NONBLOCK) w1 else (0, w1)) = (r2, w2)"
      by fastforce
    have w2: "\<exists>f e a b. w2 = w\<lparr>k_fail := f, errno := e, fdfl := a, fdfd := b\<rparr>"
    proof (cases "o1 AND O_NONBLOCK = 0")
      case True
      with 2 show ?thesis
        by (intro P [OF w1]) (auto simp: fcntl_setfl_def Let_def split: prod.splits if_splits)
    qed (use 2 w1 in auto)
    obtain r3 o3 w3 where 3: "fcntl_getfd fd w2 = (r3, o3, w3)" by (metis prod_cases3)
    have w3: "\<exists>f e a b. w3 = w\<lparr>k_fail := f, errno := e, fdfl := a, fdfd := b\<rparr>"
      using 3 by (intro P [OF w2]) (auto simp: fcntl_getfd_def Let_def split: prod.splits)
    obtain r4 w4 where 4: "(if o3 AND FD_CLOEXEC = 0 then fcntl_setfd fd (o3 OR FD_CLOEXEC) w3 else (0, w3)) = (r4, w4)"
      by fastforce
    have w4: "\<exists>f e a b. w4 = w\<lparr>k_fail := f, errno := e, fdfl := a, fdfd := b\<rparr>"
    proof (cases "o3 AND FD_CLOEXEC = 0")
      case True
      with 4 show ?thesis
        by (intro P [OF w3]) (auto simp: fcntl_setfd_def Let_def split: prod.splits if_splits)
    qed (use 4 w3 in auto)
    have "w' \<in> {w1, w2, w3, w4}"
      using assms False unfolding io_fcntl_def 1 by (auto simp: 2 3 4 Let_def split: if_splits)
    then show ?thesis using w1 w2 w3 w4 by auto
  qed
qed

text \<open>What joining an epoll instance may change: the block's \<open>epfd\<close>, the kernel's view of the
  descriptor, and a reference taken and given back.\<close>

definition io_step :: "world \<Rightarrow> world \<Rightarrow> bool" where
  "io_step w w' \<longleftrightarrow> (\<exists>f e a b p t. w' = w\<lparr>k_fail := f, errno := e, fdfl := a, fdfd := b, epolls := p,
     trace := trace w @ t\<rparr> \<and> (t = [] \<or> (\<exists>h. t = [Refr h, Defr h])))"

lemma io_attachD:
  assumes "io_attach n m w = Some (r, n', w')"
  shows "io_step w w'" "\<exists>ep. n' = n\<lparr>epfd := ep\<rparr>"
proof -
  obtain r1 w1 where f: "io_fcntl (sockfd n) w = (r1, w1)" by fastforce
  obtain fl e a b where w1: "w1 = w\<lparr>k_fail := fl, errno := e, fdfl := a, fdfd := b\<rparr>"
    using io_fcntlD [OF f] by blast
  let ?h = "io_handle (protocol n) w1"
  have s1: "io_step w w1" unfolding io_step_def w1
    by (intro exI [of _ fl] exI [of _ e] exI [of _ a] exI [of _ b] exI [of _ "epolls w"] exI [of _ "[]"]) simp
  have "io_step w w' \<and> (\<exists>ep. n' = n\<lparr>epfd := ep\<rparr>)"
  proof (cases "r1 < 0 \<or> ?h < 0 \<or> iobs w1 ?h = None")
    case True
    then have "n' = n \<and> w' = w1"
      using assms f by (auto simp: io_attach_def iob_refr_def Let_def split: if_splits)
    then show ?thesis using s1 by (auto intro: exI [of _ "epfd n"])
  next
    case False
    then obtain blk where blk: "iobs w1 ?h = Some blk" by auto
    from assms f False blk obtain eo where eo: "epo_of blk (hld n) = Some eo"
      by (auto simp: io_attach_def iob_refr_def Let_def split: Option.bind_splits)
    obtain r2 w2 where
      e: "epoll_ctl (eo_epfd eo) EPOLL_CTL_ADD (sockfd n) (base_events OR m) (emit (Refr ?h) w1) = (r2, w2)"
      by fastforce
    have w': "w' = objdefr ?h w2" and n': "\<exists>ep. n' = n\<lparr>epfd := ep\<rparr>"
      using assms f False blk eo e by (auto simp: io_attach_def iob_refr_def Let_def split: if_splits)
    from epoll_ctlD [OF e] obtain f2 e2 p2 where
      "w2 = (emit (Refr ?h) w1)\<lparr>k_fail := f2, errno := e2, epolls := p2\<rparr>"
      by (elim disjE exE conjE) (cases w, auto simp: emit_def w1)
    then have "w' = w\<lparr>k_fail := f2, errno := e2, fdfl := a, fdfd := b, epolls := p2,
        trace := trace w @ [Refr ?h, Defr ?h]\<rparr>"
      by (cases w) (simp add: w' w1 emit_def objdefr_def)
    then have "io_step w w'" unfolding io_step_def by blast
    with n' show ?thesis by simp
  qed
  then show "io_step w w'" "\<exists>ep. n' = n\<lparr>epfd := ep\<rparr>" by auto
qed

lemma io_stepD:
  assumes "io_step w w'"
  shows "objs w' = objs w" "env w' = env w" "k_send w' = k_send w" "k_recv w' = k_recv w"
    "heap w' = heap w" "pools w' = pools w" "iobs w' = iobs w" "nl_head w' = nl_head w"
    "nl_count w' = nl_count w" "k_tcpinfo w' = k_tcpinfo w" "sockopts w' = sockopts w"
    "trace w' = trace w \<or> (\<exists>h. trace w' = trace w @ [Refr h, Defr h])"
  using assms by (auto simp: io_step_def)

end
