(* ===== verification/Queues.thy ===== *)
theory Queues
  imports Prelude
begin

text \<open>
  The interface of a first-in first-out queue, as its clients use it: an operation that may
  refuse an element, one that takes the oldest, the elements still inside, and the provider's
  invariant. The clients' fact is proved once here: over any interleaving of the two operations
  the elements come out in the order they went in, each once, none lost. The code has two such
  queues, the transmit queue of a link (theory Fifo) and the task list of a worker thread
  (theory Wpool).
\<close>

datatype 'x qop = Enq 'x | Deq

text \<open>A run of operations: the elements accepted, the elements delivered, the final queue.\<close>

fun qrun :: "('x \<Rightarrow> 'q \<Rightarrow> bool \<times> 'q) \<Rightarrow> ('q \<Rightarrow> 'x option \<times> 'q) \<Rightarrow> 'x qop list \<Rightarrow> 'q
    \<Rightarrow> 'x list \<times> 'x list \<times> 'q" where
  "qrun enq deq [] q = ([], [], q)"
| "qrun enq deq (Enq x # ops) q =
     (let (ok, q1) = enq x q; (acc, del, q2) = qrun enq deq ops q1
      in (if ok then x # acc else acc, del, q2))"
| "qrun enq deq (Deq # ops) q =
     (let (r, q1) = deq q; (acc, del, q2) = qrun enq deq ops q1
      in (acc, (case r of None \<Rightarrow> del | Some x \<Rightarrow> x # del), q2))"

locale tx_queue =
  fixes enq :: "'x \<Rightarrow> 'q \<Rightarrow> bool \<times> 'q"
    and deq :: "'q \<Rightarrow> 'x option \<times> 'q"
    and items :: "'q \<Rightarrow> 'x list"
    and inv :: "'q \<Rightarrow> bool"
  assumes enq_items: "inv q \<Longrightarrow> enq x q = (ok, q') \<Longrightarrow>
        items q' = (if ok then items q @ [x] else items q) \<and> inv q'"
    and deq_items: "inv q \<Longrightarrow> deq q = (r, q') \<Longrightarrow>
        items q = (case r of None \<Rightarrow> [] | Some x \<Rightarrow> x # items q') \<and> inv q'
        \<and> (r = None \<longrightarrow> items q' = [])"
begin

lemma fifo_order:
  "inv q \<Longrightarrow> qrun enq deq ops q = (acc, del, q') \<Longrightarrow>
     items q @ acc = del @ items q' \<and> inv q'"
proof (induction ops arbitrary: q acc del)
  case Nil
  then show ?case by simp
next
  case (Cons op ops)
  show ?case
  proof (cases op)
    case (Enq x)
    obtain ok q1 where e: "enq x q = (ok, q1)" by fastforce
    obtain acc1 del1 where r: "qrun enq deq ops q1 = (acc1, del1, q')"
      using Cons.prems(2) Enq e by (auto split: prod.splits)
    from enq_items [OF Cons.prems(1) e] Cons.IH [OF _ r] Cons.prems(2) Enq e r
    show ?thesis by (auto split: if_splits)
  next
    case Deq
    obtain x q1 where d: "deq q = (x, q1)" by fastforce
    obtain acc1 del1 where r: "qrun enq deq ops q1 = (acc1, del1, q')"
      using Cons.prems(2) Deq d by (auto split: prod.splits)
    from deq_items [OF Cons.prems(1) d] Cons.IH [OF _ r] Cons.prems(2) Deq d r
    show ?thesis by (auto split: option.splits)
  qed
qed

lemma delivered_prefix:
  "inv q \<Longrightarrow> items q = [] \<Longrightarrow> qrun enq deq ops q = (acc, del, q') \<Longrightarrow>
     del = take (length del) acc"
  using fifo_order by (metis append_Nil append_eq_conv_conj)

end

text \<open>A queue with a bound on the number of elements.\<close>

locale bounded_tx_queue = tx_queue +
  fixes cap :: nat
  assumes bound: "inv q \<Longrightarrow> length (items q) \<le> cap"
begin

lemma run_bounded:
  "inv q \<Longrightarrow> qrun enq deq ops q = (acc, del, q') \<Longrightarrow>
     length (items q) + length acc \<le> length del + cap"
proof -
  assume a: "inv q" "qrun enq deq ops q = (acc, del, q')"
  from fifo_order [OF a] have "length (items q @ acc) = length (del @ items q')" "inv q'"
    by simp_all
  with bound [of q'] show ?thesis by simp
qed

end

end
