(* ===== verification/Fifo.thy ===== *)
theory Fifo
  imports Io Queues
begin

text \<open>
  fifo.c: the bounded queue of nodes that wait for the kernel, with the blocking flag that says
  whether \<open>EPOLLOUT\<close> is watched. Each function body is one critical section under
  \<open>fifo.lock\<close>, so each definition is one atomic step. The locale \<open>tx_queue\<close> is the interface
  the senders and the worker threads use a queue through; it is interpreted here on the transmit
  queue and in Wpool on the task list.
\<close>

definition MAXIMUM_FIFO_SIZE :: int where
  "MAXIMUM_FIFO_SIZE = 100"

section \<open>Operations\<close>

definition fifo_init :: "ncb \<Rightarrow> ncb" where
  "fifo_init n = n\<lparr>fifo := \<lparr>blocking = 0, fsize = 0, fhead = []\<rparr>\<rparr>"

text \<open>Every pending node is unlinked and freed with its buffer.\<close>

fun free_nodes :: "tx_node list \<Rightarrow> world \<Rightarrow> world" where
  "free_nodes [] w = w"
| "free_nodes (x # xs) w = free_nodes xs (free (free w))"

definition fifo_uninit :: "ncb \<Rightarrow> world \<Rightarrow> ncb \<times> world" where
  "fifo_uninit n w = (n\<lparr>fifo := (fifo n)\<lparr>fhead := []\<rparr>\<rparr>, free_nodes (fhead (fifo n)) w)"

definition fifo_queue :: "ncb \<Rightarrow> tx_node \<Rightarrow> world \<Rightarrow> int \<times> ncb \<times> world" where
  "fifo_queue n node w =
     (if fsize (fifo n) \<ge> MAXIMUM_FIFO_SIZE then (- EBUSY, n, w) else
      let q = fhead (fifo n) @ [node] in
      if blocking (fifo n) = 0 then
        (let (r, w) = io_modify n (EPOLLIN OR EPOLLOUT) w in
         if r < 0 then (r, n, w)
         else let f = (fifo n)\<lparr>fhead := q, blocking := 1, fsize := fsize (fifo n) + 1\<rparr>
              in (fsize f, n\<lparr>fifo := f\<rparr>, w))
      else let f = (fifo n)\<lparr>fhead := q, fsize := fsize (fifo n) + 1\<rparr>
           in (fsize f, n\<lparr>fifo := f\<rparr>, w))"

definition fifo_top :: "ncb \<Rightarrow> tx_node option" where
  "fifo_top n = (case fhead (fifo n) of [] \<Rightarrow> None | x # _ \<Rightarrow> Some x)"

text \<open>\<open>keep\<close> is whether the caller passes a place for the node; without one it is freed.\<close>

definition fifo_pop :: "bool \<Rightarrow> ncb \<Rightarrow> world \<Rightarrow> int \<times> tx_node option \<times> ncb \<times> world" where
  "fifo_pop keep n w = (case fhead (fifo n) of
       [] \<Rightarrow> (0, None, n, w)
     | front # rest \<Rightarrow>
        let f = (fifo n)\<lparr>fhead := rest, fsize := fsize (fifo n) - 1\<rparr>;
            (n, w) = (if fsize f = 0 \<and> blocking f = 1
                      then (n\<lparr>fifo := f\<lparr>blocking := 0\<rparr>\<rparr>,
                            snd (io_modify (n\<lparr>fifo := f\<lparr>blocking := 0\<rparr>\<rparr>) EPOLLIN w))
                      else (n\<lparr>fifo := f\<rparr>, w))
        in if keep then (1, Some front, n, w) else (1, None, n, free (free w)))"

definition fifo_is_blocking :: "ncb \<Rightarrow> int" where
  "fifo_is_blocking n = blocking (fifo n)"

text \<open>The sender advances the front node through the pointer \<open>fifo_top\<close> gave it.\<close>

definition fifo_set_top :: "tx_node \<Rightarrow> ncb \<Rightarrow> ncb" where
  "fifo_set_top x n = (case fhead (fifo n) of [] \<Rightarrow> n
     | _ # rest \<Rightarrow> n\<lparr>fifo := (fifo n)\<lparr>fhead := x # rest\<rparr>\<rparr>)"

section \<open>Well-formed queues\<close>

text \<open>The counter counts the nodes, the bound holds, and the flag is set exactly while nodes are
  pending.\<close>

definition fifo_ok :: "ncb \<Rightarrow> bool" where
  "fifo_ok n \<longleftrightarrow> fsize (fifo n) = int (length (fhead (fifo n)))
     \<and> fsize (fifo n) \<le> MAXIMUM_FIFO_SIZE
     \<and> blocking (fifo n) = (if fhead (fifo n) = [] then 0 else 1)"

text \<open>While nodes are pending the socket is watched for \<open>EPOLLOUT\<close>: without that no event would
  ever drain them.\<close>

definition fifo_armed :: "ncb \<Rightarrow> world \<Rightarrow> bool" where
  "fifo_armed n w \<longleftrightarrow> (fhead (fifo n) \<noteq> [] \<longrightarrow> armed n w)"

lemma fifo_ok_init: "fifo_ok (fifo_init n)"
  by (simp add: fifo_ok_def fifo_init_def MAXIMUM_FIFO_SIZE_def)

lemma fifo_queueE:
  assumes "fifo_queue n x w = (r, n', w')"
  obtains (refused) "r < 0" "n' = n" "interest n w' = interest n w" "ctl_step w w'"
  | (queued) "r = fsize (fifo n) + 1" "fsize (fifo n) < MAXIMUM_FIFO_SIZE"
      "n' = n\<lparr>fifo := (fifo n)\<lparr>fhead := fhead (fifo n) @ [x], fsize := fsize (fifo n) + 1,
              blocking := (if blocking (fifo n) = 0 then 1 else blocking (fifo n))\<rparr>\<rparr>"
      "ctl_step w w'"
      "blocking (fifo n) = 0 \<longrightarrow> (\<exists>s. io_modify n (EPOLLIN OR EPOLLOUT) w = (s, w') \<and> 0 \<le> s)"
      "blocking (fifo n) \<noteq> 0 \<longrightarrow> w' = w"
  using assms io_modify_failure [of n "EPOLLIN OR EPOLLOUT" w]
    io_modify_ctl [of n "EPOLLIN OR EPOLLOUT" w] ctl_stepI(1) [of w]
  by (fastforce simp: fifo_queue_def Let_def split: if_splits prod.splits)

lemma fifo_popE:
  assumes "fifo_pop keep n w = (r, t, n', w')"
  obtains (empty) "fhead (fifo n) = []" "r = 0" "t = None" "n' = n" "w' = w"
  | (popped) x xs w1 where "fhead (fifo n) = x # xs" "r = 1" "t = (if keep then Some x else None)"
      "n' = n\<lparr>fifo := (fifo n)\<lparr>fhead := xs, fsize := fsize (fifo n) - 1,
              blocking := (if fsize (fifo n) = 1 \<and> blocking (fifo n) = 1 then 0
                           else blocking (fifo n))\<rparr>\<rparr>"
      "ctl_step w w1" "fsize (fifo n) \<noteq> 1 \<longrightarrow> w1 = w"
      "w' = (if keep then w1 else free (free w1))"
proof -
  obtain s w2 where m: "io_modify (n\<lparr>fifo := (fifo n)\<lparr>fhead := tl (fhead (fifo n)),
      fsize := fsize (fifo n) - 1, blocking := 0\<rparr>\<rparr>) EPOLLIN w = (s, w2)"
    by fastforce
  show thesis
    using assms m io_modify_ctl [OF m] ctl_stepI(1) [of w]
    by (cases "fhead (fifo n)")
      (auto simp: fifo_pop_def Let_def split: if_splits intro: empty popped)
qed

section \<open>The invariant\<close>

lemma fifo_ok_queue: "fifo_ok n \<Longrightarrow> fifo_queue n x w = (r, n', w') \<Longrightarrow> fifo_ok n'"
  by (erule fifo_queueE) (auto simp: fifo_ok_def split: if_splits)

lemma fifo_ok_pop: "fifo_ok n \<Longrightarrow> fifo_pop keep n w = (r, t, n', w') \<Longrightarrow> fifo_ok n'"
  by (erule fifo_popE) (auto simp: fifo_ok_def split: if_splits)

lemma fifo_ok_set_top: "fifo_ok n \<Longrightarrow> fifo_ok (fifo_set_top x n)"
  by (auto simp: fifo_ok_def fifo_set_top_def split: list.splits)

lemma fifo_armed_queue:
  assumes "fifo_queue n x w = (r, n', w')" "fifo_ok n" "fifo_armed n w" "errors_negative w"
  shows "fifo_armed n' w'"
  using assms(1)
proof (cases rule: fifo_queueE)
  case refused
  with assms(3) show ?thesis by (simp add: fifo_armed_def armed_def)
next
  case queued
  show ?thesis
  proof (cases "blocking (fifo n) = 0")
    case True
    with queued obtain s where "io_modify n (EPOLLIN OR EPOLLOUT) w = (s, w')" "0 \<le> s"
      by blast
    from armed_out [OF io_modify_success [OF this assms(4), THEN conjunct2]] queued(3)
    show ?thesis by (simp add: fifo_armed_def armed_def interest_def)
  next
    case False
    with assms(2,3) queued show ?thesis
      by (auto simp: fifo_armed_def fifo_ok_def armed_def interest_def split: if_splits)
  qed
qed

lemma fifo_armed_pop:
  assumes "fifo_pop keep n w = (r, t, n', w')" "fifo_ok n" "fifo_armed n w"
  shows "fifo_armed n' w'"
  using assms(1)
proof (cases rule: fifo_popE)
  case empty
  with assms(3) show ?thesis by simp
next
  case (popped x xs w1)
  with assms(2,3) show ?thesis
    by (cases xs) (auto simp: fifo_armed_def fifo_ok_def armed_def interest_def free_def)
qed

section \<open>The transmit queue provides the queue interface\<close>

definition fifo_enq :: "tx_node \<Rightarrow> ncb \<times> world \<Rightarrow> bool \<times> ncb \<times> world" where
  "fifo_enq x s = (let (r, n, w) = fifo_queue (fst s) x (snd s) in (0 \<le> r, n, w))"

definition fifo_deq :: "ncb \<times> world \<Rightarrow> tx_node option \<times> ncb \<times> world" where
  "fifo_deq s = (let (r, t, n, w) = fifo_pop True (fst s) (snd s) in (t, n, w))"

definition fifo_items :: "ncb \<times> world \<Rightarrow> tx_node list" where
  "fifo_items s = fhead (fifo (fst s))"

interpretation tq: bounded_tx_queue fifo_enq fifo_deq fifo_items "\<lambda>s. fifo_ok (fst s)" 100
proof (unfold_locales)
  fix q x ok q'
  assume i: "fifo_ok (fst q)" and "fifo_enq x q = (ok, q')"
  then obtain r where r: "fifo_queue (fst q) x (snd q) = (r, fst q', snd q')" and ok: "ok = (0 \<le> r)"
    by (cases q') (auto simp: fifo_enq_def split: prod.splits)
  have pos: "0 \<le> fsize (fifo (fst q))" using i by (simp add: fifo_ok_def)
  have "fifo_items q' = (if ok then fifo_items q @ [x] else fifo_items q)"
    by (rule fifo_queueE [OF r]) (use pos ok in \<open>auto simp: fifo_items_def\<close>)
  with fifo_ok_queue [OF i r]
  show "fifo_items q' = (if ok then fifo_items q @ [x] else fifo_items q) \<and> fifo_ok (fst q')"
    by simp
next
  fix q r q'
  assume i: "fifo_ok (fst q)" and "fifo_deq q = (r, q')"
  then obtain s where s: "fifo_pop True (fst q) (snd q) = (s, r, fst q', snd q')"
    by (cases q') (auto simp: fifo_deq_def split: prod.splits)
  have "fifo_items q = (case r of None \<Rightarrow> [] | Some x \<Rightarrow> x # fifo_items q')
      \<and> (r = None \<longrightarrow> fifo_items q' = [])"
    by (rule fifo_popE [OF s]) (auto simp: fifo_items_def)
  with fifo_ok_pop [OF i s]
  show "fifo_items q = (case r of None \<Rightarrow> [] | Some x \<Rightarrow> x # fifo_items q')
      \<and> fifo_ok (fst q') \<and> (r = None \<longrightarrow> fifo_items q' = [])"
    by simp
next
  show "fifo_ok (fst q) \<Longrightarrow> length (fifo_items q) \<le> 100" for q :: "ncb \<times> world"
    by (simp add: fifo_ok_def fifo_items_def MAXIMUM_FIFO_SIZE_def)
qed

end
