(* ===== verification/Ncb.thy ===== *)
theory Ncb
  imports Fifo
begin

text \<open>
  ncb.c: events handed to the user's callback, the life of a net control block (allocation,
  registration in the global list, destruction, the closing of every block of a protocol), and
  the socket options that belong to the block.
\<close>

section \<open>Events\<close>

text \<open>An event reaches the user only through a callback; the bytes it carries are read from the
  buffer they lie in.\<close>

definition post :: "ncb \<Rightarrow> nis_event \<Rightarrow> world \<Rightarrow> world" where
  "post n e w = (case nis_callback n of None \<Rightarrow> w | Some f \<Rightarrow> emit (Post f e) w)"

definition ncb_post_preclose :: "ncb \<Rightarrow> world \<Rightarrow> world" where
  "ncb_post_preclose n w = post n (EVT_PRE_CLOSE (hld n) (user_context n)) w"

definition ncb_post_closed :: "ncb \<Rightarrow> world \<Rightarrow> world" where
  "ncb_post_closed n w = post n (EVT_CLOSED (hld n)) w"

definition ncb_post_recvdata :: "ncb \<Rightarrow> byte list \<Rightarrow> int \<Rightarrow> int \<Rightarrow> world \<Rightarrow> world option" where
  "ncb_post_recvdata n buf off cb w = do {
     bs \<leftarrow> buf_get buf off cb;
     Some (post n (EVT_RECEIVEDATA (hld n) bs) w)
   }"

definition ncb_post_pipedata :: "ncb \<Rightarrow> byte list \<Rightarrow> int \<Rightarrow> int \<Rightarrow> world \<Rightarrow> world option" where
  "ncb_post_pipedata n buf off cb w = do {
     bs \<leftarrow> buf_get buf off cb;
     Some (post n (EVT_PIPEDATA (hld n) bs) w)
   }"

definition ncb_post_accepted :: "ncb \<Rightarrow> objhld \<Rightarrow> world \<Rightarrow> world" where
  "ncb_post_accepted n link w = post n (EVT_TCP_ACCEPTED (hld n) link) w"

definition ncb_post_connected :: "ncb \<Rightarrow> world \<Rightarrow> world" where
  "ncb_post_connected n w = post n (EVT_TCP_CONNECTED (hld n)) w"

lemma post_sel [simp]:
  "objs (post n e w) = objs w" "env (post n e w) = env w" "k_send (post n e w) = k_send w"
  "k_recv (post n e w) = k_recv w" "heap (post n e w) = heap w" "epolls (post n e w) = epolls w"
  "pools (post n e w) = pools w" "nl_head (post n e w) = nl_head w" "junk (post n e w) = junk w"
  "nl_count (post n e w) = nl_count w" "k_fail (post n e w) = k_fail w"
  by (simp_all add: post_def split: option.splits)

lemma post_trace:
  "trace (post n e w) = trace w @ (case nis_callback n of None \<Rightarrow> [] | Some f \<Rightarrow> [Post f e])"
  by (simp add: post_def split: option.splits)

section \<open>Allocation and destruction\<close>

text \<open>The initializer handed to \<open>objallo\<close>: the block is zeroed and registered at the tail of the
  global list. A block is identified with the handle it was allocated under.\<close>

definition ncb_allocator :: "objhld \<Rightarrow> world \<Rightarrow> world" where
  "ncb_allocator h w = w\<lparr>objs := (objs w)(h := Some (fifo_init ncb_zero)),
     nl_head := nl_head w @ [h], nl_count := nl_count w + 1\<rparr>"

text \<open>\<open>objallo(sizeof(ncb_t), &ncb_allocator, &ncb_deconstruct, NULL, 0)\<close>: a negative handle is a
  failure.\<close>

definition objallo_ncb :: "world \<Rightarrow> (objhld \<times> world) option" where
  "objallo_ncb w = (case k_newobj w of [] \<Rightarrow> None
     | h # hs \<Rightarrow> (let w = w\<lparr>k_newobj := hs\<rparr>
         in if h < 0 then Some (h, w) else Some (h, ncb_allocator h w)))"

definition free_opt :: "'a option \<Rightarrow> world \<Rightarrow> world" where
  "free_opt p w = (if p = None then w else free w)"

text \<open>The unloader: the object manager calls it for a closed object without references. The
  failed \<open>assert\<close> of an empty list ends the process.\<close>

definition ncb_deconstruct :: "objhld \<Rightarrow> world \<Rightarrow> world option" where
  "ncb_deconstruct h w = (case objs w h of None \<Rightarrow> Some w | Some n \<Rightarrow>
     (let w = ncb_post_preclose n w;
          n = n\<lparr>user_context := None\<rparr>;
          (n, w) = io_close n w;
          w = free_opt (packet n) w; n = n\<lparr>packet := None\<rparr>;
          (n, w) = (if rx_buffer (tcp n) \<noteq> None \<and> protocol n = IPPROTO_TCP then
             (n\<lparr>tcp := (tcp n)\<lparr>rx_buffer := None, lbdata := None, lbsize := 0, lboffset := 0\<rparr>\<rparr>,
              if ncb_lb_marked n then free (free w) else free w)
             else (n, w));
          (n, w) = fifo_uninit n w
      in if nl_count w \<le> 0 then None else
        (let w = w\<lparr>nl_head := filter (\<lambda>g. g \<noteq> h) (nl_head w), nl_count := nl_count w - 1\<rparr>;
             w = ncb_post_closed n w
         in Some (put_ncb h (n\<lparr>nis_callback := None\<rparr>) w))))"

text \<open>Every registered block of the protocol is taken off the list and closed. The array of
  handles has room for \<open>nl_count\<close> of them; a write behind it is undefined.\<close>

fun close_all :: "objhld list \<Rightarrow> world \<Rightarrow> world" where
  "close_all [] w = w"
| "close_all (h # hs) w = close_all hs (objclos h w)"

definition ncb_uninit :: "int \<Rightarrow> world \<Rightarrow> world option" where
  "ncb_uninit proto w =
     (if nl_count w \<le> 0 then Some w else
      case malloc (nl_count w * 8) w of
        (None, w) \<Rightarrow> Some w
      | (Some _, w) \<Rightarrow>
         if \<exists>h \<in> set (nl_head w). objs w h = None then None else
         let mine = (\<lambda>h. protocol (the (objs w h)) = proto);
             hs = map (\<lambda>h. hld (the (objs w h))) (filter mine (nl_head w));
             w = w\<lparr>nl_head := filter (\<lambda>h. \<not> mine h) (nl_head w)\<rparr>
         in if int (length hs) > nl_count w then None
            else if hs = [] then Some w else Some (free (close_all hs w)))"

section \<open>Socket options\<close>

text \<open>An option value is the list of the ints the kernel stores; reading one overwrites as many
  ints of the variable as the option has.\<close>

definition opt1 :: "int \<Rightarrow> int list \<Rightarrow> int" where
  "opt1 old v = (case v of [] \<Rightarrow> old | a # _ \<Rightarrow> a)"

definition opt2 :: "int \<times> int \<Rightarrow> int list \<Rightarrow> int \<times> int" where
  "opt2 old v = (case v of [] \<Rightarrow> old | [a] \<Rightarrow> (a, snd old) | a # b # _ \<Rightarrow> (a, b))"

definition ncb_set_rcvtimeo :: "ncb \<Rightarrow> (int \<times> int) option \<Rightarrow> world \<Rightarrow> int \<times> world" where
  "ncb_set_rcvtimeo n timeo w = (case timeo of None \<Rightarrow> (- EINVAL, w)
     | Some (s, u) \<Rightarrow> setsockopt (sockfd n) SO_RCVTIMEO [s, u] w)"

definition ncb_get_rcvtimeo :: "ncb \<Rightarrow> world \<Rightarrow> int \<times> ncb \<times> world" where
  "ncb_get_rcvtimeo n w = (let (r, v, w) = getsockopt (sockfd n) SO_RCVTIMEO w
     in (r, if r < 0 then n else n\<lparr>rcvtimeo := opt2 (rcvtimeo n) v\<rparr>, w))"

definition ncb_set_sndtimeo :: "ncb \<Rightarrow> (int \<times> int) option \<Rightarrow> world \<Rightarrow> int \<times> world" where
  "ncb_set_sndtimeo n timeo w = (case timeo of None \<Rightarrow> (- EINVAL, w)
     | Some (s, u) \<Rightarrow> setsockopt (sockfd n) SO_SNDTIMEO [s, u] w)"

definition ncb_get_sndtimeo :: "ncb \<Rightarrow> world \<Rightarrow> int \<times> ncb \<times> world" where
  "ncb_get_sndtimeo n w = (let (r, v, w) = getsockopt (sockfd n) SO_SNDTIMEO w
     in (r, if r < 0 then n else n\<lparr>sndtimeo := opt2 (sndtimeo n) v\<rparr>, w))"

text \<open>The type of service is cut to an \<open>unsigned char\<close> first, and zero is refused.\<close>

definition ncb_set_iptos :: "ncb \<Rightarrow> int \<Rightarrow> world \<Rightarrow> int \<times> world" where
  "ncb_set_iptos n tos w = (let type_of_service = tos mod 256
     in if type_of_service \<noteq> 0 then setsockopt (sockfd n) IP_TOS [type_of_service] w
        else (- EINVAL, w))"

definition ncb_get_iptos :: "ncb \<Rightarrow> world \<Rightarrow> int \<times> ncb \<times> world" where
  "ncb_get_iptos n w = (let (r, v, w) = getsockopt (sockfd n) IP_TOS w
     in (r, if r < 0 then n else n\<lparr>iptos := opt1 (iptos n) v\<rparr>, w))"

definition ncb_set_window_size :: "ncb \<Rightarrow> int \<Rightarrow> int \<Rightarrow> world \<Rightarrow> int \<times> world" where
  "ncb_set_window_size n dir sz w = setsockopt (sockfd n) (SO_BUF dir) [sz] w"

definition ncb_get_window_size :: "ncb \<Rightarrow> int \<Rightarrow> world \<Rightarrow> int \<times> int list \<times> world" where
  "ncb_get_window_size n dir w = getsockopt (sockfd n) (SO_BUF dir) w"

definition ncb_set_linger :: "ncb \<Rightarrow> int \<Rightarrow> int \<Rightarrow> world \<Rightarrow> int \<times> world" where
  "ncb_set_linger n onoff lin w = setsockopt (sockfd n) SO_LINGER [onoff, lin] w"

text \<open>\<open>struct linger lgr\<close> is not initialised; what it holds before the call is \<open>garbage\<close>. The
  option that is read is the one the code names. The caller's variables are \<open>onoff\<close> and \<open>lin\<close>,
  either of which may be a null pointer.\<close>

definition ncb_get_linger :: "int \<times> int \<Rightarrow> ncb \<Rightarrow> int option \<Rightarrow> int option \<Rightarrow> world
    \<Rightarrow> int \<times> (int option \<times> int option) \<times> world" where
  "ncb_get_linger garbage n onoff lin w = (let (r, v, w) = getsockopt (sockfd n) SO_KEEPALIVE w
     in if r < 0 then (-1, (onoff, lin), w) else
        let (l_onoff, l_linger) = opt2 garbage v
        in (0, (map_option (\<lambda>_. l_onoff) onoff, map_option (\<lambda>_. l_linger) lin), w))"

section \<open>Facts\<close>

lemma io_closeE:
  assumes "io_close n w = (n', w')"
  obtains (shut) "sockfd n \<le> 0" "n' = n" "w' = w"
  | (live) w1 where "sockfd n > 0" "ctl_step w w1"
      "n' = n\<lparr>sockfd := -1, epfd := (if epfd n > 0 then -1 else epfd n)\<rparr>"
      "w' = emit (Close (sockfd n)) (emit (Shutdown (sockfd n)) w1)"
proof -
  obtain r w2 where e: "epoll_ctl (epfd n) EPOLL_CTL_DEL (sockfd n) 0 w = (r, w2)"
    by fastforce
  have "ctl_step w w2"
    using epoll_ctlD [OF e] by (auto intro: ctl_stepI)
  then show thesis
    using assms e ctl_stepI(1) [of w]
    by (auto simp: io_close_def io_detach_def Let_def split: if_splits intro: shut live)
qed

text \<open>What a block owns on the heap, as its destruction frees it.\<close>

definition ncb_owned :: "ncb \<Rightarrow> int" where
  "ncb_owned n = (if packet n = None then 0 else 1)
     + (if rx_buffer (tcp n) \<noteq> None \<and> protocol n = IPPROTO_TCP
        then (if ncb_lb_marked n then 2 else 1) else 0)
     + 2 * int (length (fhead (fifo n)))"

lemma free_nodes_eq: "free_nodes xs w = w\<lparr>heap := heap w - 2 * int (length xs)\<rparr>"
  by (induction xs w rule: free_nodes.induct) (auto simp: free_def)

text \<open>Destruction, step by step: the user hears \<open>EVT_PRE_CLOSE\<close> with the context first and
  \<open>EVT_CLOSED\<close> last, the socket is shut down and closed in between if it was still open, and
  everything the block owns is freed.\<close>

definition close_effects :: "ncb \<Rightarrow> effect list" where
  "close_effects n = (if sockfd n > 0 then [Shutdown (sockfd n), Close (sockfd n)] else [])"

lemma ncb_deconstruct_spec:
  assumes "objs w h = Some n" "nl_count w > 0"
  shows "\<exists>n' w'. ncb_deconstruct h w = Some w' \<and> objs w' = (objs w)(h := Some n')
    \<and> trace w' = trace (ncb_post_preclose n w) @ close_effects n
       @ (case nis_callback n of None \<Rightarrow> [] | Some f \<Rightarrow> [Post f (EVT_CLOSED (hld n))])
    \<and> heap w' = heap w - ncb_owned n \<and> nl_count w' = nl_count w - 1
    \<and> nl_head w' = filter (\<lambda>g. g \<noteq> h) (nl_head w)
    \<and> sockfd n' \<le> 0 \<and> nis_callback n' = None \<and> user_context n' = None \<and> packet n' = None
    \<and> fhead (fifo n') = [] \<and> hld n' = hld n \<and> protocol n' = protocol n"
proof -
  let ?w1 = "ncb_post_preclose n w" and ?n1 = "n\<lparr>user_context := None\<rparr>"
  obtain n2 w2 where c: "io_close ?n1 ?w1 = (n2, w2)" by fastforce
  have eff: "trace w2 = trace ?w1 @ close_effects n"
    by (rule io_closeE [OF c]) (auto simp: close_effects_def dest: ctl_stepD)
  have n2: "n2 = ?n1\<lparr>sockfd := sockfd n2, epfd := epfd n2\<rparr>" "sockfd n2 \<le> 0"
    by (rule io_closeE [OF c]; auto)+
  have w2: "objs w2 = objs w" "heap w2 = heap w" "nl_count w2 = nl_count w"
    "nl_head w2 = nl_head w"
    by (rule io_closeE [OF c]; auto simp: ncb_post_preclose_def dest: ctl_stepD)+
  obtain s2 e2 where n2': "n2 = ?n1\<lparr>sockfd := s2, epfd := e2\<rparr>" "s2 \<le> 0"
    using n2 by metis
  show ?thesis
    using assms(2) n2'(2)
    by (auto simp: ncb_deconstruct_def assms(1) c Let_def fifo_uninit_def n2'(1) w2 eff put_ncb_def
          free_opt_def free_def free_nodes_eq ncb_post_closed_def post_trace ncb_owned_def
          ncb_lb_marked_def)
qed

text \<open>The registry: the counter counts the blocks that live, and the list holds some of them
  once each; \<open>ncb_uninit\<close> takes blocks off the list before they die, so the list may be
  shorter.\<close>

definition nl_ok :: "objhld set \<Rightarrow> world \<Rightarrow> bool" where
  "nl_ok L w \<longleftrightarrow> finite L \<and> nl_count w = int (card L) \<and> distinct (nl_head w)
     \<and> set (nl_head w) \<subseteq> L \<and> (\<forall>h \<in> L. objs w h \<noteq> None)"

lemma nl_ok_allocator: "nl_ok L w \<Longrightarrow> h \<notin> L \<Longrightarrow> nl_ok (insert h L) (ncb_allocator h w)"
  by (auto simp: nl_ok_def ncb_allocator_def)

lemma nl_ok_deconstruct:
  assumes "nl_ok L w" "h \<in> L"
  shows "\<exists>w'. ncb_deconstruct h w = Some w' \<and> nl_ok (L - {h}) w'"
proof -
  from assms obtain n where n: "objs w h = Some n" by (auto simp: nl_ok_def)
  from assms have pos: "nl_count w > 0" by (auto simp: nl_ok_def card_gt_0_iff)
  have c: "int (card (L - {h})) = int (card L) - 1"
    using assms pos by (simp add: nl_ok_def of_nat_diff card_gt_0_iff Suc_le_eq)
  from ncb_deconstruct_spec [OF n pos] obtain n' w' where
    w': "ncb_deconstruct h w = Some w'" "objs w' = (objs w)(h := Some n')"
      "nl_count w' = nl_count w - 1" "nl_head w' = filter (\<lambda>g. g \<noteq> h) (nl_head w)" by auto
  have "nl_ok (L - {h}) w'"
    using assms(1) w' unfolding nl_ok_def c by auto
  with w' show ?thesis by blast
qed

lemma close_all_eq: "close_all hs w = w\<lparr>trace := trace w @ map Clos hs\<rparr>"
  by (induction hs w rule: close_all.induct) (simp_all add: objclos_def emit_def)

text \<open>\<open>ncb_uninit\<close> never writes behind its array of handles, closes every registered block of
  the protocol once, in the order of registration, and keeps the registry consistent.\<close>

lemma ncb_uninit_spec:
  assumes "nl_ok L w"
  shows "\<exists>w'. ncb_uninit proto w = Some w' \<and> nl_ok L w' \<and> objs w' = objs w
    \<and> (k_fail w SYS_malloc = [] \<longrightarrow>
        trace w' = trace w @ map (\<lambda>h. Clos (hld (the (objs w h))))
          (filter (\<lambda>h. protocol (the (objs w h)) = proto) (nl_head w))
        \<and> nl_head w' = filter (\<lambda>h. protocol (the (objs w h)) \<noteq> proto) (nl_head w))"
proof (cases "nl_count w \<le> 0")
  case True
  with assms have "nl_head w = []" by (auto simp: nl_ok_def)
  with True assms show ?thesis by (auto simp: ncb_uninit_def)
next
  case False
  obtain b w1 where m: "malloc (nl_count w * 8) w = (b, w1)" by fastforce
  let ?P = "\<lambda>h. protocol (the (objs w h)) = proto"
  have "length (filter ?P (nl_head w)) \<le> length (nl_head w)" by simp
  also have "\<dots> = card (set (nl_head w))" using assms by (simp add: nl_ok_def distinct_card)
  also have "\<dots> \<le> card L" using assms by (auto simp: nl_ok_def intro: card_mono)
  finally have fits: "int (length (filter ?P (nl_head w))) \<le> nl_count w"
    using assms by (simp add: nl_ok_def)
  have none: "\<not> (\<exists>h \<in> set (nl_head w). objs w h = None)"
    using assms by (auto simp: nl_ok_def)
  show ?thesis
  proof (cases b)
    case None
    with mallocD [OF m] obtain f e where w1: "w1 = w\<lparr>k_fail := f, errno := e\<rparr>" by auto
    have u: "ncb_uninit proto w = Some w1" using False m None by (simp add: ncb_uninit_def)
    have "k_fail w SYS_malloc \<noteq> []" using m None by (auto simp: malloc_def simple_call_ok)
    with u assms w1 show ?thesis by (auto simp: nl_ok_def)
  next
    case (Some x)
    with mallocD [OF m] obtain f e where w1: "w1 = w\<lparr>k_fail := f, errno := e, heap := heap w + 1\<rparr>"
      by auto
    let ?hs = "map (\<lambda>h. hld (the (objs w h))) (filter ?P (nl_head w))"
    let ?w2 = "w1\<lparr>nl_head := filter (\<lambda>h. \<not> ?P h) (nl_head w)\<rparr>"
    have u: "ncb_uninit proto w = Some (if ?hs = [] then ?w2 else free (close_all ?hs ?w2))"
      using False fits none by (auto simp: ncb_uninit_def m Some w1 Let_def)
    show ?thesis
      unfolding u using assms by (auto simp: w1 nl_ok_def close_all_eq free_def comp_def)
  qed
qed

section \<open>Options read back\<close>

lemma setsockopt_ok:
  "k_fail w SYS_setsockopt = [] \<Longrightarrow>
     setsockopt fd opt v w = (0, w\<lparr>sockopts := (sockopts w)(fd := (sockopts w fd)(opt := v))\<rparr>)"
  by (simp add: setsockopt_def simple_call_ok)

lemma getsockopt_ok:
  "k_fail w SYS_getsockopt = [] \<Longrightarrow> getsockopt fd opt w = (0, sockopts w fd opt, w)"
  by (simp add: getsockopt_def simple_call_ok)

text \<open>The time-outs are read back as they were set; the linger setting is not, because
  \<open>ncb_get_linger\<close> asks for another option.\<close>

lemma rcvtimeo_roundtrip:
  assumes "k_fail w SYS_setsockopt = []" "k_fail w SYS_getsockopt = []"
  shows "case ncb_set_rcvtimeo n (Some t) w of (r, w') \<Rightarrow>
    r = 0 \<and> (case ncb_get_rcvtimeo n w' of (s, n', w'') \<Rightarrow> s = 0 \<and> rcvtimeo n' = t)"
  using assms by (cases t)
    (simp add: ncb_set_rcvtimeo_def ncb_get_rcvtimeo_def setsockopt_ok getsockopt_ok opt2_def)

lemma sndtimeo_roundtrip:
  assumes "k_fail w SYS_setsockopt = []" "k_fail w SYS_getsockopt = []"
  shows "case ncb_set_sndtimeo n (Some t) w of (r, w') \<Rightarrow>
    r = 0 \<and> (case ncb_get_sndtimeo n w' of (s, n', w'') \<Rightarrow> s = 0 \<and> sndtimeo n' = t)"
  using assms by (cases t)
    (simp add: ncb_set_sndtimeo_def ncb_get_sndtimeo_def setsockopt_ok getsockopt_ok opt2_def)

lemma get_linger_ignores_linger:
  assumes "k_fail w SYS_setsockopt = []" "k_fail w SYS_getsockopt = []"
  shows "fst (snd (ncb_get_linger g n a b (snd (ncb_set_linger n onoff lin w))))
       = fst (snd (ncb_get_linger g n a b w))"
  using assms
  by (simp add: ncb_set_linger_def ncb_get_linger_def setsockopt_ok getsockopt_ok Let_def split: prod.split)

end
