(* ===== verification/Tcpal.thy ===== *)
theory Tcpal
  imports Ncb
begin

text \<open>
  tcpal.c: cutting the received byte stream into packets by the user's template. A packet is a
  head of \<open>t_cb\<close> bytes, from which the user's parser reads the payload length, and the payload.
  Packets of at most \<open>TCP_BUFFER_SIZE\<close> bytes are collected in \<open>packet\<close>, larger ones in a large
  block. The specification is the function \<open>deframe\<close> on byte lists; the lemmas relate one call of
  \<open>tcp_parse_pkt\<close> to one step of it, with the bytes held back by the code as the abstraction.
\<close>

definition TCP_BUFFER_SIZE :: int where
  "TCP_BUFFER_SIZE = 0x11000"

definition TCP_MAXIMUM_PACKET_SIZE :: int where
  "TCP_MAXIMUM_PACKET_SIZE = 50 * 2 ^ 20"

definition TCP_MAXIMUM_TEMPLATE_SIZE :: int where
  "TCP_MAXIMUM_TEMPLATE_SIZE = 32"

section \<open>The code\<close>

definition fully_receive :: "ncb \<Rightarrow> world \<Rightarrow> bool" where
  "fully_receive n w \<longleftrightarrow> attr n AND LINKATTR_TCP_FULLY_RECEIVE (env w) \<noteq> 0"

text \<open>\<open>dat\<close> is the memory the pointer \<open>cpbuff\<close> points at, \<open>cpcb\<close> how much of it may be used.\<close>

definition tcp_parse_marked_lb ::
  "ncb \<Rightarrow> byte list \<Rightarrow> int \<Rightarrow> world \<Rightarrow> (int \<times> ncb \<times> world) option" where
  "tcp_parse_marked_lb n dat cpcb w =
     (let t = tcp n in
      if cpcb + lboffset t < lbsize t then do {
        lb \<leftarrow> lbdata t;
        bs \<leftarrow> buf_get dat 0 cpcb;
        lb \<leftarrow> buf_put lb (lboffset t) bs;
        Some (0, n\<lparr>tcp := t\<lparr>lbdata := Some lb, lboffset := lboffset t + cpcb\<rparr>\<rparr>, w)
      } else do {
        let overplus = lbsize t - lboffset t;
        lb \<leftarrow> lbdata t;
        bs \<leftarrow> buf_get dat 0 overplus;
        lb \<leftarrow> buf_put lb (lboffset t) bs;
        w \<leftarrow> (if fully_receive n w then ncb_post_recvdata n lb 0 (lbsize t) w
             else ncb_post_recvdata n lb (t_cb (template t)) (lbsize t - t_cb (template t)) w);
        Some (cpcb - overplus, n\<lparr>tcp := t\<lparr>lbdata := None, lboffset := 0, lbsize := 0\<rparr>\<rparr>, free w)
      })"

text \<open>What follows once the head is complete: the parser is asked for the payload length, a large
  packet opens a large block, a complete packet is delivered, an incomplete one is kept.\<close>

definition tcp_parse_body ::
  "ncb \<Rightarrow> byte list \<Rightarrow> int \<Rightarrow> int \<Rightarrow> int \<Rightarrow> world \<Rightarrow> (int \<times> ncb \<times> world) option" where
  "tcp_parse_body n dat cpcb used overplus w = do {
     let cb = t_cb (template (tcp n));
     let off = rx_parse_offset (tcp n);
     pk \<leftarrow> packet n;
     parser \<leftarrow> t_parser (template (tcp n));
     let (r, user_data_size) = parser pk off;
     if r < 0 then Some (-1, n, w)
     else if user_data_size > TCP_MAXIMUM_PACKET_SIZE \<or> user_data_size \<le> 0 then Some (-1, n, w)
     else let total = user_data_size + cb in
       if total > TCP_BUFFER_SIZE then
         (case malloc total w of
            (None, w) \<Rightarrow> Some (-1, n, w)
          | (Some lb, w) \<Rightarrow> do {
              bs \<leftarrow> buf_get dat 0 cpcb;
              lb \<leftarrow> buf_put lb 0 bs;
              Some (0, n\<lparr>tcp := (tcp n)\<lparr>lbdata := Some lb, lbsize := total, lboffset := cpcb,
                        rx_parse_offset := 0\<rparr>\<rparr>, w)
            })
       else if off + overplus \<ge> total then do {
         bs \<leftarrow> buf_get dat used (total - off);
         pk \<leftarrow> buf_put pk off bs;
         w \<leftarrow> (if fully_receive n w then ncb_post_recvdata n pk 0 (user_data_size + cb) w
              else ncb_post_recvdata n pk cb user_data_size w);
         Some (overplus - (total - off),
               n\<lparr>packet := Some pk, tcp := (tcp n)\<lparr>rx_parse_offset := 0\<rparr>\<rparr>, w)
       }
       else do {
         bs \<leftarrow> buf_get dat used overplus;
         pk \<leftarrow> buf_put pk off bs;
         Some (0, n\<lparr>packet := Some pk, tcp := (tcp n)\<lparr>rx_parse_offset := off + overplus\<rparr>\<rparr>, w)
       }
   }"

definition tcp_parse_pkt ::
  "ncb \<Rightarrow> byte list \<Rightarrow> int \<Rightarrow> world \<Rightarrow> (int \<times> ncb \<times> world) option" where
  "tcp_parse_pkt n dat cpcb w =
     (let t = tcp n; cb = t_cb (template t); off = rx_parse_offset t in
      if cpcb = 0 then Some (-1, n, w)
      else if cb = 0 \<or> t_parser (template t) = None then do {
        w \<leftarrow> ncb_post_recvdata n dat 0 cpcb w;
        Some (0, n\<lparr>tcp := t\<lparr>rx_parse_offset := 0\<rparr>\<rparr>, w)
      }
      else if ncb_lb_marked n then tcp_parse_marked_lb n dat cpcb w
      else if off + cpcb < cb then do {
        pk \<leftarrow> packet n;
        bs \<leftarrow> buf_get dat 0 cpcb;
        pk \<leftarrow> buf_put pk off bs;
        Some (0, n\<lparr>packet := Some pk, tcp := t\<lparr>rx_parse_offset := off + cpcb\<rparr>\<rparr>, w)
      }
      else if off < cb then do {
        let used = cb - off;
        pk \<leftarrow> packet n;
        bs \<leftarrow> buf_get dat 0 used;
        pk \<leftarrow> buf_put pk off bs;
        tcp_parse_body (n\<lparr>packet := Some pk, tcp := t\<lparr>rx_parse_offset := cb\<rparr>\<rparr>) dat cpcb
          used (cpcb - used) w
      }
      else tcp_parse_body n dat cpcb 0 cpcb w)"

section \<open>The specification: a stream cut into packets\<close>

text \<open>The packets at the front of a stream, the rest, and whether the rest is still good.\<close>

function deframe :: "nat \<Rightarrow> (byte list \<Rightarrow> nat option) \<Rightarrow> byte list
    \<Rightarrow> byte list list \<times> byte list \<times> bool" where
  "deframe c sz s =
     (if c = 0 \<or> length s < c then ([], s, True) else
      case sz (take c s) of
        None \<Rightarrow> ([], s, False)
      | Some k \<Rightarrow>
          if length s < c + k then ([], s, True)
          else (let (fs, r, ok) = deframe c sz (drop (c + k) s) in (take (c + k) s # fs, r, ok)))"
  by pat_completeness auto
termination
  by (relation "measure (\<lambda>(c, sz, s). length s)") auto

declare deframe.simps [simp del]

datatype front = Short | Bad | Frame nat

definition front_of :: "nat \<Rightarrow> (byte list \<Rightarrow> nat option) \<Rightarrow> byte list \<Rightarrow> front" where
  "front_of c sz s = (if length s < c then Short else
     case sz (take c s) of None \<Rightarrow> Bad | Some k \<Rightarrow> if length s < c + k then Short else Frame k)"

lemma deframe_front:
  assumes "0 < c"
  shows "deframe c sz s = (case front_of c sz s of
      Short \<Rightarrow> ([], s, True) | Bad \<Rightarrow> ([], s, False)
    | Frame k \<Rightarrow> (let (fs, r, ok) = deframe c sz (drop (c + k) s) in (take (c + k) s # fs, r, ok)))"
  using assms by (subst deframe.simps) (simp add: front_of_def split: option.split)

text \<open>No byte is lost, added or moved.\<close>

lemma deframe_concat: "deframe c sz s = (fs, r, ok) \<Longrightarrow> concat fs @ r = s"
proof (induction c sz s arbitrary: fs r ok rule: deframe.induct)
  case (1 c sz s)
  show ?case
  proof (cases "c = 0 \<or> length s < c")
    case True
    with "1.prems" show ?thesis by (subst (asm) deframe.simps) auto
  next
    case False
    show ?thesis
    proof (cases "\<exists>k. sz (take c s) = Some k \<and> \<not> length s < c + k")
      case True
      then obtain k where k: "sz (take c s) = Some k" "\<not> length s < c + k" by blast
      obtain fs1 r1 ok1 where d: "deframe c sz (drop (c + k) s) = (fs1, r1, ok1)"
        by (metis prod_cases3)
      have "concat fs1 @ r1 = drop (c + k) s"
        by (rule "1.IH") (use False k d in auto)
      moreover have "fs = take (c + k) s # fs1" "r = r1"
        using "1.prems" False k d by (subst (asm) (2) deframe.simps, auto)+
      ultimately show ?thesis by simp
    next
      case False2: False
      with "1.prems" False show ?thesis
        by (subst (asm) deframe.simps) (auto split: option.splits if_splits)
    qed
  qed
qed

text \<open>Cutting can be resumed: what was left over goes in front of what comes next.\<close>

lemma deframe_append:
  "deframe c sz s = (fs, r, True) \<Longrightarrow>
     deframe c sz (s @ t) = (let (fs', r', ok) = deframe c sz (r @ t) in (fs @ fs', r', ok))"
proof (induction c sz s arbitrary: fs r rule: deframe.induct)
  case (1 c sz s)
  show ?case
  proof (cases "c \<noteq> 0 \<and> \<not> length s < c \<and> (\<exists>k. sz (take c s) = Some k \<and> \<not> length s < c + k)")
    case True
    then obtain k where k: "c \<noteq> 0" "\<not> length s < c" "sz (take c s) = Some k" "\<not> length s < c + k"
      by blast
    obtain fs1 r1 ok1 where d: "deframe c sz (drop (c + k) s) = (fs1, r1, ok1)"
      by (metis prod_cases3)
    have eq: "fs = take (c + k) s # fs1" "r = r1" "ok1"
      using "1.prems" k d by (subst (asm) (2) deframe.simps, auto)+
    have IH: "deframe c sz (drop (c + k) s @ t)
        = (let (fs', r', ok) = deframe c sz (r1 @ t) in (fs1 @ fs', r', ok))"
      by (rule "1.IH") (use k d eq in auto)
    have "deframe c sz (s @ t) = (let (fs', r', ok) = deframe c sz (drop (c + k) s @ t)
        in (take (c + k) s # fs', r', ok))"
      using k by (subst deframe.simps) simp
    then show ?thesis unfolding IH eq by (simp split: prod.splits)
  next
    case False
    with "1.prems" have "fs = [] \<and> r = s"
      by (subst (asm) deframe.simps) (auto split: option.splits if_splits)
    then show ?thesis by (simp split: prod.splits)
  qed
qed

text \<open>The stream of well-formed packets is cut into exactly these.\<close>

definition packet_ok :: "nat \<Rightarrow> (byte list \<Rightarrow> nat option) \<Rightarrow> byte list \<Rightarrow> bool" where
  "packet_ok c sz f \<longleftrightarrow> (\<exists>k. sz (take c f) = Some k \<and> length f = c + k)"

lemma deframe_packets:
  "0 < c \<Longrightarrow> list_all (packet_ok c sz) fs \<Longrightarrow> length r < c \<Longrightarrow>
     deframe c sz (concat fs @ r) = (fs, r, True)"
  by (induction fs) (auto simp: deframe_front front_of_def packet_ok_def)

section \<open>One call against one step of the specification\<close>

text \<open>The payload length a head announces, with the code's own checks; a parser that reads the
  head it is given and nothing behind it; the bytes the code holds back.\<close>

definition tst_len :: "tst \<Rightarrow> nat" where
  "tst_len t = nat (t_cb t)"

definition tst_size :: "tst \<Rightarrow> byte list \<Rightarrow> nat option" where
  "tst_size t h = (case t_parser t of None \<Rightarrow> None
     | Some p \<Rightarrow> (let (r, s) = p h (t_cb t)
         in if r < 0 \<or> s > TCP_MAXIMUM_PACKET_SIZE \<or> s \<le> 0 then None else Some (nat s)))"

abbreviation hlen :: "ncb \<Rightarrow> nat" where
  "hlen n \<equiv> tst_len (template (tcp n))"

abbreviation hsize :: "ncb \<Rightarrow> byte list \<Rightarrow> nat option" where
  "hsize n \<equiv> tst_size (template (tcp n))"

definition head_parser :: "tst \<Rightarrow> bool" where
  "head_parser t \<longleftrightarrow> (\<forall>p b off. t_parser t = Some p \<longrightarrow> t_cb t \<le> off \<longrightarrow>
     p b off = p (take (tst_len t) b) (t_cb t))"

definition rx_pending :: "ncb \<Rightarrow> byte list" where
  "rx_pending n = (if ncb_lb_marked n then take (nat (lboffset (tcp n))) (the (lbdata (tcp n)))
     else take (nat (rx_parse_offset (tcp n))) (the (packet n)))"

text \<open>The receive state the code keeps: the packet buffer is allocated at its full size; outside a
  large block what is held back is less than a packet that fits the buffer; inside one, at least
  the head and less than the whole.\<close>

definition rx_ok :: "ncb \<Rightarrow> bool" where
  "rx_ok n \<longleftrightarrow> 0 < hlen n \<and> hlen n \<le> 32 \<and> t_parser (template (tcp n)) \<noteq> None
     \<and> (\<exists>pk. packet n = Some pk \<and> int (length pk) = TCP_BUFFER_SIZE)
     \<and> 0 \<le> rx_parse_offset (tcp n) \<and> rx_parse_offset (tcp n) \<le> TCP_BUFFER_SIZE
     \<and> (if ncb_lb_marked n then
          (\<exists>lb k. lbdata (tcp n) = Some lb \<and> int (length lb) = lbsize (tcp n)
            \<and> int (hlen n) \<le> lboffset (tcp n) \<and> lboffset (tcp n) < lbsize (tcp n)
            \<and> hsize n (take (hlen n) lb) = Some k \<and> lbsize (tcp n) = int (hlen n + k)
            \<and> rx_parse_offset (tcp n) = 0)
        else length (rx_pending n) < hlen n \<or>
          (\<exists>k. hsize n (take (hlen n) (rx_pending n)) = Some k
            \<and> int (hlen n + k) \<le> TCP_BUFFER_SIZE \<and> length (rx_pending n) < hlen n + k))"

text \<open>A call that the receive state survives changes nothing of the block but the buffers.\<close>

definition rx_same :: "ncb \<Rightarrow> ncb \<Rightarrow> bool" where
  "rx_same n n' \<longleftrightarrow> (\<exists>pk o1 lb lo ls. n' = n\<lparr>packet := pk, tcp := (tcp n)\<lparr>rx_parse_offset := o1,
     lbdata := lb, lboffset := lo, lbsize := ls\<rparr>\<rparr>)"

definition delivered :: "ncb \<Rightarrow> world \<Rightarrow> byte list \<Rightarrow> effect list" where
  "delivered n w f = (case nis_callback n of None \<Rightarrow> []
     | Some cbk \<Rightarrow> [Post cbk (EVT_RECEIVEDATA (hld n) (if fully_receive n w then f else drop (hlen n) f))])"

text \<open>A large packet whose head arrives in two parts.\<close>

definition splits_large_head :: "ncb \<Rightarrow> byte list \<Rightarrow> bool" where
  "splits_large_head n bs \<longleftrightarrow> rx_pending n \<noteq> [] \<and> length (rx_pending n) < hlen n
     \<and> hlen n \<le> length (rx_pending n @ bs)
     \<and> (\<exists>k. hsize n (take (hlen n) (rx_pending n @ bs)) = Some k
           \<and> int (hlen n + k) > TCP_BUFFER_SIZE)"

lemma rx_sameI:
  assumes "n'\<lparr>packet := packet n, tcp := (tcp n')\<lparr>rx_parse_offset := rx_parse_offset (tcp n),
     lbdata := lbdata (tcp n), lboffset := lboffset (tcp n), lbsize := lbsize (tcp n)\<rparr>\<rparr> = n"
  shows "rx_same n n'"
proof -
  have "n' = n\<lparr>packet := packet n', tcp := (tcp n)\<lparr>rx_parse_offset := rx_parse_offset (tcp n'),
      lbdata := lbdata (tcp n'), lboffset := lboffset (tcp n'), lbsize := lbsize (tcp n')\<rparr>\<rparr>"
    using assms by (cases n; cases n'; cases "tcp n"; cases "tcp n'") simp
  then show ?thesis unfolding rx_same_def by blast
qed

lemma rx_same_sel:
  assumes "rx_same n n'"
  shows "template (tcp n') = template (tcp n)" "attr n' = attr n"
    "rx_buffer (tcp n') = rx_buffer (tcp n)" "sockfd n' = sockfd n" "hld n' = hld n"
    "nis_callback n' = nis_callback n" "fifo n' = fifo n" "protocol n' = protocol n"
    "delivered n' = delivered n"
  using assms by (auto simp: rx_same_def fun_eq_iff delivered_def fully_receive_def split: option.split)

lemma rx_same_refl: "rx_same n n"
  by (rule rx_sameI) simp

lemma rx_same_trans: "rx_same n n' \<Longrightarrow> rx_same n' n'' \<Longrightarrow> rx_same n n''"
  by (auto simp: rx_same_def; blast)

lemma post_emit:
  "post n e w = w\<lparr>trace := trace w @ (case nis_callback n of None \<Rightarrow> [] | Some f \<Rightarrow> [Post f e])\<rparr>"
  by (cases w) (simp add: post_def emit_def split: option.split)

text \<open>Delivering a complete packet that lies at the front of a buffer.\<close>

lemma deliver_packet:
  assumes "take m b = f" "m = length f" "hlen n \<le> m" "m \<le> length b" "0 \<le> t_cb (template (tcp n))"
    "nis_callback n' = nis_callback n" "hld n' = hld n" 
  shows "(if fully_receive n w then ncb_post_recvdata n' b 0 (int m) w
          else ncb_post_recvdata n' b (t_cb (template (tcp n))) (int m - t_cb (template (tcp n))) w)
       = Some (w\<lparr>trace := trace w @ delivered n w f\<rparr>)"
proof -
  have "drop (hlen n) f = take (m - hlen n) (drop (hlen n) b)"
    using assms(1) by (auto simp: drop_take)
  with assms show ?thesis
    by (auto simp: ncb_post_recvdata_def buf_get_def delivered_def post_emit tst_len_def nat_diff_distrib
        split: option.split)
qed

definition rx_env :: "world \<Rightarrow> world \<Rightarrow> bool" where
  "rx_env w w' \<longleftrightarrow> w'\<lparr>trace := trace w, heap := heap w\<rparr> = w"

lemma rx_envD: "rx_env w w' \<Longrightarrow> \<exists>t hp. w' = w\<lparr>trace := t, heap := hp\<rparr>"
  unfolding rx_env_def
  by (intro exI [of _ "trace w'"] exI [of _ "heap w'"]) (cases w; cases w'; simp)

lemma rx_env_refl [simp]: "rx_env w w"
  by (simp add: rx_env_def)

lemma rx_env_trans: "rx_env w w' \<Longrightarrow> rx_env w' w'' \<Longrightarrow> rx_env w w''"
  by (cases w; cases w'; cases w''; simp add: rx_env_def)

definition rx_step :: "ncb \<Rightarrow> byte list \<Rightarrow> world \<Rightarrow> int \<Rightarrow> ncb \<Rightarrow> world \<Rightarrow> bool" where
  "rx_step n bs w r n' w' \<longleftrightarrow> rx_same n n'
     \<and> rx_env w w'
     \<and> (let s = rx_pending n @ bs in case front_of (hlen n) (hsize n) s of
          Short \<Rightarrow> r = 0 \<and> trace w' = trace w \<and> rx_pending n' = s \<and> rx_ok n'
        | Bad \<Rightarrow> r = -1 \<and> trace w' = trace w
        | Frame k \<Rightarrow> r = int (length s) - int (hlen n + k) \<and> rx_pending n' = [] \<and> rx_ok n'
            \<and> trace w' = trace w @ delivered n w (take (hlen n + k) s))"

lemma rx_okI_plain:
  assumes "rx_ok n" "n' = n\<lparr>packet := Some pk, tcp := (tcp n)\<lparr>rx_parse_offset := int off\<rparr>\<rparr>"
    "int (length pk) = TCP_BUFFER_SIZE" "int off \<le> TCP_BUFFER_SIZE" "\<not> ncb_lb_marked n"
    "off < hlen n \<or> (\<exists>k. hsize n (take (hlen n) pk) = Some k
        \<and> int (hlen n + k) \<le> TCP_BUFFER_SIZE \<and> off < hlen n + k)"
  shows "rx_ok n'" "rx_pending n' = take off pk"
proof -
  have m: "\<not> ncb_lb_marked n'" using assms(2,5) by (auto simp: ncb_lb_marked_def)
  show p: "rx_pending n' = take off pk" using assms(2) m by (simp add: rx_pending_def)
  have l: "length (rx_pending n') = off" unfolding p using assms(3,4) by simp
  have h: "take (hlen n) (rx_pending n') = take (hlen n) pk" if "hlen n \<le> off"
    using that unfolding p by (simp add: min_def)
  have "length (rx_pending n') < hlen n \<or> (\<exists>k. hsize n (take (hlen n) (rx_pending n')) = Some k
      \<and> int (hlen n + k) \<le> TCP_BUFFER_SIZE \<and> length (rx_pending n') < hlen n + k)"
    using assms(6) h unfolding l by (metis not_le)
  then show "rx_ok n'"
    using assms(1-4) m unfolding rx_ok_def by simp
qed

lemma rx_okI_empty:
  assumes "rx_ok n" "n' = n\<lparr>tcp := (tcp n)\<lparr>lbdata := None, lboffset := 0, lbsize := 0\<rparr>\<rparr>"
    "rx_parse_offset (tcp n) = 0"
  shows "rx_ok n'" "rx_pending n' = []"
  using assms by (auto simp: rx_ok_def rx_pending_def ncb_lb_marked_def)

lemma parse_marked:
  assumes ok: "rx_ok n" and m: "ncb_lb_marked n" and len: "0 < c" "c \<le> length dat"
  shows "\<exists>r n' w'. tcp_parse_pkt n dat (int c) w = Some (r, n', w') \<and> rx_step n (take c dat) w r n' w'"
proof -
  let ?t = "tcp n" and ?bs = "take c dat"
  from ok m obtain lb k where lb: "lbdata ?t = Some lb" "int (length lb) = lbsize ?t"
      "int (hlen n) \<le> lboffset ?t" "lboffset ?t < lbsize ?t"
      "hsize n (take (hlen n) lb) = Some k" "lbsize ?t = int (hlen n + k)" "rx_parse_offset ?t = 0"
    by (auto simp: rx_ok_def)
  then obtain lo where lo: "lboffset ?t = int lo" by (metis nonneg_int_cases order.trans of_nat_0_le_iff)
  from ok have hl: "0 < hlen n" by (simp add: rx_ok_def)
  then have cb: "t_cb (template ?t) = int (hlen n)" by (simp add: tst_len_def)
  note lb' = lb [unfolded lo]
  have call: "tcp_parse_pkt n dat (int c) w = tcp_parse_marked_lb n dat (int c) w"
    using ok m len hl cb by (auto simp: tcp_parse_pkt_def rx_ok_def Let_def)
  have pend: "rx_pending n = take lo lb" and plen: "length (rx_pending n) = lo"
    using m lb' lo by (simp_all add: rx_pending_def)
  have hd: "take (hlen n) (rx_pending n @ ?bs) = take (hlen n) lb"
    using lb' pend by (simp add: min_def)
  show ?thesis
  proof (cases "c + lo < length lb")
    case True
    let ?lb = "take lo lb @ ?bs @ drop (lo + c) lb"
    let ?n = "n\<lparr>tcp := ?t\<lparr>lbdata := Some ?lb, lboffset := int lo + int c\<rparr>\<rparr>"
    have r: "tcp_parse_pkt n dat (int c) w = Some (0, ?n, w)"
      using True len lb' lo by (simp add: call tcp_parse_marked_lb_def Let_def buf_simps)
    have f: "front_of (hlen n) (hsize n) (rx_pending n @ ?bs) = Short"
      using hd lb' plen True len by (auto simp: front_of_def)
    have p: "rx_pending ?n = rx_pending n @ ?bs"
      using m lb' pend len True by (auto simp: rx_pending_def ncb_lb_marked_def nat_add_distrib)
    have "rx_ok ?n"
      using ok m lb' True len by (auto simp: rx_ok_def ncb_lb_marked_def min_def)
    moreover have "rx_same n ?n" by (rule rx_sameI) simp
    ultimately show ?thesis
      unfolding r using p f by (simp add: rx_step_def)
  next
    case False
    let ?u = "length lb - lo"
    let ?lb = "take lo lb @ take ?u dat"
    let ?n = "n\<lparr>tcp := ?t\<lparr>lbdata := None, lboffset := 0, lbsize := 0\<rparr>\<rparr>"
    let ?f = "take (length lb) (rx_pending n @ ?bs)"
    have uc: "?u \<le> c" "lo \<le> length lb" using False lb' by linarith+
    have f: "?lb = ?f" using pend plen uc by (simp add: min_absorb1)
    have u: "lbsize ?t - lboffset ?t = int ?u" using lb' lo by simp
    have ll: "length lb = hlen n + k" using lb' by linarith
    have hl2: "hlen n \<le> length lb" using lb' by linarith
    define F where "F = ?f"
    have get: "buf_get dat 0 (int ?u) = Some (take ?u dat)"
      using uc len by (intro buf_get_front) simp
    have put: "buf_put lb (lboffset ?t) (take ?u dat) = Some F"
      unfolding F_def f [symmetric] lo using uc len by (subst buf_put_nat) auto
    have Fl: "length F = length lb" unfolding F_def f [symmetric] using uc len by simp
    have d: "(if fully_receive n w then ncb_post_recvdata n F 0 (lbsize ?t) w
              else ncb_post_recvdata n F (t_cb (template ?t)) (lbsize ?t - t_cb (template ?t)) w)
           = Some (w\<lparr>trace := trace w @ delivered n w F\<rparr>)"
      unfolding lb(2) [symmetric]
      by (rule deliver_packet) (use Fl hl2 cb in simp_all)
    have ge: "\<not> int c + lboffset ?t < lbsize ?t" using False lb' lo by simp
    have r: "tcp_parse_pkt n dat (int c) w
        = Some (int c - int ?u, ?n, free (w\<lparr>trace := trace w @ delivered n w F\<rparr>))"
      unfolding call tcp_parse_marked_lb_def Let_def u
      by (simp only: ge lb(1) get put d if_False Option.bind.simps)
    have fr: "front_of (hlen n) (hsize n) (rx_pending n @ ?bs) = Frame k"
      using hd lb' plen False len by (auto simp: front_of_def)
    have "rx_same n ?n" by (rule rx_sameI) simp
    then show ?thesis
      unfolding r using fr lb' plen False len F_def [unfolded ll] ll rx_okI_empty [OF ok refl lb(7)]
      by (auto simp: rx_step_def free_def rx_env_def)
  qed
qed

end
