(* ===== verification/Tcp_stream.thy ===== *)
theory Tcp_stream
  imports Tcpal
begin

text \<open>The head is complete at the front of \<open>packet\<close>; \<open>off\<close> bytes of the stream \<open>s\<close> lie there, the
  rest of the arrived bytes starts at \<open>used\<close>.\<close>

lemma parse_body:
  assumes ok: "rx_ok n0" and nm: "\<not> ncb_lb_marked n0" and hp: "head_parser (template (tcp n0))"
    and n: "n = n0\<lparr>packet := Some pk, tcp := (tcp n0)\<lparr>rx_parse_offset := int off\<rparr>\<rparr>"
    and pk: "int (length pk) = TCP_BUFFER_SIZE" and off: "hlen n0 \<le> off" "int off \<le> TCP_BUFFER_SIZE"
    and s: "s = rx_pending n0 @ take c dat" "take off pk = take off s" "length s = off + (c - used)"
    and used: "used \<le> c" "c \<le> length dat" "int c \<le> TCP_BUFFER_SIZE"
      "drop off s = drop used (take c dat)"
    and split: "\<not> splits_large_head n0 (take c dat)" and small: "used = 0 \<longrightarrow>
        (\<exists>k. hsize n0 (take (hlen n0) (rx_pending n0)) = Some k \<and> int (hlen n0 + k) \<le> TCP_BUFFER_SIZE
           \<and> off < hlen n0 + k \<and> hlen n0 \<le> length (rx_pending n0))"
      "used \<noteq> 0 \<longrightarrow> off = hlen n0 \<and> length (rx_pending n0) < hlen n0"
    and mal: "k_fail w SYS_malloc = []"
  shows "\<exists>r n' w'. tcp_parse_body n dat (int c) (int used) (int (c - used)) w = Some (r, n', w')
           \<and> rx_step n0 (take c dat) w r n' w'"
proof -
  let ?h = "hlen n0"
  have hl: "0 < ?h" "?h \<le> 32" using ok by (auto simp: rx_ok_def)
  have cb: "t_cb (template (tcp n0)) = int ?h" using hl by (simp add: tst_len_def)
  from ok obtain p where p: "t_parser (template (tcp n0)) = Some p" by (auto simp: rx_ok_def)
  have ls: "length (rx_pending n0) + c = length s" using s(1) used by simp
  have hd: "take ?h pk = take ?h s"
    using s(2) off(1) by (metis min.absorb1 take_take)
  obtain st sz where ps: "p pk (int off) = (st, sz)" by fastforce
  have ps': "p (take ?h s) (int ?h) = (st, sz)"
    using hp p ps off(1) hd unfolding head_parser_def cb by (metis of_nat_le_iff)
  have size: "hsize n0 (take ?h s) = (if st < 0 \<or> sz > TCP_MAXIMUM_PACKET_SIZE \<or> sz \<le> 0 then None
      else Some (nat sz))"
    by (simp add: tst_size_def p cb ps')
  have same0: "rx_same n0 n" unfolding n by (rule rx_sameI) simp
  have hs: "?h \<le> length s" using s off by simp
  show ?thesis
  proof (cases "hsize n0 (take ?h s)")
    case None
    then have "tcp_parse_body n dat (int c) (int used) (int (c - used)) w = Some (-1, n, w)"
      using size by (auto simp: tcp_parse_body_def n p ps Let_def split: if_splits)
    moreover have "front_of ?h (hsize n0) s = Bad" using None hs by (simp add: front_of_def)
    ultimately show ?thesis using same0 s(1) by (auto simp: rx_step_def)
  next
    case (Some k)
    with size have st: "\<not> st < 0" "\<not> sz > TCP_MAXIMUM_PACKET_SIZE" "\<not> sz \<le> 0" "sz = int k"
      by (auto split: if_splits)
    have total: "sz + int ?h = int (?h + k)" using st by simp
    have body: "tcp_parse_body n dat (int c) (int used) (int (c - used)) w =
       (if int (?h + k) > TCP_BUFFER_SIZE then
          (case malloc (int (?h + k)) w of (None, w) \<Rightarrow> Some (-1, n, w)
           | (Some lb, w) \<Rightarrow> do {
              bs \<leftarrow> buf_get dat 0 (int c);
              lb \<leftarrow> buf_put lb 0 bs;
              Some (0, n\<lparr>tcp := (tcp n)\<lparr>lbdata := Some lb, lbsize := int (?h + k), lboffset := int c,
                        rx_parse_offset := 0\<rparr>\<rparr>, w) })
        else if int off + int (c - used) \<ge> int (?h + k) then do {
          bs \<leftarrow> buf_get dat (int used) (int (?h + k) - int off);
          pk \<leftarrow> buf_put pk (int off) bs;
          w \<leftarrow> (if fully_receive n w then ncb_post_recvdata n pk 0 (int (?h + k)) w
               else ncb_post_recvdata n pk (t_cb (template (tcp n))) (int (?h + k) - t_cb (template (tcp n))) w);
          Some (int (c - used) - (int (?h + k) - int off),
                n\<lparr>packet := Some pk, tcp := (tcp n)\<lparr>rx_parse_offset := 0\<rparr>\<rparr>, w) }
        else do {
          bs \<leftarrow> buf_get dat (int used) (int (c - used));
          pk \<leftarrow> buf_put pk (int off) bs;
          Some (0, n\<lparr>packet := Some pk, tcp := (tcp n)\<lparr>rx_parse_offset := int off + int (c - used)\<rparr>\<rparr>, w) })"
    proof -
      have f: "packet n = Some pk" "t_parser (template (tcp n)) = Some p" "rx_parse_offset (tcp n) = int off"
          "t_cb (template (tcp n)) = int ?h" using n p cb by simp_all
      have szk: "sz = int (?h + k) - int ?h" using st(4) by simp
      show ?thesis
        unfolding tcp_parse_body_def Let_def f ps
        apply (simp only: ps split_conv Option.bind.simps bind.bind_lunit st(1,2,3) if_False simp_thms)
        apply (simp only: szk diff_add_cancel)
        done
    qed
    have hp2: "take ?h (rx_pending n0) = take ?h s" if "?h \<le> length (rx_pending n0)"
      using that s(1) by simp
    have offk: "off \<le> ?h + k"
    proof (cases "used = 0")
      case True
      with small(1) Some show ?thesis by (auto simp: hp2)
    qed (use small(2) in simp)
    \<comment> \<open>what the buffer holds after the next \<open>x\<close> bytes are appended\<close>
    define app where "app x = take off pk @ take x (drop used dat) @ drop (off + x) pk" for x
    have app: "buf_get dat (int used) (int x) = Some (take x (drop used dat))"
        "buf_put pk (int off) (take x (drop used dat)) = Some (app x)"
        "take (off + x) (app x) = take (off + x) s" "length (app x) = length pk"
      if x: "x \<le> c - used" "int (off + x) \<le> TCP_BUFFER_SIZE" for x
    proof -
      have l: "length (take x (drop used dat)) = x" "off + x \<le> length pk"
        using x used pk by (auto simp: min_def)
      show "buf_get dat (int used) (int x) = Some (take x (drop used dat))"
        using x used by (intro buf_get_nat) auto
      show "buf_put pk (int off) (take x (drop used dat)) = Some (app x)"
        unfolding app_def using l by (subst buf_put_nat) auto
      show "length (app x) = length pk" unfolding app_def using l by simp
      have "take x (drop used dat) = take x (drop off s)"
        using x used by (simp add: used(4) drop_take min_def)
      moreover have "take (off + x) (app x) = take off s @ take x (drop used dat)"
      proof -
        have "length (take off pk) = off" using l by simp
        then show ?thesis unfolding app_def s(2) [symmetric] using l(1) by simp
      qed
      ultimately show "take (off + x) (app x) = take (off + x) s" by (simp add: take_add)
    qed
    show ?thesis
    proof (cases "int (?h + k) > TCP_BUFFER_SIZE")
      case True
      have u: "used \<noteq> 0"
      proof
        assume "used = 0"
        with small(1) obtain k' where k': "hsize n0 (take ?h (rx_pending n0)) = Some k'"
          "int (?h + k') \<le> TCP_BUFFER_SIZE" "?h \<le> length (rx_pending n0)" by auto
        then show False using Some True by (simp add: hp2)
      qed
      have e: "rx_pending n0 = []"
        using split small(2) u True Some hs s(1) by (auto simp: splits_large_head_def)
      have sc: "s = take c dat" "length s = c" "?h \<le> c" "c < ?h + k"
        using e s(1) used hs True by auto
      have m: "malloc (int (?h + k)) w = (Some (replicate (?h + k) (junk w)), w\<lparr>heap := heap w + 1\<rparr>)"
        by (simp add: malloc_def simple_call_ok mal nat_add_distrib)
      have g: "buf_get dat 0 (int c) = Some (take c dat)" using used by (intro buf_get_front) simp
      let ?lb = "take c dat @ drop c (replicate (?h + k) (junk w))"
      have pu: "buf_put (replicate (?h + k) (junk w)) 0 (take c dat) = Some ?lb"
        using buf_put_nat [of 0 "take c dat" "replicate (?h + k) (junk w)"] sc used by simp
      let ?n = "n\<lparr>tcp := (tcp n)\<lparr>lbdata := Some ?lb, lbsize := int (?h + k), lboffset := int c,
                  rx_parse_offset := 0\<rparr>\<rparr>"
      have r: "tcp_parse_body n dat (int c) (int used) (int (c - used)) w
          = Some (0, ?n, w\<lparr>heap := heap w + 1\<rparr>)"
        unfolding body using True by (simp add: m g pu del: replicate_add of_nat_add)
      have mk: "ncb_lb_marked ?n" using hl by (simp add: ncb_lb_marked_def)
      have p': "rx_pending ?n = s" unfolding rx_pending_def using mk sc used by simp
      have "take ?h ?lb = take ?h s" using sc used by simp
      then have "rx_ok ?n"
        using ok mk sc used Some pk hl by (auto simp: rx_ok_def n min_def)
      moreover have "rx_same n0 ?n" unfolding n by (rule rx_sameI) simp
      moreover have "front_of ?h (hsize n0) s = Short" using Some sc by (simp add: front_of_def)
      ultimately show ?thesis
        unfolding r using p' s(1) by (simp add: rx_step_def rx_env_def)
    next
      case fit: False
      then have kb: "int (?h + k) \<le> TCP_BUFFER_SIZE" "\<not> TCP_BUFFER_SIZE < int (?h + k)" by simp_all
      have env: "fully_receive n w = fully_receive n0 w" "nis_callback n = nis_callback n0"
        "hld n = hld n0" "template (tcp n) = template (tcp n0)" "delivered n w = delivered n0 w"
        using rx_same_sel [OF same0] by (simp_all add: fully_receive_def)
      show ?thesis
      proof (cases "?h + k \<le> length s")
        case True
        define x where "x = ?h + k - off"
        define F where "F = app x"
        have x: "x \<le> c - used" "off + x = ?h + k" "int (?h + k) - int off = int x"
          using True s(3) offk by (auto simp: x_def)
        have bF: "buf_get dat (int used) (int x) = Some (take x (drop used dat))"
          "buf_put pk (int off) (take x (drop used dat)) = Some F"
          "take (?h + k) F = take (?h + k) s" "length F = length pk"
          using app [of x] x kb by (simp_all add: F_def)
        have d: "(if fully_receive n w then ncb_post_recvdata n F 0 (int (?h + k)) w
            else ncb_post_recvdata n F (t_cb (template (tcp n))) (int (?h + k) - t_cb (template (tcp n))) w)
            = Some (w\<lparr>trace := trace w @ delivered n w (take (?h + k) s)\<rparr>)"
          by (rule deliver_packet) (use bF True kb pk cb env in simp_all)
        let ?n = "n\<lparr>packet := Some F, tcp := (tcp n)\<lparr>rx_parse_offset := 0\<rparr>\<rparr>"
        have ge: "int (?h + k) \<le> int off + int (c - used)" using True s(3) by simp
        have r: "tcp_parse_body n dat (int c) (int used) (int (c - used)) w
            = Some (int (c - used) - int x, ?n, w\<lparr>trace := trace w @ delivered n w (take (?h + k) s)\<rparr>)"
          unfolding body using ge
          by (simp only: kb(2) if_False if_True x(3) bF(1,2) bind.bind_lunit Option.bind.simps d)
        have fr: "front_of ?h (hsize n0) s = Frame k" using Some True hs by (simp add: front_of_def)
        have nn: "?n = n0\<lparr>packet := Some F, tcp := (tcp n0)\<lparr>rx_parse_offset := int 0\<rparr>\<rparr>"
          unfolding n by simp
        have "rx_ok ?n" "rx_pending ?n = []"
          using rx_okI_plain [OF ok nn _ _ nm] bF(4) pk hl by simp_all
        moreover have "rx_same n0 ?n" unfolding n by (rule rx_sameI) simp
        moreover have "int (c - used) - int x = int (length s) - int (?h + k)"
          using s(3) x(1,2) by simp
        ultimately show ?thesis
          unfolding r using fr s(1) env(5) by (simp add: rx_step_def rx_env_def)
      next
        case short: False
        define F where "F = app (c - used)"
        have l: "int (off + (c - used)) \<le> TCP_BUFFER_SIZE" using short s(3) kb by simp
        have bF: "buf_get dat (int used) (int (c - used)) = Some (take (c - used) (drop used dat))"
          "buf_put pk (int off) (take (c - used) (drop used dat)) = Some F"
          "take (length s) F = s" "length F = length pk"
          using app [of "c - used"] l s(3) by (simp_all add: F_def)
        let ?n = "n\<lparr>packet := Some F, tcp := (tcp n)\<lparr>rx_parse_offset := int off + int (c - used)\<rparr>\<rparr>"
        have ge: "\<not> int (?h + k) \<le> int off + int (c - used)" using short s(3) by simp
        have r: "tcp_parse_body n dat (int c) (int used) (int (c - used)) w = Some (0, ?n, w)"
          unfolding body using ge
          by (simp only: kb(2) if_False bF(1,2) bind.bind_lunit Option.bind.simps)
        have fr: "front_of ?h (hsize n0) s = Short" using Some short hs by (simp add: front_of_def)
        have nn: "?n = n0\<lparr>packet := Some F, tcp := (tcp n0)\<lparr>rx_parse_offset := int (length s)\<rparr>\<rparr>"
          unfolding n using s(3) by simp
        have "take ?h F = take ?h s" using bF(3) hs by (metis take_take min.absorb1)
        then have "rx_ok ?n" "rx_pending ?n = s"
          using rx_okI_plain [OF ok nn _ _ nm] bF(3,4) pk l s(3) kb short Some by simp_all
        moreover have "rx_same n0 ?n" unfolding n by (rule rx_sameI) simp
        ultimately show ?thesis
          unfolding r using fr s(1) by (simp add: rx_step_def)
      qed
    qed
  qed
qed


lemma parse_plain:
  assumes ok: "rx_ok n" and nm: "\<not> ncb_lb_marked n" and hp: "head_parser (template (tcp n))"
    and c: "0 < c" "c \<le> length dat" "int c \<le> TCP_BUFFER_SIZE"
    and split: "\<not> splits_large_head n (take c dat)" and mal: "k_fail w SYS_malloc = []"
  shows "\<exists>r n' w'. tcp_parse_pkt n dat (int c) w = Some (r, n', w') \<and> rx_step n (take c dat) w r n' w'"
proof -
  let ?h = "hlen n"
  from ok obtain pk where pk: "packet n = Some pk" "int (length pk) = TCP_BUFFER_SIZE"
    by (auto simp: rx_ok_def)
  from ok have hl: "0 < ?h" "?h \<le> 32" by (auto simp: rx_ok_def)
  have cb: "t_cb (template (tcp n)) = int ?h" using hl by (simp add: tst_len_def)
  from ok obtain p where p: "t_parser (template (tcp n)) = Some p" by (auto simp: rx_ok_def)
  from ok obtain off where off: "rx_parse_offset (tcp n) = int off" "int off \<le> TCP_BUFFER_SIZE"
    by (auto simp: rx_ok_def elim: nonneg_int_cases)
  have pend: "rx_pending n = take off pk" "length (rx_pending n) = off"
    using nm pk off by (simp_all add: rx_pending_def)
  have big: "?h \<le> length pk" using hl pk by (simp add: TCP_BUFFER_SIZE_def)
  have inv: "off < ?h \<or> (\<exists>k. hsize n (take ?h (rx_pending n)) = Some k
      \<and> int (?h + k) \<le> TCP_BUFFER_SIZE \<and> off < ?h + k)"
    using ok nm by (simp add: rx_ok_def pend(2))
  define s where "s = rx_pending n @ take c dat"
  have ls: "length s = off + c" using c pend(2) by (simp add: s_def)
  have call: "tcp_parse_pkt n dat (int c) w = (if int off + int c < int ?h then do {
        pk \<leftarrow> packet n;
        bs \<leftarrow> buf_get dat 0 (int c);
        pk \<leftarrow> buf_put pk (int off) bs;
        Some (0, n\<lparr>packet := Some pk, tcp := (tcp n)\<lparr>rx_parse_offset := int off + int c\<rparr>\<rparr>, w) }
      else if off < ?h then do {
        pk \<leftarrow> packet n;
        bs \<leftarrow> buf_get dat 0 (int ?h - int off);
        pk \<leftarrow> buf_put pk (int off) bs;
        tcp_parse_body (n\<lparr>packet := Some pk, tcp := (tcp n)\<lparr>rx_parse_offset := int ?h\<rparr>\<rparr>) dat (int c)
          (int ?h - int off) (int c - (int ?h - int off)) w }
      else tcp_parse_body n dat (int c) 0 (int c) w)"
    using c hl by (simp add: tcp_parse_pkt_def Let_def nm p cb off(1))
  consider (short) "off + c < ?h" | (head) "off < ?h" "?h \<le> off + c" | (more) "?h \<le> off"
    by linarith
  then show ?thesis
  proof cases
    case short
    define F where "F = take off pk @ take c dat @ drop (off + c) pk"
    have F: "buf_get dat 0 (int c) = Some (take c dat)"
      "buf_put pk (int off) (take c dat) = Some F" "take (off + c) F = s" "length F = length pk"
      using c short big pend by (auto simp: F_def buf_get_front buf_put_nat s_def)
    let ?n = "n\<lparr>packet := Some F, tcp := (tcp n)\<lparr>rx_parse_offset := int (off + c)\<rparr>\<rparr>"
    have lt: "int off + int c < int ?h" using short by simp
    have r: "tcp_parse_pkt n dat (int c) w = Some (0, ?n, w)"
      unfolding call of_nat_add using lt by (simp only: if_True pk(1) F(1,2) bind.bind_lunit Option.bind.simps)
    have "rx_ok ?n" "rx_pending ?n = s"
      using rx_okI_plain [OF ok refl _ _ nm, of F "off + c"] F(3,4) pk(2) short big by auto
    moreover have "rx_same n ?n" by (rule rx_sameI) simp
    moreover have "front_of ?h (hsize n) s = Short" using ls short by (simp add: front_of_def)
    ultimately show ?thesis unfolding r using s_def by (simp add: rx_step_def)
  next
    case head
    define u where "u = ?h - off"
    define F where "F = take off pk @ take u dat @ drop (off + u) pk"
    have u: "u \<le> c" "off + u = ?h" "int ?h - int off = int u" "int c - int u = int (c - u)" "u \<noteq> 0"
      using head by (auto simp: u_def)
    have F: "buf_get dat 0 (int u) = Some (take u dat)"
      "buf_put pk (int off) (take u dat) = Some F" "length F = length pk"
      "take (off + u) F = take (off + u) s"
    proof -
      have l: "length (take u dat) = u" "off + u \<le> length pk" "length (take off pk) = off"
        using u(1,2) c big pend by (auto simp: min_def)
      show "buf_get dat 0 (int u) = Some (take u dat)" using u(1) c by (intro buf_get_front) simp
      show "buf_put pk (int off) (take u dat) = Some F"
        unfolding F_def using l by (subst buf_put_nat) auto
      show "length F = length pk" "take (off + u) F = take (off + u) s"
        unfolding F_def s_def pend(1) using l u(1) c by (simp_all add: min_def)
    qed
    note F4 = F(4) [unfolded u(2)]
    have ge: "\<not> int off + int c < int ?h" using head by simp
    have r: "tcp_parse_pkt n dat (int c) w
        = tcp_parse_body (n\<lparr>packet := Some F, tcp := (tcp n)\<lparr>rx_parse_offset := int ?h\<rparr>\<rparr>) dat (int c)
            (int u) (int (c - u)) w"
      unfolding call using ge head(1)
      by (simp only: if_True if_False u(3,4) pk(1) F(1,2) bind.bind_lunit Option.bind.simps)
    have dr: "drop ?h s = drop u (take c dat)" using pend head by (simp add: s_def u_def)
    show ?thesis
      unfolding r
      by (rule parse_body [OF ok nm hp refl _ _ _ s_def F4])
        (use F(3) pk(2) big ls u c dr split mal head pend in auto)
  next
    case more
    from inv more obtain k where k: "hsize n (take ?h (rx_pending n)) = Some k"
        "int (?h + k) \<le> TCP_BUFFER_SIZE" "off < ?h + k"
      by auto
    have eqn: "n = n\<lparr>packet := Some pk, tcp := (tcp n)\<lparr>rx_parse_offset := int off\<rparr>\<rparr>"
      using pk(1) off(1) by (cases n; cases "tcp n") simp
    have r: "tcp_parse_pkt n dat (int c) w = tcp_parse_body n dat (int c) (int 0) (int (c - 0)) w"
      unfolding call using more by simp
    show ?thesis
      unfolding r
      by (rule parse_body [OF ok nm hp eqn pk(2) more off(2) s_def])
        (use ls c k more pend s_def split mal in auto)
  qed
qed

lemma parse_step:
  assumes "rx_ok n" "head_parser (template (tcp n))" "0 < c" "c \<le> length dat" "int c \<le> TCP_BUFFER_SIZE"
    "\<not> splits_large_head n (take c dat)" "k_fail w SYS_malloc = []"
  shows "\<exists>r n' w'. tcp_parse_pkt n dat (int c) w = Some (r, n', w') \<and> rx_step n (take c dat) w r n' w'"
  using assms parse_marked [of n c dat w] parse_plain [of n c dat w] by (cases "ncb_lb_marked n") auto

end
