(* ===== verification/Txn.thy ===== *)
theory Txn
  imports Ncb
begin

text \<open>
  The contract of the send loops. A link of every protocol has a function \<open>ncb->ncb_write\<close> whose
  core pushes one node into the kernel (\<open>tcp_txn\<close>, \<open>udp_txn\<close>, \<open>arp_txn\<close>). Its callers (the write
  calls of the user, the worker threads) rely on the laws collected in the locale \<open>sender\<close>; the
  three loops are shown to be instances of one loop, and that loop to obey the laws.
\<close>

section \<open>What went out\<close>

text \<open>The bytes the kernel took on a descriptor, in order, and the bytes that still wait.\<close>

fun sent :: "int \<Rightarrow> effect list \<Rightarrow> byte list" where
  "sent fd [] = []"
| "sent fd (Send d bs # es) = (if d = fd then bs else []) @ sent fd es"
| "sent fd (SendtoIn d bs a # es) = (if d = fd then bs else []) @ sent fd es"
| "sent fd (SendtoLl d bs a # es) = (if d = fd then bs else []) @ sent fd es"
| "sent fd (e # es) = sent fd es"

lemma sent_append [wire_simps, simp]: "sent fd (xs @ ys) = sent fd xs @ sent fd ys"
  by (induction fd xs rule: sent.induct) auto

definition pend :: "tx_node list \<Rightarrow> byte list" where
  "pend xs = concat (map node_rest xs)"

lemma pend_simps [wire_simps, simp]:
  "pend [] = []" "pend (x # xs) = node_rest x @ pend xs" "pend (xs @ ys) = pend xs @ pend ys"
  by (simp_all add: pend_def)

definition nodes_ok :: "ncb \<Rightarrow> bool" where
  "nodes_ok n \<longleftrightarrow> list_all node_ok (fhead (fifo n))"

section \<open>The laws\<close>

definition txn_law :: "ncb \<Rightarrow> tx_node \<Rightarrow> world \<Rightarrow> int \<Rightarrow> tx_node \<Rightarrow> world \<Rightarrow> bool" where
  "txn_law n x w r x' w' \<longleftrightarrow> node_ok x' \<and> (\<exists>os. x' = x\<lparr>offset := os\<rparr> \<and> offset x \<le> os)
     \<and> sent (sockfd n) (trace w') @ node_rest x' = sent (sockfd n) (trace w) @ node_rest x
     \<and> (if r < 0 then (r = -1 \<or> r = - EAGAIN) \<and> offset x' < wcb x else r = wcb x \<and> offset x' = wcb x)
     \<and> (\<forall>g. ref_balance g (trace w') = ref_balance g (trace w))
     \<and> (\<exists>t k e. w' = w\<lparr>trace := t, k_send := k, errno := e\<rparr>)"

lemma node_rest_advance:
  assumes "node_ok x" "int k \<le> wcb x - offset x"
  shows "node_ok (x\<lparr>offset := offset x + int k\<rparr>)"
    and "node_rest (x\<lparr>offset := offset x + int k\<rparr>) = drop k (node_rest x)"
proof -
  show "node_ok (x\<lparr>offset := offset x + int k\<rparr>)" using assms by (auto simp: node_ok_def)
  have e: "nat (wcb x - (offset x + int k)) = nat (wcb x - offset x) - k"
    "nat (offset x + int k) = k + nat (offset x)"
    using assms by (auto simp: node_ok_def nat_add_distrib)
  show "node_rest (x\<lparr>offset := offset x + int k\<rparr>) = drop k (node_rest x)"
    by (simp add: node_rest_def e drop_take)
qed

lemma txn_law_taken:
  assumes "node_ok x" "txn_law n x w r x' w'"
  shows "\<exists>k. sent (sockfd n) (trace w') = sent (sockfd n) (trace w) @ take k (node_rest x)
    \<and> node_rest x' = drop k (node_rest x)"
proof -
  from assms(2) obtain os where os: "x' = x\<lparr>offset := os\<rparr>" "offset x \<le> os" "node_ok x'"
    and st: "sent (sockfd n) (trace w') @ node_rest x' = sent (sockfd n) (trace w) @ node_rest x"
    by (auto simp: txn_law_def)
  define k where "k = nat (os - offset x)"
  have "x' = x\<lparr>offset := offset x + int k\<rparr>" "int k \<le> wcb x - offset x"
    using os by (auto simp: k_def node_ok_def)
  then have d: "node_rest x' = drop k (node_rest x)" using node_rest_advance(2) [OF assms(1)] by simp
  with st have "sent (sockfd n) (trace w') @ drop k (node_rest x)
      = (sent (sockfd n) (trace w) @ take k (node_rest x)) @ drop k (node_rest x)" by simp
  then have "sent (sockfd n) (trace w') = sent (sockfd n) (trace w) @ take k (node_rest x)"
    by (simp only: append_same_eq)
  with d show ?thesis by blast
qed

section \<open>Sending or queueing\<close>

text \<open>How \<open>tcp_write\<close>, \<open>udp_write\<close> and \<open>arp_nrequest\<close> end, once buffer and node are there: while
  nothing waits the node is pushed at once; where the kernel is full, or nodes wait already, it is
  queued behind them. Whatever is not queued is freed, the node and its buffer.\<close>

definition write_node ::
  "(ncb \<Rightarrow> tx_node \<Rightarrow> world \<Rightarrow> (int \<times> tx_node \<times> world) option)
    \<Rightarrow> ncb \<Rightarrow> tx_node \<Rightarrow> world \<Rightarrow> (int \<times> ncb \<times> world) option" where
  "write_node txn n node w = do {
     (retval, node, w) \<leftarrow> (if fifo_is_blocking n = 0 then txn n node w else Some (- EAGAIN, node, w));
     (if retval \<noteq> - EAGAIN then Some (retval, n, free (free w))
      else let (retval, n, w) = fifo_queue n node w
           in if retval < 0 then Some (retval, n, free (free w)) else Some (0, n, w))
   }"

section \<open>The interface\<close>

text \<open>An answer that is not an interruption moves the loop on.\<close>

definition answers :: "kans list \<Rightarrow> nat" where
  "answers ks = length (filter (\<lambda>k. k \<noteq> KErr EINTR) ks)"

locale sender =
  fixes txn :: "ncb \<Rightarrow> tx_node \<Rightarrow> world \<Rightarrow> (int \<times> tx_node \<times> world) option"
  assumes law: "node_ok x \<Longrightarrow> txn n x w = Some (r, x', w') \<Longrightarrow> txn_law n x w r x' w'"
    and returns: "node_ok x \<Longrightarrow> wcb x - offset x \<le> int (answers (k_send w)) \<Longrightarrow>
        \<exists>r x' w'. txn n x w = Some (r, x', w')"
begin

text \<open>Pushing the front node keeps what has gone out followed by what waits, and every other
  node; the queue stays well-formed.\<close>

lemma front_keeps_stream:
  assumes "fhead (fifo n) = x # xs" "nodes_ok n" "txn n x w = Some (r, x', w')"
  shows "sent (sockfd n) (trace w') @ pend (fhead (fifo (fifo_set_top x' n)))
       = sent (sockfd n) (trace w) @ pend (fhead (fifo n))"
    and "nodes_ok (fifo_set_top x' n)"
  using assms law [of x n w r x' w'] by (auto simp: txn_law_def fifo_set_top_def nodes_ok_def)

text \<open>A success means that all of the node has gone out, so it may be popped.\<close>

lemma front_done:
  assumes "node_ok x" "txn n x w = Some (r, x', w')" "0 \<le> r"
  shows "node_rest x' = []" "sent (sockfd n) (trace w') = sent (sockfd n) (trace w) @ node_rest x"
proof -
  have l: "txn_law n x w r x' w'" by (rule law [OF assms(1,2)])
  with assms(3) have "wcb x' \<le> offset x'" by (auto simp: txn_law_def)
  then show r: "node_rest x' = []" by (rule node_rest_done)
  with l show "sent (sockfd n) (trace w') = sent (sockfd n) (trace w) @ node_rest x"
    by (simp add: txn_law_def)
qed

text \<open>Writing a packet extends the stream, what has gone out followed by what waits, by the packet
  where it reports success, and by some front part of it where it fails; it never overtakes a
  waiting node. The queue stays well-formed, and the memory is freed unless the node waits.\<close>

lemma write_node_stream:
  assumes w: "write_node txn n x w = Some (r, n', w')"
    and ok: "fifo_ok n" "nodes_ok n" "node_ok x"
  shows "fifo_ok n' \<and> nodes_ok n' \<and> sockfd n' = sockfd n \<and> objs w' = objs w
    \<and> (\<exists>k. sent (sockfd n) (trace w') @ pend (fhead (fifo n'))
         = sent (sockfd n) (trace w) @ pend (fhead (fifo n)) @ take k (node_rest x)
         \<and> (0 \<le> r \<longrightarrow> take k (node_rest x) = node_rest x))
    \<and> heap w' = (if r = 0 \<and> fhead (fifo n') \<noteq> [] then heap w else heap w - 2)
    \<and> (r = 0 \<and> 0 < wcb x \<longrightarrow> fhead (fifo n') \<noteq> [])"
proof -
  obtain r1 x1 w1 where t: "(if fifo_is_blocking n = 0 then txn n x w else Some (- EAGAIN, x, w))
      = Some (r1, x1, w1)"
    using w by (auto simp: write_node_def split: Option.bind_splits)
  let ?S = "\<lambda>w. sent (sockfd n) (trace w)"
  have "(\<exists>k. ?S w1 = ?S w @ take k (node_rest x) \<and> node_rest x1 = drop k (node_rest x)
      \<and> (fhead (fifo n) \<noteq> [] \<longrightarrow> k = 0)) \<and> node_ok x1 \<and> (0 \<le> r1 \<longrightarrow> node_rest x1 = [])
      \<and> (r1 \<noteq> - EAGAIN \<longrightarrow> fhead (fifo n) = []) \<and> objs w1 = objs w \<and> heap w1 = heap w
      \<and> (0 \<le> r1 \<longrightarrow> r1 = wcb x)"
  proof (cases "fifo_is_blocking n = 0")
    case True
    with t have tx: "txn n x w = Some (r1, x1, w1)" by simp
    have e: "fhead (fifo n) = []"
      using True ok(1) by (auto simp: fifo_ok_def fifo_is_blocking_def split: if_splits)
    note l = law [OF ok(3) tx]
    from txn_law_taken [OF ok(3) l] l front_done(1) [OF ok(3) tx] e
    show ?thesis
      by (auto simp: txn_law_def)
  next
    case False
    with t ok(3)
    show ?thesis
      by (auto intro: exI [of _ 0])
  qed
  then obtain k where k: "?S w1 = ?S w @ take k (node_rest x)" "node_rest x1 = drop k (node_rest x)"
    "fhead (fifo n) \<noteq> [] \<longrightarrow> k = 0"
    and base: "node_ok x1" "0 \<le> r1 \<longrightarrow> node_rest x1 = []" "r1 \<noteq> - EAGAIN \<longrightarrow> fhead (fifo n) = []"
      "objs w1 = objs w" "heap w1 = heap w" "0 \<le> r1 \<longrightarrow> r1 = wcb x"
    by blast
  show ?thesis
  proof (cases "r1 = - EAGAIN")
    case False
    then have "r = r1" "n' = n" "w' = free (free w1)" using w t by (simp_all add: write_node_def)
    with base False ok k show ?thesis
      by (auto simp: free_def intro!: exI [of _ k])
  next
    case True
    obtain r2 n2 w2 where q: "fifo_queue n x1 w1 = (r2, n2, w2)" by (metis prod_cases3)
    then have res: "(r, n', w') = (if r2 < 0 then (r2, n2, free (free w2)) else (0, n2, w2))"
      using w t True by (auto simp: write_node_def split: if_splits)
    from q show ?thesis
    proof (cases rule: fifo_queueE)
      case refused
      have "pend (fhead (fifo n)) = [] \<or> k = 0" using k(3) by auto
      with res refused ctl_stepD [OF refused(4)] base ok k show ?thesis
        by (auto simp: free_def intro!: exI [of _ k])
    next
      case queued
      have pos: "\<not> r2 < 0" using queued(1) ok(1) by (simp add: fifo_ok_def)
      have "?S w @ take k (node_rest x) @ pend (fhead (fifo n)) @ drop k (node_rest x)
          = ?S w @ pend (fhead (fifo n)) @ node_rest x"
        using k(3) by (cases "fhead (fifo n)") auto
      with res queued pos ctl_stepD [OF queued(4)] base ok k fifo_ok_queue [OF ok(1) q]
      show ?thesis
        by (auto simp: nodes_ok_def intro!: exI [of _ "length (node_rest x)"])
    qed
  qed
qed

lemma frame:
  assumes "node_ok x" "txn n x w = Some (r, x', w')"
  shows "objs w' = objs w" "heap w' = heap w" "epolls w' = epolls w" "k_fail w' = k_fail w"
    "pools w' = pools w" "env w' = env w"
  using law [OF assms] by (auto simp: txn_law_def)

end

section \<open>One loop for the three\<close>

text \<open>\<open>eff\<close> is the system call: \<open>send\<close> on the connection or \<open>sendto\<close> to the node's target.\<close>

function send_loop :: "(byte list \<Rightarrow> effect) \<Rightarrow> tx_node \<Rightarrow> world \<Rightarrow> (int \<times> tx_node \<times> world) option" where
  "send_loop eff x w =
     (if offset x < wcb x then
        case send_call eff (data x) (offset x) (wcb x - offset x) w of
          None \<Rightarrow> None
        | Some (r, w) \<Rightarrow>
            if r = 0 then Some (-1, x, w)
            else if r < 0 then
              if errno w = EAGAIN then Some (- EAGAIN, x, w)
              else if errno w = EINTR then send_loop eff x w
              else Some (-1, x, w)
            else send_loop eff (x\<lparr>offset := offset x + r\<rparr>) w
      else Some (wcb x, x, w))"
  by pat_completeness auto
termination
  by (relation "measure (\<lambda>(eff, x, w). length (k_send w))") (auto dest: send_call_consumes)

declare send_loop.simps [simp del]

text \<open>One system call, as the loop sees it.\<close>

lemma send_call_cases:
  assumes "node_ok x" "offset x < wcb x"
  obtains (none) "send_call eff (data x) (offset x) (wcb x - offset x) w = None" "k_send w = []"
  | (err) e ks where "k_send w = KErr e # ks"
      "send_call eff (data x) (offset x) (wcb x - offset x) w = Some (-1, w\<lparr>k_send := ks, errno := e\<rparr>)"
  | (took) m ks where "k_send w = KRet m # ks"
      "send_call eff (data x) (offset x) (wcb x - offset x) w
         = Some (int (length (take (nat m) (node_rest x))),
                 emit (eff (take (nat m) (node_rest x))) (w\<lparr>k_send := ks\<rparr>))"
proof -
  have g: "buf_get (data x) (offset x) (wcb x - offset x) = Some (node_rest x)"
    using assms by (auto simp: node_ok_def node_rest_def buf_get_def)
  show thesis
    by (cases "k_send w"; cases "hd (k_send w)")
      (auto simp: send_call_def g Let_def intro: none err took)
qed

text \<open>The loop obeys the laws.\<close>

lemma txn_law_stop:
  "node_ok x \<Longrightarrow> offset x < wcb x \<Longrightarrow> r = -1 \<or> r = - EAGAIN \<Longrightarrow>
     txn_law n x w r x (w\<lparr>k_send := ks, errno := e\<rparr>)"
  unfolding txn_law_def
  by (intro conjI exI [of _ "offset x"] exI [of _ "trace w"] exI [of _ ks] exI [of _ e]) auto

lemma send_frame_refl: "\<exists>t k e. (w :: world) = w\<lparr>trace := t, k_send := k, errno := e\<rparr>"
  by (intro exI [of _ "trace w"] exI [of _ "k_send w"] exI [of _ "errno w"]) simp

lemma txn_law_more:
  assumes "txn_law n (x\<lparr>offset := offset x + int k\<rparr>) w1 r x' w'" "node_ok x"
    "w1 = w\<lparr>trace := trace w @ es, k_send := ks, errno := e\<rparr>"
    "sent (sockfd n) es = take k (node_rest x)" "\<forall>g. ref_balance g es = 0" "int k \<le> wcb x - offset x"
  shows "txn_law n x w r x' w'"
  using assms node_rest_advance [of x k] unfolding txn_law_def
  by (auto simp del: append_assoc simp: append_assoc [symmetric])
    (metis append_assoc append_take_drop_id)+

lemma send_loop_law:
  "(\<And>bs. sent (sockfd n) [eff bs] = bs \<and> (\<forall>g. ref_balance g [eff bs] = 0)) \<Longrightarrow> node_ok x \<Longrightarrow> send_loop eff x w = Some (r, x', w') \<Longrightarrow>
     txn_law n x w r x' w'"
proof (induction eff x w rule: send_loop.induct)
  case (1 eff x w)
  show ?case
  proof (cases "offset x < wcb x")
    case False
    with "1.prems" show ?thesis
      by (subst (asm) send_loop.simps)
        (use send_frame_refl in \<open>auto simp: txn_law_def node_ok_def intro: exI [of _ "offset x"]\<close>)
  next
    case lt: True
    note step = send_loop.simps [of eff x w]
    from "1.prems"(2) lt show ?thesis
    proof (cases rule: send_call_cases [of x eff w])
      case none
      with "1.prems"(3) lt show ?thesis by (subst (asm) step) simp
    next
      case (err e ks)
      let ?w = "w\<lparr>k_send := ks, errno := e\<rparr>"
      show ?thesis
      proof (cases "e = EINTR")
        case True
        have "send_loop eff x ?w = Some (r, x', w')"
          using "1.prems"(3) lt err True by (subst (asm) step) simp
        then have "txn_law n x ?w r x' w'"
          using "1.IH"(1) [OF lt err(2)] "1.prems"(1,2) True by simp
        then show ?thesis
          by (intro txn_law_more [where k = 0 and es = "[]" and ks = ks and e = e, OF _ "1.prems"(2)])
            (use lt in simp_all)
      next
        case False
        then have "(r = -1 \<or> r = - EAGAIN) \<and> x' = x \<and> w' = ?w"
          using "1.prems"(3) lt err by (subst (asm) step) (auto split: if_splits)
        then show ?thesis using txn_law_stop [OF "1.prems"(2) lt] by blast
      qed
    next
      case (took m ks)
      define bs where "bs = take (nat m) (node_rest x)"
      let ?w = "emit (eff bs) (w\<lparr>k_send := ks\<rparr>)"
      have call: "send_call eff (data x) (offset x) (wcb x - offset x) w = Some (int (length bs), ?w)"
        using took by (simp add: bs_def)
      have lb: "int (length bs) \<le> wcb x - offset x"
        using length_node_rest [OF "1.prems"(2)] by (simp add: bs_def)
      have w: "?w = w\<lparr>trace := trace w @ [eff bs], k_send := ks, errno := errno w\<rparr>"
        by (cases w) (simp add: emit_def)
      have sb: "sent (sockfd n) [eff bs] = take (length bs) (node_rest x)"
        "\<forall>g. ref_balance g [eff bs] = 0"
        using "1.prems"(1) by (simp_all add: bs_def min_def)
      show ?thesis
      proof (cases "bs = []")
        case True
        then have "r = -1 \<and> x' = x \<and> w' = ?w"
          using "1.prems"(3) lt call by (subst (asm) step) simp
        moreover have "txn_law n x ?w (-1) x (?w\<lparr>k_send := k_send ?w, errno := errno ?w\<rparr>)"
          by (rule txn_law_stop [OF "1.prems"(2) lt]) simp
        then have "txn_law n x ?w (-1) x ?w" by (cases w) (simp add: emit_def)
        then have "txn_law n x w (-1) x ?w"
          by (intro txn_law_more [where k = 0, OF _ "1.prems"(2) w]) (use sb True lt in simp_all)
        ultimately show ?thesis by simp
      next
        case False
        have "send_loop eff (x\<lparr>offset := offset x + int (length bs)\<rparr>) ?w = Some (r, x', w')"
          using "1.prems"(3) lt call False by (subst (asm) step) simp
        then have "txn_law n (x\<lparr>offset := offset x + int (length bs)\<rparr>) ?w r x' w'"
          using "1.IH"(2) [OF lt call] "1.prems"(1) node_rest_advance(1) [OF "1.prems"(2) lb] False
          by simp
        then show ?thesis by (rule txn_law_more [OF _ "1.prems"(2) w sb(1,2) lb])
      qed
    qed
  qed
qed

text \<open>And it returns: every answer but an interruption takes a byte or ends the loop.\<close>

lemma send_loop_returns:
  "node_ok x \<Longrightarrow> wcb x - offset x \<le> int (answers (k_send w)) \<Longrightarrow>
     \<exists>r x' w'. send_loop eff x w = Some (r, x', w')"
proof (induction eff x w rule: send_loop.induct)
  case (1 eff x w)
  show ?case
  proof (cases "offset x < wcb x")
    case False
    then show ?thesis by (subst send_loop.simps) simp
  next
    case lt: True
    note step = send_loop.simps [of eff x w]
    from "1.prems"(1) lt show ?thesis
    proof (cases rule: send_call_cases [of x eff w])
      case none
      with "1.prems"(2) lt show ?thesis by (simp add: answers_def)
    next
      case (err e ks)
      show ?thesis
      proof (cases "e = EINTR")
        case True
        have "\<exists>r x' w'. send_loop eff x (w\<lparr>k_send := ks, errno := e\<rparr>) = Some (r, x', w')"
          using "1.IH"(1) [OF lt err(2)] "1.prems" True err(1) by (simp add: answers_def)
        then show ?thesis using lt err True by (subst step) simp
      next
        case False
        then show ?thesis using lt err by (subst step) simp
      qed
    next
      case (took m ks)
      define bs where "bs = take (nat m) (node_rest x)"
      let ?w = "emit (eff bs) (w\<lparr>k_send := ks\<rparr>)"
      have call: "send_call eff (data x) (offset x) (wcb x - offset x) w = Some (int (length bs), ?w)"
        using took by (simp add: bs_def)
      have lb: "int (length bs) \<le> wcb x - offset x"
        using length_node_rest [OF "1.prems"(1)] by (simp add: bs_def)
      show ?thesis
      proof (cases "bs = []")
        case True
        then show ?thesis using lt call by (subst step) simp
      next
        case False
        have "1 \<le> int (length bs)" using False by (cases bs) auto
        moreover have "answers (k_send w) = Suc (answers ks)" by (simp add: answers_def took(1))
        ultimately have "\<exists>r x' w'. send_loop eff (x\<lparr>offset := offset x + int (length bs)\<rparr>) ?w = Some (r, x', w')"
          using "1.IH"(2) [OF lt call] "1.prems" node_rest_advance(1) [OF "1.prems"(1) lb] False
          by simp
        then show ?thesis using lt call False by (subst step) simp
      qed
    qed
  qed
qed

text \<open>A kernel with room for the whole node takes it at once.\<close>

lemma send_loop_once:
  assumes "node_ok x" "offset x < wcb x" "k_send w = KRet m # ks" "wcb x - offset x \<le> m"
  shows "send_loop eff x w =
    Some (wcb x, x\<lparr>offset := wcb x\<rparr>, emit (eff (node_rest x)) (w\<lparr>k_send := ks\<rparr>))"
  using assms(1,2)
proof (cases rule: send_call_cases [of x eff w])
  case (took m' ks')
  have l: "int (length (node_rest x)) = wcb x - offset x" by (rule length_node_rest [OF assms(1)])
  then have t: "take (nat m') (node_rest x) = node_rest x" using took(1) assms(3,4) by simp
  show ?thesis
    using took assms l by (subst send_loop.simps) (simp add: t send_loop.simps)
qed (use assms in auto)

end
