(* ===== verification/Tcpopt.thy ===== *)
theory Tcpopt
  imports Ncb
begin

text \<open>
  tcp.c, the options of a connection: its kernel state (\<open>tcp_save_info\<close>), the segment size,
  Nagle's algorithm, corking and keep-alive, and \<open>tcp_update_opts\<close>, which every connection gets.
  The option store of theory World is read back, so setting and getting are inverse. An \<open>ncb\<close>
  pointer of these calls is never null.
\<close>

section \<open>Names of states\<close>

text \<open>For the log. \<open>expr\<close> is the text of the macro's argument, which names a state that is out of range.\<close>

definition TCP_KERNEL_STATE_NAME :: "string list" where
  "TCP_KERNEL_STATE_NAME = [''TCP_UNDEFINED'', ''TCP_ESTABLISHED'', ''TCP_SYN_SENT'', ''TCP_SYN_RECV'',
     ''TCP_FIN_WAIT1'', ''TCP_FIN_WAIT2'', ''TCP_TIME_WAIT'', ''TCP_CLOSE'', ''TCP_CLOSE_WAIT'',
     ''TCP_LAST_ACK'', ''TCP_LISTEN'', ''TCP_CLOSING'']"

definition tcp_state2name :: "string \<Rightarrow> int \<Rightarrow> string" where
  "tcp_state2name expr stat = (if stat \<ge> 0 \<and> stat < 12 then TCP_KERNEL_STATE_NAME ! nat stat
     else ''MalformedState:'' @ expr)"

section \<open>Operations\<close>

text \<open>\<open>tcpi_state\<close> as the kernel answers it; a failing call leaves the structure unread.\<close>

definition tcp_save_info :: "ncb \<Rightarrow> world \<Rightarrow> (int \<times> int \<times> world) option" where
  "tcp_save_info n w = (case k_tcpinfo w of [] \<Rightarrow> None
     | None # ks \<Rightarrow> Some (-1, 0, w\<lparr>k_tcpinfo := ks\<rparr>)
     | Some st # ks \<Rightarrow> Some (0, st, w\<lparr>k_tcpinfo := ks\<rparr>))"

definition tcp_setmss :: "ncb \<Rightarrow> int \<Rightarrow> world \<Rightarrow> int \<times> world" where
  "tcp_setmss n seg w = (if seg > 0 then setsockopt (sockfd n) TCP_MAXSEG [seg] w else (- EINVAL, w))"

definition tcp_getmss :: "ncb \<Rightarrow> world \<Rightarrow> int \<times> ncb \<times> world" where
  "tcp_getmss n w = (let (r, v, w) = getsockopt (sockfd n) TCP_MAXSEG w
     in (r, if r < 0 then n else n\<lparr>tcp := (tcp n)\<lparr>mss := opt1 (mss (tcp n)) v\<rparr>\<rparr>, w))"

definition tcp_set_nodelay :: "ncb \<Rightarrow> int \<Rightarrow> world \<Rightarrow> int \<times> world" where
  "tcp_set_nodelay n on w = setsockopt (sockfd n) TCP_NODELAY [on] w"

text \<open>The variable the caller passes holds \<open>old\<close>; what it holds afterwards is the second result.\<close>

definition tcp_get_nodelay :: "ncb \<Rightarrow> int \<Rightarrow> world \<Rightarrow> int \<times> int \<times> world" where
  "tcp_get_nodelay n old w = (let (r, v, w) = getsockopt (sockfd n) TCP_NODELAY w
     in (r, if r < 0 then old else opt1 old v, w))"

definition tcp_set_cork :: "ncb \<Rightarrow> int \<Rightarrow> world \<Rightarrow> int \<times> world" where
  "tcp_set_cork n on w = setsockopt (sockfd n) TCP_CORK [on] w"

definition tcp_get_cork :: "ncb \<Rightarrow> int \<Rightarrow> world \<Rightarrow> int \<times> int \<times> world" where
  "tcp_get_cork n old w = (let (r, v, w) = getsockopt (sockfd n) TCP_CORK w
     in (r, if r < 0 then old else opt1 old v, w))"

definition tcp_set_keepalive :: "ncb \<Rightarrow> int \<Rightarrow> world \<Rightarrow> int \<times> world" where
  "tcp_set_keepalive n enable w = setsockopt (sockfd n) SO_KEEPALIVE [enable] w"

definition tcp_get_keepalive :: "ncb \<Rightarrow> int \<Rightarrow> world \<Rightarrow> int \<times> int \<times> world" where
  "tcp_get_keepalive n old w = (let (r, v, w) = getsockopt (sockfd n) SO_KEEPALIVE w
     in (r, if r < 0 then old else opt1 old v, w))"

text \<open>\<open>enabled\<close> is not initialised by the code; the call writes it or the function returns. The
  \<open>0\<close> stands for a socket whose option the store does not hold yet, as the kernel starts it.\<close>

definition tcp_set_keepalive_value :: "ncb \<Rightarrow> int \<Rightarrow> int \<Rightarrow> int \<Rightarrow> world \<Rightarrow> int \<times> world" where
  "tcp_set_keepalive_value n idle interval probes w =
     (let (r, enabled, w) = tcp_get_keepalive n 0 w in
      if r < 0 then (-1, w) else if enabled = 0 then (-1, w) else
      let (r, w) = setsockopt (sockfd n) TCP_KEEPIDLE [idle] w in
      if r < 0 then (-1, w) else
      let (r, w) = setsockopt (sockfd n) TCP_KEEPINTVL [interval] w in
      if r < 0 then (-1, w) else
      let (r, w) = setsockopt (sockfd n) TCP_KEEPCNT [probes] w in
      if r < 0 then (-1, w) else (0, w))"

text \<open>A null pointer among the three leaves its option unread.\<close>

definition get_if :: "ncb \<Rightarrow> sockopt \<Rightarrow> int option \<Rightarrow> world \<Rightarrow> int \<times> int option \<times> world" where
  "get_if n opt p w = (case p of None \<Rightarrow> (0, None, w)
     | Some old \<Rightarrow> (let (r, v, w) = getsockopt (sockfd n) opt w
         in (r, Some (if r < 0 then old else opt1 old v), w)))"

definition tcp_get_keepalive_value ::
  "ncb \<Rightarrow> int option \<Rightarrow> int option \<Rightarrow> int option \<Rightarrow> world
     \<Rightarrow> int \<times> (int option \<times> int option \<times> int option) \<times> world" where
  "tcp_get_keepalive_value n idle interval probes w =
     (let (r, enabled, w) = tcp_get_keepalive n 0 w in
      if r < 0 then (-1, (idle, interval, probes), w)
      else if enabled = 0 then (-1, (idle, interval, probes), w) else
      let (r, idle, w) = get_if n TCP_KEEPIDLE idle w in
      if r < 0 then (-1, (idle, interval, probes), w) else
      let (r, interval, w) = get_if n TCP_KEEPINTVL interval w in
      if r < 0 then (-1, (idle, interval, probes), w) else
      let (r, probes, w) = get_if n TCP_KEEPCNT probes w in
      if r < 0 then (-1, (idle, interval, probes), w) else (0, (idle, interval, probes), w))"

text \<open>The results are ignored: a connection without these options is still a connection.\<close>

definition tcp_update_opts :: "ncb \<Rightarrow> world \<Rightarrow> world" where
  "tcp_update_opts n w =
     (let (_, w) = tcp_set_keepalive n 1 w;
          (_, w) = tcp_set_keepalive_value n 30 5 6 w;
          (_, w) = tcp_set_nodelay n 1 w
      in w)"

section \<open>Facts\<close>

text \<open>A step that may only move the option store.\<close>

definition opt_step :: "world \<Rightarrow> world \<Rightarrow> bool" where
  "opt_step w w' \<longleftrightarrow> (\<exists>f e s. w' = w\<lparr>k_fail := f, errno := e, sockopts := s\<rparr>)"

lemma opt_step_refl [simp]: "opt_step w w"
  unfolding opt_step_def
  by (intro exI [of _ "k_fail w"] exI [of _ "errno w"] exI [of _ "sockopts w"]) simp

lemma opt_step_trans [trans]: "opt_step w w' \<Longrightarrow> opt_step w' w'' \<Longrightarrow> opt_step w w''"
  by (auto simp: opt_step_def; blast)

lemma opt_stepI:
  "opt_step w (w\<lparr>k_fail := f, errno := e\<rparr>)"
  "opt_step w (w\<lparr>k_fail := f, errno := e, sockopts := s\<rparr>)"
  by (cases w; auto simp: opt_step_def; blast)+

lemma opt_step_setsockopt: "opt_step w (snd (setsockopt fd opt v w))"
proof -
  obtain r w1 where c: "simple_call SYS_setsockopt w = (r, w1)" by fastforce
  then obtain f e where "w1 = w\<lparr>k_fail := f, errno := e\<rparr>" by (auto dest: simple_callD)
  then show ?thesis
    by (auto simp: setsockopt_def c intro: opt_stepI)
qed

lemma opt_step_getsockopt: "opt_step w (snd (snd (getsockopt fd opt w)))"
proof -
  obtain r w1 where c: "simple_call SYS_getsockopt w = (r, w1)" by fastforce
  then obtain f e where "w1 = w\<lparr>k_fail := f, errno := e\<rparr>" by (auto dest: simple_callD)
  then show ?thesis
    by (auto simp: getsockopt_def c intro: opt_stepI)
qed

lemma setsockopt_step: "setsockopt fd opt v w = (r, w') \<Longrightarrow> opt_step w w'"
  using opt_step_setsockopt [of w fd opt v] by simp

lemma getsockopt_step: "getsockopt fd opt w = (r, u, w') \<Longrightarrow> opt_step w w'"
  using opt_step_getsockopt [of w fd opt] by simp

lemma keepalive_value_step:
  "tcp_set_keepalive_value n i j k w = (r, w') \<Longrightarrow> opt_step w w'"
  unfolding tcp_set_keepalive_value_def tcp_get_keepalive_def Let_def
  by (auto split: prod.splits if_splits dest!: setsockopt_step getsockopt_step intro: opt_step_trans)

lemma update_opts_step: "opt_step w (tcp_update_opts n w)"
  unfolding tcp_update_opts_def tcp_set_keepalive_def tcp_set_nodelay_def
  by (auto split: prod.splits dest!: setsockopt_step keepalive_value_step intro: opt_step_trans)

lemma opt_stepD:
  assumes "opt_step w w'"
  shows "trace w' = trace w" "objs w' = objs w" "env w' = env w" "k_send w' = k_send w"
    "heap w' = heap w" "epolls w' = epolls w" "pools w' = pools w" "k_tcpinfo w' = k_tcpinfo w"
    "k_recv w' = k_recv w" "iobs w' = iobs w" "nl_head w' = nl_head w" "nl_count w' = nl_count w"
    "k_accept w' = k_accept w" "k_newobj w' = k_newobj w" "junk w' = junk w"
  using assms by (auto simp: opt_step_def)

text \<open>Every connection is kept alive and sends at once.\<close>

lemma update_opts_values:
  assumes "k_fail w SYS_setsockopt = []" "k_fail w SYS_getsockopt = []"
  shows "sockopts (tcp_update_opts n w) (sockfd n) = (sockopts w (sockfd n))
    (SO_KEEPALIVE := [1], TCP_KEEPIDLE := [30], TCP_KEEPINTVL := [5], TCP_KEEPCNT := [6],
     TCP_NODELAY := [1])"
  using assms
  by (simp add: tcp_update_opts_def tcp_set_keepalive_def tcp_set_keepalive_value_def
      tcp_get_keepalive_def tcp_set_nodelay_def setsockopt_ok getsockopt_ok opt1_def)

text \<open>The keep-alive parameters are refused while keep-alive is off, and read back once it is on.\<close>

lemma keepalive_value_roundtrip:
  assumes "k_fail w SYS_setsockopt = []" "k_fail w SYS_getsockopt = []"
  shows "case tcp_set_keepalive_value n i j k w of (r, w') \<Rightarrow>
      if opt1 0 (sockopts w (sockfd n) SO_KEEPALIVE) = 0 then r = -1 \<and> w' = w
      else r = 0 \<and> (case tcp_get_keepalive_value n (Some a) (Some b) (Some c) w' of (s, v, _) \<Rightarrow>
             s = 0 \<and> v = (Some i, Some j, Some k))"
  using assms
  by (simp add: tcp_set_keepalive_value_def tcp_get_keepalive_value_def tcp_get_keepalive_def
      get_if_def setsockopt_ok getsockopt_ok Let_def opt1_def)

lemma nodelay_roundtrip:
  assumes "k_fail w SYS_setsockopt = []" "k_fail w SYS_getsockopt = []"
  shows "fst (snd (tcp_get_nodelay n old (snd (tcp_set_nodelay n v w)))) = v"
  using assms by (simp add: tcp_get_nodelay_def tcp_set_nodelay_def setsockopt_ok getsockopt_ok opt1_def)

lemma cork_roundtrip:
  assumes "k_fail w SYS_setsockopt = []" "k_fail w SYS_getsockopt = []"
  shows "fst (snd (tcp_get_cork n old (snd (tcp_set_cork n v w)))) = v"
  using assms by (simp add: tcp_get_cork_def tcp_set_cork_def setsockopt_ok getsockopt_ok opt1_def)

lemma mss_roundtrip:
  assumes "k_fail w SYS_setsockopt = []" "k_fail w SYS_getsockopt = []" "0 < v"
  shows "mss (tcp (fst (snd (tcp_getmss n (snd (tcp_setmss n v w)))))) = v"
  using assms by (simp add: tcp_getmss_def tcp_setmss_def setsockopt_ok getsockopt_ok opt1_def)

end
