(* ===== verification/Tcpio.thy ===== *)
theory Tcpio
  imports Tcp_stream Txn Tcpopt
begin

text \<open>
  tcpio.c: the handlers that the epoll threads and the worker threads call on a TCP link, that is
  accepting (\<open>tcp_syn\<close>), receiving (\<open>tcp_rx\<close>), sending (\<open>tcp_txn\<close>, \<open>tcp_tx\<close>) and completing an
  asynchronous connect (\<open>tcp_tx_syn\<close>, \<open>tcp_rx_syn\<close>). A function whose C name starts with two
  underscores has the prefix \<open>i_\<close> here. A handler takes the block it works on and returns it
  changed; its \<open>int\<close> result steers the caller.
\<close>

section \<open>Accepting\<close>

abbreviation (input) TCP_ESTABLISHED :: int where "TCP_ESTABLISHED \<equiv> 1"
abbreviation (input) TCP_CLOSE :: int where "TCP_CLOSE \<equiv> 7"
abbreviation (input) TCP_LISTEN :: int where "TCP_LISTEN \<equiv> 10"

text \<open>The answer is the status, the new descriptor and the control code.\<close>

definition i_tcp_syn_try :: "ncb \<Rightarrow> world \<Rightarrow> (int \<times> int \<times> int \<times> world) option" where
  "i_tcp_syn_try server w = do {
     (clientfd, w) \<leftarrow> accept_call w;
     (if clientfd < 0 then
        let e = errno w;
            ctrlcode = (if e = EINTR \<or> e = ECONNABORTED then 0
                        else if e = EAGAIN then EAGAIN
                        else if e = ENFILE \<or> e = ENOBUFS \<or> e = ENOMEM \<or> e = EPERM then e
                        else -1)
        in Some (-1, clientfd, ctrlcode, w)
      else Some (0, clientfd, 1, w))
   }"

definition i_tcp_syn_dpc :: "ncb \<Rightarrow> ncb \<Rightarrow> world \<Rightarrow> (int \<times> ncb \<times> world) option" where
  "i_tcp_syn_dpc server n w =
     (let (ra, w) = getname (remot_addr n) w;
          (la, w) = getname (local_addr n) w;
          n = n\<lparr>remot_addr := ra, local_addr := la\<rparr>;
          w = tcp_update_opts n w;
          w = snd (ncb_set_linger n 1 0 w);
          (p, w) = malloc TCP_BUFFER_SIZE w;
          n = n\<lparr>packet := p\<rparr>
      in if p = None then Some (- ENOMEM, n, w) else
      let n = n\<lparr>tcp := (tcp n)\<lparr>rx_parse_offset := 0\<rparr>\<rparr>;
          (b, w) = malloc TCP_BUFFER_SIZE w;
          n = n\<lparr>tcp := (tcp n)\<lparr>rx_buffer := b\<rparr>\<rparr>
      in if b = None then Some (- ENOMEM, n, w) else
      let n = n\<lparr>ncb_read := Some R_tcp_rx, ncb_write := Some W_tcp_tx\<rparr>;
          n = (if attr server AND LINKATTR_TCP_UPDATE_ACCEPT_CONTEXT (env w) \<noteq> 0
               then n\<lparr>attr := attr server, tcp := (tcp n)\<lparr>template := template (tcp server)\<rparr>\<rparr>
               else n)
      in do {
        (r, n, w) \<leftarrow> io_attach n 0 w;
        (if r < 0 then Some (-1, n, w)
         else let w = ncb_post_accepted server (hld n) w;
                  (_, w) = io_modify n EPOLLIN w
              in Some (0, n, w))
      })"

definition i_tcp_syn :: "ncb \<Rightarrow> world \<Rightarrow> (int \<times> world) option" where
  "i_tcp_syn server w = do {
     (r, tcpi_state, w) \<leftarrow> tcp_save_info server w;
     (if r \<ge> 0 \<and> tcpi_state \<noteq> TCP_LISTEN then Some (0, w)
      else do {
        (retval, clientfd, ctrlcode, w) \<leftarrow> i_tcp_syn_try server w;
        (if retval \<ge> 0 then do {
           (h, w) \<leftarrow> objallo_ncb w;
           (if h < 0 then Some (0, emit (Close clientfd) w)
            else let (p, w) = objrefr h w in do {
              n \<leftarrow> p;
              let n = n\<lparr>sockfd := clientfd, hld := h, protocol := IPPROTO_TCP,
                        nis_callback := nis_callback server\<rparr>;
              (r, n, w) \<leftarrow> i_tcp_syn_dpc server n w;
              let w = put_ncb h n w;
              let w = (if r < 0 then objclos h w else w);
              Some (0, objdefr h w)
            })
         }
         else Some (ctrlcode, w))
      })
   }"

partial_function (option) tcp_syn :: "ncb \<Rightarrow> world \<Rightarrow> (int \<times> world) option" where
  "tcp_syn server w = do {
     (r, w) \<leftarrow> i_tcp_syn server w;
     (if r = 0 then tcp_syn server w else Some (r, w))
   }"

section \<open>Receiving\<close>

text \<open>The inner loop of \<open>__tcp_rx\<close>: the bytes at \<open>off\<close> in the receive buffer, \<open>cpcb\<close> of them, are
  parsed until none is left.\<close>

partial_function (option) tcp_parse_all ::
  "ncb \<Rightarrow> byte list \<Rightarrow> int \<Rightarrow> int \<Rightarrow> world \<Rightarrow> (int \<times> ncb \<times> world) option" where
  "tcp_parse_all n buf off cpcb w = do {
     (overplus, n, w) \<leftarrow> tcp_parse_pkt n (drop (nat off) buf) cpcb w;
     (if overplus < 0 then Some (-1, n, w)
      else if overplus > 0 then tcp_parse_all n buf (off + (cpcb - overplus)) overplus w
      else Some (0, n, w))
   }"

definition i_tcp_rx :: "ncb \<Rightarrow> world \<Rightarrow> (int \<times> ncb \<times> world) option" where
  "i_tcp_rx n w = do {
     buf \<leftarrow> rx_buffer (tcp n);
     (recvcb, bs, _, w) \<leftarrow> recv_call TCP_BUFFER_SIZE w;
     buf \<leftarrow> buf_put buf 0 bs;
     let n = n\<lparr>tcp := (tcp n)\<lparr>rx_buffer := Some buf\<rparr>\<rparr>;
     (if recvcb > 0 then tcp_parse_all n buf 0 recvcb w
      else if recvcb = 0 then Some (- ECONNRESET, n, w)
      else if errno w = EINTR then Some (0, n, w)
      else if errno w = EAGAIN then Some (EAGAIN, n, w)
      else Some (-1, n, w))
   }"

partial_function (option) tcp_rx :: "ncb \<Rightarrow> world \<Rightarrow> (int \<times> ncb \<times> world) option" where
  "tcp_rx n w = do {
     (r, n, w) \<leftarrow> i_tcp_rx n w;
     (if r = 0 then tcp_rx n w else Some (r, n, w))
   }"

section \<open>Sending\<close>

function tcp_txn :: "ncb \<Rightarrow> tx_node \<Rightarrow> world \<Rightarrow> (int \<times> tx_node \<times> world) option" where
  "tcp_txn n node w =
     (if offset node < wcb node then
        case send_call (Send (sockfd n)) (data node) (offset node) (wcb node - offset node) w of
          None \<Rightarrow> None
        | Some (r, w) \<Rightarrow>
            if r = 0 then Some (-1, node, w)
            else if r < 0 then
              if errno w = EAGAIN then Some (- EAGAIN, node, w)
              else if errno w = EINTR then tcp_txn n node w
              else Some (-1, node, w)
            else tcp_txn n (node\<lparr>offset := offset node + r\<rparr>) w
      else Some (wcb node, node, w))"
  by pat_completeness auto
termination
  by (relation "measure (\<lambda>(n, x, w). length (k_send w))") (auto dest: send_call_consumes)

declare tcp_txn.simps [simp del]

definition tcp_tx :: "ncb \<Rightarrow> world \<Rightarrow> (int \<times> ncb \<times> world) option" where
  "tcp_tx n w = do {
     (r, tcpi_state, w) \<leftarrow> tcp_save_info n w;
     (if r \<ge> 0 \<and> tcpi_state \<noteq> TCP_ESTABLISHED then Some (-1, n, w)
      else case fifo_top n of
        Some node \<Rightarrow> do {
          (r, node, w) \<leftarrow> tcp_txn n node w;
          Some (r, fifo_set_top node n, w)
        }
      | None \<Rightarrow> Some (0, n, w))
   }"

section \<open>Completing a connect\<close>

definition i_tcp_check_syn_result :: "world \<Rightarrow> (int \<times> int \<times> world) option" where
  "i_tcp_check_syn_result w = do {
     (r, error, w) \<leftarrow> soerror_call w;
     let error = (if r < 0 then errno w else error);
     Some (if error = 0 then 0 else -1, error, w)
   }"

lemma check_syn_consumes:
  "i_tcp_check_syn_result w = Some (r, e, w') \<Longrightarrow> length (k_soerror w') < length (k_soerror w)"
  by (auto simp: i_tcp_check_syn_result_def soerror_call_def split: Option.bind_splits list.splits kans.splits)

function tcp_tx_syn :: "ncb \<Rightarrow> world \<Rightarrow> (int \<times> ncb \<times> world) option" where
  "tcp_tx_syn n w =
     (case i_tcp_check_syn_result w of None \<Rightarrow> None
      | Some (r, e, w) \<Rightarrow>
        if r = 0 then
          let w = tcp_update_opts n w;
              (ra, w) = getname (remot_addr n) w;
              (la, w) = getname (local_addr n) w;
              n = n\<lparr>remot_addr := ra, local_addr := la\<rparr>;
              (s, w) = io_modify n EPOLLIN w
          in if s < 0 then Some (-1, n, objclos (hld n) w)
             else let n = n\<lparr>ncb_read := Some R_tcp_rx, ncb_write := Some W_tcp_tx\<rparr>
                  in Some (0, n, ncb_post_connected n w)
        else if e = EISCONN \<or> e = EALREADY then Some (0, n, w)
        else if e = EINTR then tcp_tx_syn n w
        else if e = EAGAIN then Some (- EAGAIN, n, w)
        else Some (-1, n, w))"
  by pat_completeness auto
termination
  by (relation "measure (\<lambda>(n, w). length (k_soerror w))") (auto dest: check_syn_consumes)

declare tcp_tx_syn.simps [simp del]

definition tcp_rx_syn :: "ncb \<Rightarrow> world \<Rightarrow> (int \<times> world) option" where
  "tcp_rx_syn n w = do {
     (r, error, w) \<leftarrow> soerror_call w;
     Some (if r = 0 \<and> error = 0 then 0 else -1, w)
   }"

section \<open>The send loop obeys the contract\<close>

lemma tcp_txn_loop: "tcp_txn n x w = send_loop (Send (sockfd n)) x w"
proof (induction n x w rule: tcp_txn.induct)
  case (1 n x w)
  show ?case
    by (subst tcp_txn.simps, subst send_loop.simps)
      (auto simp: "1.IH" split: option.split)
qed

interpretation tcp_s: sender tcp_txn
proof
  show "txn_law n x w r x' w'" if "node_ok x" "tcp_txn n x w = Some (r, x', w')" for n x w r x' w'
    using that send_loop_law [of n "Send (sockfd n)" x w r x' w'] by (simp add: tcp_txn_loop)
  show "\<exists>r x' w'. tcp_txn n x w = Some (r, x', w')"
    if "node_ok x" "wcb x - offset x \<le> int (answers (k_send w))" for n x w
    using send_loop_returns [OF that] by (simp add: tcp_txn_loop)
qed

end
