(* ===== verification/Tcp_rx.thy ===== *)
theory Tcp_rx
  imports Tcpio
begin

text \<open>
  Receiving on a TCP link, end to end: \<open>tcp_rx\<close> reads the socket until it is empty and hands
  every complete packet to the user. Whatever pieces the kernel cuts the stream into, the packets
  delivered are those of \<open>deframe\<close> on the whole stream, in order, and the bytes held back are the
  incomplete rest. The one exception is a packet larger than the receive buffer whose head falls
  across two pieces; it is treated in the last section.
\<close>

section \<open>One piece of the stream\<close>

lemma delivered_env: "env w' = env w \<Longrightarrow> delivered n w' = delivered n w"
  by (auto simp: fun_eq_iff delivered_def fully_receive_def split: option.split)

lemma rx_env_env: "rx_env w w' \<Longrightarrow> env w' = env w \<and> k_fail w' = k_fail w \<and> k_recv w' = k_recv w"
  by (auto dest!: rx_envD)

text \<open>What parsing \<open>s\<close>, the bytes held back and those that arrived, amounts to.\<close>

definition rx_result :: "ncb \<Rightarrow> byte list \<Rightarrow> world \<Rightarrow> int \<Rightarrow> ncb \<Rightarrow> world \<Rightarrow> bool" where
  "rx_result n s w r n' w' \<longleftrightarrow> rx_same n n' \<and> rx_env w w'
     \<and> (case deframe (hlen n) (hsize n) s of (fs, rest, ok) \<Rightarrow>
          trace w' = trace w @ concat (map (delivered n w) fs)
          \<and> (if ok then r = 0 \<and> rx_pending n' = rest \<and> rx_ok n' else r = -1))"

text \<open>What is held back is always less than a packet.\<close>

lemma pending_cases:
  assumes "rx_ok n"
  shows "length (rx_pending n) < hlen n \<or> (\<exists>k. hsize n (take (hlen n) (rx_pending n)) = Some k
    \<and> hlen n \<le> length (rx_pending n) \<and> length (rx_pending n) < hlen n + k)"
proof (cases "ncb_lb_marked n")
  case True
  with assms obtain lb k' where lb: "lbdata (tcp n) = Some lb" "int (length lb) = lbsize (tcp n)"
    "int (hlen n) \<le> lboffset (tcp n)" "lboffset (tcp n) < lbsize (tcp n)"
    "hsize n (take (hlen n) lb) = Some k'" "lbsize (tcp n) = int (hlen n + k')"
    by (auto simp: rx_ok_def)
  have p: "rx_pending n = take (nat (lboffset (tcp n))) lb" using True lb by (simp add: rx_pending_def)
  have "take (hlen n) (rx_pending n) = take (hlen n) lb"
    unfolding p using lb(3) by (simp add: min_def nat_le_iff le_nat_iff)
  with lb p show ?thesis by (intro disjI2 exI [of _ k']) auto
next
  case False
  with assms show ?thesis by (auto simp: rx_ok_def not_less)
qed

lemma pending_short:
  "rx_ok n \<Longrightarrow> front_of (hlen n) (hsize n) (rx_pending n @ bs) = Frame k \<Longrightarrow>
     length (rx_pending n) < hlen n + k"
  using pending_cases [of n] by (auto simp: front_of_def split: if_splits option.splits)

lemma pending_idle:
  "rx_ok n \<Longrightarrow> deframe (hlen n) (hsize n) (rx_pending n) = ([], rx_pending n, True)"
proof -
  assume ok: "rx_ok n"
  then have "0 < hlen n" by (simp add: rx_ok_def)
  with pending_cases [OF ok] show ?thesis by (auto simp: deframe_front front_of_def)
qed

lemma not_split_empty: "rx_pending n = [] \<Longrightarrow> \<not> splits_large_head n bs"
  by (simp add: splits_large_head_def)

lemma parse_all:
  assumes "rx_ok n" "head_parser (template (tcp n))" "0 < c" "off + c \<le> length buf"
    "int c \<le> TCP_BUFFER_SIZE" "\<not> splits_large_head n (take c (drop off buf))"
    "k_fail w SYS_malloc = []"
  shows "\<exists>r n' w'. tcp_parse_all n buf (int off) (int c) w = Some (r, n', w')
     \<and> rx_result n (rx_pending n @ take c (drop off buf)) w r n' w'"
  using assms
proof (induction c arbitrary: n off w rule: less_induct)
  case (less c)
  define s where "s = rx_pending n @ take c (drop off buf)"
  from less.prems have h: "0 < hlen n" by (simp add: rx_ok_def)
  have "c \<le> length (drop off buf)" using less.prems by simp
  with parse_step [of n c "drop off buf" w] less.prems obtain r n1 w1 where
    r: "tcp_parse_pkt n (drop off buf) (int c) w = Some (r, n1, w1)"
    and st: "rx_step n (take c (drop off buf)) w r n1 w1" by blast
  have same: "rx_same n n1" and env: "rx_env w w1" using st by (auto simp: rx_step_def)
  have unf: "tcp_parse_all n buf (int off) (int c) w =
      (if r < 0 then Some (-1, n1, w1)
       else if r > 0 then tcp_parse_all n1 buf (int off + (int c - r)) r w1 else Some (0, n1, w1))"
    by (subst tcp_parse_all.simps) (simp add: r)
  have ls: "length s = length (rx_pending n) + c" using less.prems by (simp add: s_def)
  show ?case
  proof (cases "front_of (hlen n) (hsize n) s")
    case Short
    then have "deframe (hlen n) (hsize n) s = ([], s, True)" using h by (simp add: deframe_front)
    then have "rx_result n s w r n1 w1"
      using st Short by (simp add: rx_result_def rx_step_def s_def)
    moreover have "r = 0" using st Short by (simp add: rx_step_def s_def)
    ultimately show ?thesis unfolding unf s_def [symmetric] by simp
  next
    case Bad
    then have "deframe (hlen n) (hsize n) s = ([], s, False)" using h by (simp add: deframe_front)
    then have "rx_result n s w (-1) n1 w1"
      using st Bad by (simp add: rx_result_def rx_step_def s_def)
    moreover have "r = -1" using st Bad by (simp add: rx_step_def s_def)
    ultimately show ?thesis unfolding unf s_def [symmetric] by simp
  next
    case (Frame k)
    let ?m = "hlen n + k"
    obtain fs rest ok where d: "deframe (hlen n) (hsize n) (drop ?m s) = (fs, rest, ok)"
      by (metis prod_cases3)
    have ds: "deframe (hlen n) (hsize n) s = (take ?m s # fs, rest, ok)"
      using h Frame d by (simp add: deframe_front)
    have st': "r = int (length s) - int ?m" "rx_pending n1 = []" "rx_ok n1"
        "trace w1 = trace w @ delivered n w (take ?m s)"
      using st Frame by (auto simp: rx_step_def s_def Let_def)
    have le: "?m \<le> length s" using Frame by (auto simp: front_of_def split: if_splits option.splits)
    have pl: "length (rx_pending n) < ?m"
      by (rule pending_short [OF less.prems(1)]) (use Frame s_def in simp)
    define c1 where "c1 = length s - ?m"
    have c1: "r = int c1" "c1 < c" "c = (c - c1) + c1"
      using st'(1) le pl ls by (simp_all add: c1_def)
    have bytes: "take c1 (drop (off + (c - c1)) buf) = drop ?m s"
    proof -
      have "drop ?m s = drop (c - c1) (take c (drop off buf))"
        using pl ls le by (simp add: s_def c1_def)
      also have "\<dots> = take c1 (drop (c - c1) (drop off buf))"
        using c1(2) by (simp add: drop_take)
      finally show ?thesis by (simp add: add.commute)
    qed
    note sel = rx_same_sel [OF same]
    show ?thesis
    proof (cases "c1 = 0")
      case True
      then have "drop ?m s = []" using le c1_def by simp
      then have "fs = [] \<and> rest = [] \<and> ok"
        using d h by (simp add: deframe_front front_of_def)
      then have "rx_result n s w 0 n1 w1"
        using ds st' same env by (simp add: rx_result_def)
      then show ?thesis unfolding unf s_def [symmetric] using True c1(1) by simp
    next
      case False
      have "\<exists>r' n' w'. tcp_parse_all n1 buf (int (off + (c - c1))) (int c1) w1 = Some (r', n', w')
          \<and> rx_result n1 (rx_pending n1 @ take c1 (drop (off + (c - c1)) buf)) w1 r' n' w'"
        by (rule less.IH)
          (use c1 False st' sel rx_env_env [OF env] less.prems not_split_empty in auto)
      then obtain r' n' w' where
        rec: "tcp_parse_all n1 buf (int (off + (c - c1))) (int c1) w1 = Some (r', n', w')"
        and res: "rx_result n1 (drop ?m s) w1 r' n' w'" unfolding st'(2) bytes by auto
      have tpl: "template (tcp n1) = template (tcp n)" and dl: "delivered n1 w1 = delivered n w"
        using sel delivered_env [of w1 w n] rx_env_env [OF env] by simp_all
      note all = res [unfolded rx_result_def tpl dl d prod.case]
      have t: "trace w' = trace w @ concat (map (delivered n w) (take ?m s # fs))"
        using all [THEN conjunct2, THEN conjunct2, THEN conjunct1] by (simp add: st'(4))
      have "rx_result n s w r' n' w'"
        unfolding rx_result_def ds prod.case
        by (intro conjI rx_same_trans [OF same all [THEN conjunct1]] t
            rx_env_trans [OF env all [THEN conjunct2, THEN conjunct1]]
            all [THEN conjunct2, THEN conjunct2, THEN conjunct2])
      moreover have "tcp_parse_all n buf (int off) (int c) w = Some (r', n', w')"
      proof -
        have e: "int off + (int c - r) = int (off + (c - c1))" using c1 by simp
        have "\<not> r < 0" "r > 0" using c1(1) False by simp_all
        then show ?thesis unfolding unf e using rec c1(1) by (simp only: if_False if_True)
      qed
      ultimately show ?thesis unfolding s_def by blast
    qed
  qed
qed


section \<open>The whole stream\<close>

text \<open>The specification's side of the exception: no piece ends inside the head of a packet that is
  larger than the receive buffer.\<close>

definition split_head :: "nat \<Rightarrow> (byte list \<Rightarrow> nat option) \<Rightarrow> byte list \<Rightarrow> byte list \<Rightarrow> bool" where
  "split_head h sz p b \<longleftrightarrow> p \<noteq> [] \<and> length p < h \<and> h \<le> length (p @ b)
     \<and> (case sz (take h (p @ b)) of None \<Rightarrow> False | Some k \<Rightarrow> int (h + k) > TCP_BUFFER_SIZE)"

fun whole_heads :: "nat \<Rightarrow> (byte list \<Rightarrow> nat option) \<Rightarrow> byte list \<Rightarrow> byte list list \<Rightarrow> bool" where
  "whole_heads h sz p [] \<longleftrightarrow> True"
| "whole_heads h sz p (b # bs) \<longleftrightarrow> \<not> split_head h sz p b
     \<and> (case deframe h sz (p @ b) of (_, rest, ok) \<Rightarrow> ok \<longrightarrow> whole_heads h sz rest bs)"

definition small_packets :: "nat \<Rightarrow> (byte list \<Rightarrow> nat option) \<Rightarrow> bool" where
  "small_packets h sz \<longleftrightarrow> (\<forall>hd k. sz hd = Some k \<longrightarrow> int (h + k) \<le> TCP_BUFFER_SIZE)"

lemma splits_split_head:
  "splits_large_head n b = split_head (hlen n) (hsize n) (rx_pending n) b"
  by (auto simp: splits_large_head_def split_head_def split: option.splits)

lemma small_not_split: "small_packets h sz \<Longrightarrow> \<not> split_head h sz p b"
  by (auto simp: split_head_def small_packets_def not_less simp del: of_nat_add split: option.splits)

lemma small_whole_heads: "small_packets h sz \<Longrightarrow> whole_heads h sz p bs"
  by (induction h sz p bs rule: whole_heads.induct) (auto simp: small_not_split)

text \<open>A bad head stays bad whatever follows.\<close>

lemma deframe_append_bad:
  "deframe c sz s = (fs, r, False) \<Longrightarrow> deframe c sz (s @ t) = (fs, r @ t, False)"
proof (induction c sz s arbitrary: fs r rule: deframe.induct)
  case (1 c sz s)
  have c: "c \<noteq> 0" "\<not> length s < c"
    using "1.prems" by (auto simp: deframe.simps [of c sz s] split: if_splits)
  show ?case
  proof (cases "sz (take c s)")
    case None
    with "1.prems" c have "fs = [] \<and> r = s" by (auto simp: deframe.simps [of c sz s])
    with None c show ?thesis by (simp add: deframe.simps [of c sz "s @ t"])
  next
    case (Some k)
    have k: "\<not> length s < c + k"
      using "1.prems" c Some by (auto simp: deframe.simps [of c sz s] split: if_splits)
    obtain fs1 r1 ok1 where d: "deframe c sz (drop (c + k) s) = (fs1, r1, ok1)"
      by (metis prod_cases3)
    have eq: "fs = take (c + k) s # fs1" "r = r1" "\<not> ok1"
      using "1.prems" c Some k d by (auto simp: deframe.simps [of c sz s])
    have "deframe c sz (drop (c + k) s @ t) = (fs1, r1 @ t, False)"
      by (rule "1.IH") (use c Some k d eq in auto)
    then show ?thesis using c Some k eq by (simp add: deframe.simps [of c sz "s @ t"])
  qed
qed

text \<open>The receive buffer itself is no part of the receive state.\<close>

lemma rx_buffer_irrelevant:
  fixes n b
  defines "n' \<equiv> n\<lparr>tcp := (tcp n)\<lparr>rx_buffer := b\<rparr>\<rparr>"
  shows "rx_ok n' = rx_ok n" "rx_pending n' = rx_pending n" "template (tcp n') = template (tcp n)"
    "delivered n' = delivered n" "splits_large_head n' = splits_large_head n"
  unfolding n'_def
  by (auto simp: rx_ok_def rx_pending_def ncb_lb_marked_def splits_large_head_def fun_eq_iff
      delivered_def fully_receive_def split: option.split)

text \<open>One \<open>recv\<close> that answers bytes.\<close>

lemma rx_piece:
  assumes ok: "rx_ok n" "head_parser (template (tcp n))" and mal: "k_fail w SYS_malloc = []"
    and buf: "rx_buffer (tcp n) = Some b" "int (length b) = TCP_BUFFER_SIZE"
    and k: "k_recv w = RxData c a # ks" "c \<noteq> []" "int (length c) \<le> TCP_BUFFER_SIZE"
    and split: "\<not> splits_large_head n c"
  shows "\<exists>r n' w' b'. i_tcp_rx n w = Some (r, n', w') \<and> int (length b') = TCP_BUFFER_SIZE
    \<and> rx_result (n\<lparr>tcp := (tcp n)\<lparr>rx_buffer := Some b'\<rparr>\<rparr>) (rx_pending n @ c) (w\<lparr>k_recv := ks\<rparr>) r n' w'"
proof -
  define b' where "b' = c @ drop (length c) b"
  let ?n = "n\<lparr>tcp := (tcp n)\<lparr>rx_buffer := Some b'\<rparr>\<rparr>"
  have put: "buf_put b 0 c = Some b'"
    using buf_put_nat [of 0 c b] k buf by (simp add: b'_def)
  have lb: "int (length b') = TCP_BUFFER_SIZE" "length c \<le> length b'"
    using buf k by (auto simp: b'_def)
  have "TCP_BUFFER_SIZE = int (nat TCP_BUFFER_SIZE)" by (simp add: TCP_BUFFER_SIZE_def)
  then have rc: "recv_call TCP_BUFFER_SIZE w = Some (int (length c), c, a, w\<lparr>k_recv := ks\<rparr>)"
    using k by (simp add: recv_call_def)
  have r: "i_tcp_rx n w = tcp_parse_all ?n b' (int 0) (int (length c)) (w\<lparr>k_recv := ks\<rparr>)"
    using k(2) by (simp add: i_tcp_rx_def buf(1) rc put)
  have bytes: "take (length c) (drop 0 b') = c" by (simp add: b'_def)
  have "\<exists>r n' w'. tcp_parse_all ?n b' (int 0) (int (length c)) (w\<lparr>k_recv := ks\<rparr>) = Some (r, n', w')
     \<and> rx_result ?n (rx_pending ?n @ take (length c) (drop 0 b')) (w\<lparr>k_recv := ks\<rparr>) r n' w'"
    by (rule parse_all) (use ok k lb split mal bytes in \<open>simp_all add: rx_buffer_irrelevant\<close>)
  then show ?thesis unfolding r bytes rx_buffer_irrelevant using lb by blast
qed

text \<open>The kernel hands over the pieces \<open>cs\<close> and then says that the socket is empty.\<close>

fun arriving :: "byte list list \<Rightarrow> rxans list \<Rightarrow> bool" where
  "arriving [] (RxErr e # ks) \<longleftrightarrow> e = EAGAIN"
| "arriving (c # cs) (RxData d a # ks) \<longleftrightarrow>
     c = d \<and> c \<noteq> [] \<and> int (length c) \<le> TCP_BUFFER_SIZE \<and> arriving cs ks"
| "arriving _ _ \<longleftrightarrow> False"

lemma arriving_Nil: "arriving [] ks \<longleftrightarrow> (\<exists>ks'. ks = RxErr EAGAIN # ks')"
  by (cases ks; cases "hd ks") auto

lemma arriving_Cons: "arriving (c # cs) ks \<longleftrightarrow> (\<exists>a ks'. ks = RxData c a # ks' \<and> c \<noteq> []
    \<and> int (length c) \<le> TCP_BUFFER_SIZE \<and> arriving cs ks')"
  by (cases ks; cases "hd ks") auto

text \<open>A link that receives: its receive state is well-formed, its buffer is allocated, its parser
  reads heads only, and the allocator does not fail.\<close>

definition rx_ready :: "ncb \<Rightarrow> world \<Rightarrow> bool" where
  "rx_ready n w \<longleftrightarrow> rx_ok n \<and> head_parser (template (tcp n)) \<and> k_fail w SYS_malloc = []
     \<and> (case rx_buffer (tcp n) of None \<Rightarrow> False | Some b \<Rightarrow> int (length b) = TCP_BUFFER_SIZE)"

text \<open>All pieces of a stream, up to the answer that the socket is empty.\<close>

lemma rx_stream:
  "rx_ready n w \<Longrightarrow> arriving cs (k_recv w) \<Longrightarrow>
   whole_heads (hlen n) (hsize n) (rx_pending n) cs \<Longrightarrow>
   \<exists>r n' w'. tcp_rx n w = Some (r, n', w')
     \<and> (case deframe (hlen n) (hsize n) (rx_pending n @ concat cs) of (fs, rest, ok) \<Rightarrow>
          trace w' = trace w @ concat (map (delivered n w) fs)
          \<and> (if ok then r = EAGAIN \<and> rx_pending n' = rest \<and> rx_ready n' w' \<and> template (tcp n') = template (tcp n) else r = -1))"
proof (induction cs arbitrary: n w)
  case Nil
  then obtain b ks where b: "rx_buffer (tcp n) = Some b" and ks: "k_recv w = RxErr EAGAIN # ks"
    and ok: "rx_ok n"
    by (auto simp: rx_ready_def arriving_Nil split: option.splits)
  let ?n = "n\<lparr>tcp := (tcp n)\<lparr>rx_buffer := Some b\<rparr>\<rparr>"
  have d: "deframe (hlen n) (hsize n) (rx_pending n) = ([], rx_pending n, True)"
    by (rule pending_idle [OF ok])
  have "i_tcp_rx n w = Some (EAGAIN, ?n, w\<lparr>k_recv := ks, errno := EAGAIN\<rparr>)"
    using b ks by (simp add: i_tcp_rx_def recv_call_def buf_put_def)
  then have "tcp_rx n w = Some (EAGAIN, ?n, w\<lparr>k_recv := ks, errno := EAGAIN\<rparr>)"
    by (subst tcp_rx.simps) simp
  then show ?case using Nil.prems(1) b d rx_buffer_irrelevant [where n = n and b = "Some b"]
    by (simp add: rx_ready_def)
next
  case (Cons c cs)
  then obtain b a ks where b: "rx_buffer (tcp n) = Some b" "int (length b) = TCP_BUFFER_SIZE"
    and ks: "k_recv w = RxData c a # ks" "c \<noteq> []" "int (length c) \<le> TCP_BUFFER_SIZE" "arriving cs ks"
    and ok: "rx_ok n" "head_parser (template (tcp n))" "k_fail w SYS_malloc = []"
    by (auto simp: rx_ready_def arriving_Cons split: option.splits)
  have "\<not> splits_large_head n c" using Cons.prems(3) by (simp add: splits_split_head)
  from rx_piece [OF ok b ks(1-3) this]
  obtain r n1 w1 b1 where r: "i_tcp_rx n w = Some (r, n1, w1)" "int (length b1) = TCP_BUFFER_SIZE"
    and res: "rx_result (n\<lparr>tcp := (tcp n)\<lparr>rx_buffer := Some b1\<rparr>\<rparr>) (rx_pending n @ c)
        (w\<lparr>k_recv := ks\<rparr>) r n1 w1"
    by auto
  let ?n = "n\<lparr>tcp := (tcp n)\<lparr>rx_buffer := Some b1\<rparr>\<rparr>"
  let ?w = "w\<lparr>k_recv := ks\<rparr>"
  have same: "rx_same ?n n1" and env: "rx_env ?w w1" using res by (auto simp: rx_result_def)
  have dl0: "delivered n ?w = delivered n w" by (rule delivered_env) simp
  have dl: "delivered ?n ?w = delivered n w"
    using rx_buffer_irrelevant(4) [where n = n and b = "Some b1"] dl0 by simp
  obtain fs1 rest1 ok1 where d: "deframe (hlen n) (hsize n) (rx_pending n @ c) = (fs1, rest1, ok1)"
    by (metis prod_cases3)
  have out: "trace w1 = trace w @ concat (map (delivered n w) fs1)"
    "if ok1 then r = 0 \<and> rx_pending n1 = rest1 \<and> rx_ok n1 else r = -1"
    using res unfolding rx_result_def rx_buffer_irrelevant dl0 d prod.case by auto
  have unf: "tcp_rx n w = (if r = 0 then tcp_rx n1 w1 else Some (r, n1, w1))"
    by (subst tcp_rx.simps) (simp add: r)
  show ?case
  proof (cases ok1)
    case False
    then have "deframe (hlen n) (hsize n) (rx_pending n @ concat (c # cs)) = (fs1, rest1 @ concat cs, False)"
      using deframe_append_bad [of "hlen n" "hsize n" "rx_pending n @ c" fs1 rest1 "concat cs"] d by simp
    then show ?thesis unfolding unf using out False by simp
  next
    case True
    have sel: "template (tcp n1) = template (tcp n)" "delivered n1 w1 = delivered n w"
        "rx_buffer (tcp n1) = Some b1"
      using rx_same_sel [OF same] dl delivered_env [of w1 ?w n1] rx_env_env [OF env] by simp_all
    have "\<exists>r n' w'. tcp_rx n1 w1 = Some (r, n', w')
     \<and> (case deframe (hlen n1) (hsize n1) (rx_pending n1 @ concat cs) of (fs, rest, ok) \<Rightarrow>
          trace w' = trace w1 @ concat (map (delivered n1 w1) fs)
          \<and> (if ok then r = EAGAIN \<and> rx_pending n' = rest \<and> rx_ready n' w' \<and> template (tcp n') = template (tcp n1) else r = -1))"
      by (rule Cons.IH [of n1 w1])
        (use out True sel r(2) Cons.prems(3) ks ok rx_env_env [OF env] d in \<open>simp_all add: rx_ready_def\<close>)
    moreover obtain fs rest ok where
      ds: "deframe (hlen n) (hsize n) (rest1 @ concat cs) = (fs, rest, ok)" by (metis prod_cases3)
    moreover have "rx_pending n1 = rest1" using out True by simp
    ultimately obtain r' n' w' where rec: "tcp_rx n1 w1 = Some (r', n', w')"
      "trace w' = trace w1 @ concat (map (delivered n w) fs)"
      "if ok then r' = EAGAIN \<and> rx_pending n' = rest \<and> rx_ready n' w' \<and> template (tcp n') = template (tcp n) else r' = -1"
      unfolding sel by auto
    have "deframe (hlen n) (hsize n) (rx_pending n @ concat (c # cs)) = (fs1 @ fs, rest, ok)"
      using deframe_append [of "hlen n" "hsize n" "rx_pending n @ c" fs1 rest1 "concat cs"] d True ds
      by simp
    then show ?thesis unfolding unf using out True rec by simp
  qed
qed

section \<open>The exception\<close>

text \<open>A large packet whose head arrives in two parts: the block is opened with the second part at
  its front, and the part of the head that was held back is gone.\<close>

lemma split_head_step:
  assumes ok: "rx_ok n" "\<not> ncb_lb_marked n" and hp: "head_parser (template (tcp n))"
    and split: "splits_large_head n (take c dat)" and c: "c \<le> length dat" "int c \<le> TCP_BUFFER_SIZE"
    and mal: "k_fail w SYS_malloc = []"
  shows "\<exists>n' w'. tcp_parse_pkt n dat (int c) w = Some (0, n', w') \<and> ncb_lb_marked n'
     \<and> rx_pending n' = take c dat \<and> rx_pending n' \<noteq> rx_pending n @ take c dat"
proof -
  let ?h = "hlen n"
  from ok obtain pk where pk: "packet n = Some pk" "int (length pk) = TCP_BUFFER_SIZE"
    by (auto simp: rx_ok_def)
  from ok have hl: "0 < ?h" "?h \<le> 32" by (auto simp: rx_ok_def)
  have cb: "t_cb (template (tcp n)) = int ?h" using hl by (simp add: tst_len_def)
  from ok obtain p where p: "t_parser (template (tcp n)) = Some p" by (auto simp: rx_ok_def)
  from ok obtain off where off: "rx_parse_offset (tcp n) = int off" "int off \<le> TCP_BUFFER_SIZE"
    by (auto simp: rx_ok_def elim: nonneg_int_cases)
  have pend: "rx_pending n = take off pk" "length (rx_pending n) = off"
    using ok pk off by (simp_all add: rx_pending_def)
  define s where "s = rx_pending n @ take c dat"
  from split pend c obtain k where k: "off \<noteq> 0" "off < ?h" "?h \<le> off + c"
      "hsize n (take ?h s) = Some k" "int (?h + k) > TCP_BUFFER_SIZE"
    by (auto simp: splits_large_head_def s_def)
  define u where "u = ?h - off"
  have u: "u \<le> c" "off + u = ?h" "int ?h - int off = int u" "int c - int u = int (c - u)"
    using k by (auto simp: u_def)
  have big: "?h \<le> length pk" using hl pk by (simp add: TCP_BUFFER_SIZE_def)
  define F where "F = take off pk @ take u dat @ drop (off + u) pk"
  have l: "length (take u dat) = u" "length (take off pk) = off" using u c big k by (auto simp: min_def)
  have put: "buf_put pk (int off) (take u dat) = Some F"
    unfolding F_def using l u big by (subst buf_put_nat) auto
  have get: "buf_get dat 0 (int u) = Some (take u dat)" using u c by (intro buf_get_front) simp
  have "take (off + u) F = take (off + u) s"
    unfolding F_def s_def pend(1) using l u(1) c by (simp add: min_def)
  then have hd: "take ?h F = take ?h s" by (simp only: u(2))
  let ?n = "n\<lparr>packet := Some F, tcp := (tcp n)\<lparr>rx_parse_offset := int ?h\<rparr>\<rparr>"
  have call: "tcp_parse_pkt n dat (int c) w = tcp_parse_body ?n dat (int c) (int u) (int (c - u)) w"
    using k hl ok by (simp add: tcp_parse_pkt_def Let_def p cb off(1) pk(1) u(3,4) get put)
  obtain st sz where ps: "p F (int ?h) = (st, sz)" by fastforce
  have "p (take ?h s) (int ?h) = (st, sz)"
    using hp p ps hd unfolding head_parser_def cb by (metis order_refl)
  with k(4) have st: "\<not> st < 0" "\<not> sz > TCP_MAXIMUM_PACKET_SIZE" "\<not> sz \<le> 0" "sz = int k"
    by (auto simp: tst_size_def p cb split: if_splits)
  have total: "sz + int ?h = int (?h + k)" using st by simp
  have m: "malloc (int (?h + k)) w = (Some (replicate (?h + k) (junk w)), w\<lparr>heap := heap w + 1\<rparr>)"
    by (simp add: malloc_def simple_call_ok mal nat_add_distrib)
  have g: "buf_get dat 0 (int c) = Some (take c dat)" using c by (intro buf_get_front) simp
  let ?lb = "take c dat @ drop c (replicate (?h + k) (junk w))"
  have pu: "buf_put (replicate (?h + k) (junk w)) 0 (take c dat) = Some ?lb"
    using buf_put_nat [of 0 "take c dat" "replicate (?h + k) (junk w)"] c k(5) by simp
  let ?n' = "?n\<lparr>tcp := (tcp ?n)\<lparr>lbdata := Some ?lb, lbsize := int (?h + k), lboffset := int c,
                rx_parse_offset := 0\<rparr>\<rparr>"
  have f: "packet ?n = Some F" "t_parser (template (tcp ?n)) = Some p" "rx_parse_offset (tcp ?n) = int ?h"
      "t_cb (template (tcp ?n)) = int ?h" using p cb by simp_all
  have r: "tcp_parse_body ?n dat (int c) (int u) (int (c - u)) w = Some (0, ?n', w\<lparr>heap := heap w + 1\<rparr>)"
    unfolding tcp_parse_body_def Let_def f bind.bind_lunit ps prod.case total
    using st(1,2,3) k(5) by (simp only: m g pu if_False if_True simp_thms Option.bind.simps prod.case option.case)
  have mk: "ncb_lb_marked ?n'" using hl by (simp add: ncb_lb_marked_def)
  moreover have "rx_pending ?n' = take c dat" unfolding rx_pending_def using mk c by simp
  moreover have "rx_pending n \<noteq> []" using pend k by auto
  ultimately show ?thesis unfolding call r by simp
qed

section \<open>Properties\<close>


text \<open>C8: \<open>tcp_rx\<close> implements the stream cutter \<open>deframe\<close>: for every state of the receive buffers,
  every template and every way the stream arrives, the packets delivered are those of \<open>deframe\<close>
  on the bytes held back and the bytes that arrive, and the link is failed exactly where \<open>deframe\<close>
  meets a bad head. The only condition is that no piece ends inside the head of a packet larger
  than the receive buffer.\<close>

theorem tcp_rx_refines_deframe:
  assumes "rx_ready n w" and "arriving cs (k_recv w)"
    and "whole_heads (hlen n) (hsize n) (rx_pending n) cs"
  shows "\<exists>r n' w'. tcp_rx n w = Some (r, n', w')
     \<and> (case deframe (hlen n) (hsize n) (rx_pending n @ concat cs) of (fs, rest, ok) \<Rightarrow>
          trace w' = trace w @ concat (map (delivered n w) fs)
          \<and> (if ok then r = EAGAIN \<and> rx_pending n' = rest \<and> rx_ok n' else r = -1))"
  using rx_stream [OF assms] by (fastforce simp: rx_ready_def split: prod.splits if_splits)

text \<open>C26: a packet larger than the receive buffer is corrupted where its head arrives in two parts:
  the code starts the large block with the second part, so the bytes of the head that were held
  back are lost and every later byte of the packet lies at the wrong place.\<close>

theorem large_head_prefix_lost:
  assumes "rx_ok n" and "\<not> ncb_lb_marked n" and "head_parser (template (tcp n))"
    and "splits_large_head n (take c dat)" and "c \<le> length dat" and "int c \<le> TCP_BUFFER_SIZE"
    and "k_fail w SYS_malloc = []"
  shows "\<exists>n' w'. tcp_parse_pkt n dat (int c) w = Some (0, n', w') \<and> ncb_lb_marked n'
     \<and> rx_pending n' = take c dat \<and> rx_pending n' \<noteq> rx_pending n @ take c dat"
  by (rule split_head_step [OF assms])

section \<open>Concrete runs\<close>

text \<open>A template of two bytes whose second byte is the payload length, in units of \<open>u\<close> bytes, and a
  link that uses it, with \<open>held\<close> kept from earlier.\<close>

definition buf0 :: "byte list" where
  "buf0 = replicate (nat TCP_BUFFER_SIZE) 0"

definition tst0 :: "int \<Rightarrow> tst" where
  "tst0 u = \<lparr>t_cb = 2, t_builder = Some (\<lambda>n. (0, [0, of_int n])),
     t_parser = Some (\<lambda>b _. (0, u * uint (b ! 1)))\<rparr>"

definition rx_ncb0 :: "int \<Rightarrow> byte list \<Rightarrow> ncb" where
  "rx_ncb0 u held = ncb_zero\<lparr>hld := 5, sockfd := 9, protocol := IPPROTO_TCP, nis_callback := Some 1,
     packet := Some (held @ drop (length held) buf0),
     tcp := tcp_part_zero\<lparr>rx_buffer := Some buf0, template := tst0 u,
                          rx_parse_offset := int (length held)\<rparr>\<rparr>"

lemma length_buf0: "int (length buf0) = TCP_BUFFER_SIZE" "length buf0 = 69632"
  by (simp_all add: buf0_def TCP_BUFFER_SIZE_def)

lemma tst0_simps:
  "tst_len (tst0 u) = 2"
  "tst_size (tst0 u) b = (let s = u * uint (b ! 1)
     in if s > TCP_MAXIMUM_PACKET_SIZE \<or> s \<le> 0 then None else Some (nat s))"
  "head_parser (tst0 u)"
  by (simp_all add: tst0_def tst_len_def tst_size_def head_parser_def Let_def)

lemma small_tst0: "small_packets 2 (tst_size (tst0 1))"
proof -
  have "int (2 + nat (1 * uint (b ! 1))) \<le> TCP_BUFFER_SIZE" for b :: "byte list"
  proof -
    have "uint (b ! 1) < 256" "0 \<le> uint (b ! 1)" using uint_bounded [of "b ! 1"] by simp_all
    then show ?thesis by (simp add: TCP_BUFFER_SIZE_def)
  qed
  then show ?thesis
    unfolding small_packets_def tst0_simps Let_def by (auto simp del: of_nat_add split: if_splits)
qed

lemma rx_ncb0_ready:
  assumes "length held < 2"
  shows "rx_ok (rx_ncb0 u held)" "rx_pending (rx_ncb0 u held) = held" "\<not> ncb_lb_marked (rx_ncb0 u held)"
    "template (tcp (rx_ncb0 u held)) = tst0 u" "rx_ready (rx_ncb0 u held) (world0\<lparr>k_recv := ks\<rparr>)"
proof -
  have l: "length held \<le> length buf0" using assms by (simp add: length_buf0)
  show m: "\<not> ncb_lb_marked (rx_ncb0 u held)" and t: "template (tcp (rx_ncb0 u held)) = tst0 u"
    by (simp_all add: rx_ncb0_def ncb_lb_marked_def tcp_part_zero_def)
  show p: "rx_pending (rx_ncb0 u held) = held"
    using m by (simp add: rx_pending_def) (simp add: rx_ncb0_def)
  have "t_parser (tst0 u) \<noteq> None" by (simp add: tst0_def)
  then show ok: "rx_ok (rx_ncb0 u held)"
    using assms l m unfolding rx_ok_def p t tst0_simps(1)
    by (simp add: rx_ncb0_def TCP_BUFFER_SIZE_def length_buf0)
  show "rx_ready (rx_ncb0 u held) (world0\<lparr>k_recv := ks\<rparr>)"
    using ok unfolding rx_ready_def t
    by (simp add: tst0_simps(3)) (simp add: rx_ncb0_def world0_def length_buf0(1))
qed

definition pieces0 :: "rxans list" where
  "pieces0 = [RxData [0, 3, 1] sockaddr_zero, RxData [2, 3, 0, 1, 9, 0] sockaddr_zero, RxErr EAGAIN]"

lemma arriving_pieces0: "arriving [[0, 3, 1], [2, 3, 0, 1, 9, 0]] pieces0"
  by (simp add: pieces0_def TCP_BUFFER_SIZE_def)

lemma delivered_ncb0:
  "delivered (rx_ncb0 u held) (world0\<lparr>k_recv := ks\<rparr>) f = [Post 1 (EVT_RECEIVEDATA 5 (drop 2 f))]"
  by (simp add: delivered_def fully_receive_def rx_ncb0_ready(4) tst0_simps rx_ncb0_def ncb_zero_def
      tst0_def tst_len_def)


text \<open>A packet of length zero is a bad head: the link is failed after the packet before it.\<close>

theorem tcp_rx_refines_deframe_witness:
  "\<exists>n' w'. tcp_rx (rx_ncb0 1 [0]) (world0\<lparr>k_recv := [RxData [1, 7, 0, 0] sockaddr_zero, RxErr EAGAIN]\<rparr>)
      = Some (-1, n', w') \<and> trace w' = [Post 1 (EVT_RECEIVEDATA 5 [7])]"
proof -
  let ?w = "world0\<lparr>k_recv := [RxData [1, 7, 0, 0] sockaddr_zero, RxErr EAGAIN]\<rparr>"
  have t: "trace ?w = []" by (simp add: world0_def)
  have a: "arriving [[1, 7, 0, 0]] (k_recv ?w)" by (simp add: TCP_BUFFER_SIZE_def)
  have d: "deframe 2 (tst_size (tst0 1)) [0, 1, 7, 0, 0] = ([[0, 1, 7]], [0, 0], False)"
    by (simp add: deframe.simps tst0_simps TCP_MAXIMUM_PACKET_SIZE_def)
  show ?thesis
    using tcp_rx_refines_deframe [of "rx_ncb0 1 [0]" ?w "[[1, 7, 0, 0]]"]
      rx_ncb0_ready [of "[0]" 1] a small_not_split [OF small_tst0]
    by (simp add: tst0_simps(1) delivered_ncb0 t d)
qed

text \<open>A packet of 100000 bytes, the first byte of its head already held back.\<close>

theorem large_head_prefix_lost_witness:
  "\<exists>n' w'. tcp_parse_pkt (rx_ncb0 1000 [42]) [100, 7] 2 world0 = Some (0, n', w') \<and> ncb_lb_marked n'
     \<and> rx_pending n' = [100, 7] \<and> rx_pending n' \<noteq> [42, 100, 7]"
proof -
  have s: "splits_large_head (rx_ncb0 1000 [42]) [100, 7]"
    by (simp add: splits_large_head_def rx_ncb0_ready tst0_simps TCP_BUFFER_SIZE_def
        TCP_MAXIMUM_PACKET_SIZE_def)
  have "k_fail world0 SYS_malloc = []" by (simp add: world0_def)
  then show ?thesis
    using large_head_prefix_lost [of "rx_ncb0 1000 [42]" 2 "[100, 7]" world0] s
      rx_ncb0_ready [of "[42]" 1000]
    by (simp add: tst0_simps TCP_BUFFER_SIZE_def)
qed

end
