(* ===== verification/Link.thy ===== *)
theory Link
  imports Ncb
begin

text \<open>
  The contract of a link handle. Every operation of the user names a link by its handle; the code
  takes a counted reference, checks the protocol (\<open>__tcprefr\<close>, \<open>__udprefr\<close>, \<open>__arprefr\<close>), works
  on the block, and gives the reference back on every path. \<open>with_link\<close> is that frame around a
  body; the locale \<open>link_ref\<close> states what a reference function promises, and its lemmas are what
  every operation inherits: a bad handle is refused without touching any block, and no reference
  is lost or gained.
\<close>

text \<open>\<open>on_fail\<close> turns the status of the reference function into the operation's answer; the body
  returns the answer and the block as it leaves it.\<close>

definition with_link ::
  "(objhld \<Rightarrow> world \<Rightarrow> int \<times> ncb option \<times> world) \<Rightarrow> (int \<Rightarrow> 'r)
    \<Rightarrow> (ncb \<Rightarrow> world \<Rightarrow> ('r \<times> ncb \<times> world) option) \<Rightarrow> objhld \<Rightarrow> world \<Rightarrow> ('r \<times> world) option" where
  "with_link refr on_fail body link w = (case refr link w of
       (r, None, w) \<Rightarrow> Some (on_fail r, w)
     | (r, Some n, w) \<Rightarrow> do {
         (r, n, w) \<leftarrow> body n w;
         Some (r, objdefr link (put_ncb link n w))
       })"

definition i_refr :: "int \<Rightarrow> objhld \<Rightarrow> world \<Rightarrow> int \<times> ncb option \<times> world" where
  "i_refr proto h w =
     (if h < 0 then (- EINVAL, None, w) else
      case objrefr h w of
        (Some n, w) \<Rightarrow> if protocol n = proto then (0, Some n, w)
                       else (- EPROTOTYPE, None, objdefr h w)
      | (None, w) \<Rightarrow> (- ENOENT, None, w))"

definition i_tcprefr :: "objhld \<Rightarrow> world \<Rightarrow> int \<times> ncb option \<times> world" where
  "i_tcprefr = i_refr IPPROTO_TCP"

definition i_udprefr :: "objhld \<Rightarrow> world \<Rightarrow> int \<times> ncb option \<times> world" where
  "i_udprefr = i_refr IPPROTO_UDP"

definition i_arprefr :: "objhld \<Rightarrow> world \<Rightarrow> int \<times> ncb option \<times> world" where
  "i_arprefr = i_refr ETH_P_ARP"

section \<open>Balanced steps\<close>

text \<open>A step that gives back every reference it takes.\<close>

definition balanced :: "world \<Rightarrow> world \<Rightarrow> bool" where
  "balanced w w' \<longleftrightarrow> (\<forall>g. ref_balance g (trace w') = ref_balance g (trace w))"

lemma balanced_refl [simp, intro]: "balanced w w"
  by (simp add: balanced_def)

lemma balanced_trans [trans]: "balanced w w' \<Longrightarrow> balanced w' w'' \<Longrightarrow> balanced w w''"
  by (simp add: balanced_def)

lemma balanced_trace: "trace w' = trace w \<Longrightarrow> balanced w w'"
  by (simp add: balanced_def)

definition no_ref :: "effect \<Rightarrow> bool" where
  "no_ref e \<longleftrightarrow> (case e of Refr h \<Rightarrow> False | Defr h \<Rightarrow> False | _ \<Rightarrow> True)"

lemma no_ref_balance: "list_all no_ref es \<Longrightarrow> ref_balance g es = 0"
  by (induction g es rule: ref_balance.induct) (auto simp: no_ref_def)

lemma balanced_effects: "trace w' = trace w @ es \<Longrightarrow> list_all no_ref es \<Longrightarrow> balanced w w'"
  by (simp add: balanced_def no_ref_balance)

lemma balanced_emit: "no_ref e \<Longrightarrow> balanced w (emit e w)"
  by (rule balanced_effects [of _ _ "[e]"]) simp_all

lemma balanced_post [simp]: "balanced w (post n e w)"
  by (simp add: post_def no_ref_def balanced_emit split: option.split)

lemma balanced_refr_defr: "balanced (emit (Refr h) w) w' \<Longrightarrow> balanced w (emit (Defr h) w')"
  by (simp add: balanced_def)

text \<open>Joining an epoll instance takes and gives back the io object.\<close>

lemma io_attach_balanced: "io_attach n m w = Some (r, n', w') \<Longrightarrow> balanced w w'"
  by (drule io_attachD(1), drule io_stepD(12)) (auto simp: balanced_def)

section \<open>The contract\<close>

locale link_ref =
  fixes refr :: "objhld \<Rightarrow> world \<Rightarrow> int \<times> ncb option \<times> world" and proto :: int
  assumes good: "0 \<le> h \<Longrightarrow> objs w h = Some n \<Longrightarrow> protocol n = proto \<Longrightarrow>
        refr h w = (0, Some n, emit (Refr h) w)"
    and bad: "\<not> (0 \<le> h \<and> (\<exists>n. objs w h = Some n \<and> protocol n = proto)) \<Longrightarrow>
        \<exists>r w'. refr h w = (r, None, w') \<and> r < 0 \<and> (w' = w \<or> w' = emit (Defr h) (emit (Refr h) w))"
begin

lemma entered:
  assumes "0 \<le> h" "objs w h = Some n" "protocol n = proto"
    "body n (emit (Refr h) w) = Some (r, n', w')"
  shows "with_link refr f body h w = Some (r, emit (Defr h) (put_ncb h n' w'))"
  using assms by (simp add: with_link_def good objdefr_def)

lemma refused:
  assumes "\<not> (0 \<le> h \<and> (\<exists>n. objs w h = Some n \<and> protocol n = proto))"
  shows "\<exists>r w'. with_link refr f body h w = Some (f r, w') \<and> r < 0 \<and> balanced w w'
    \<and> w'\<lparr>trace := trace w\<rparr> = w"
proof -
  from bad [OF assms] obtain r w' where r: "refr h w = (r, None, w')" "r < 0"
    "w' = w \<or> w' = emit (Defr h) (emit (Refr h) w)" by blast
  have "balanced w w'" using r(3) balanced_refr_defr [of h w "emit (Refr h) w"] by auto
  moreover have "w'\<lparr>trace := trace w\<rparr> = w" using r(3) by (cases w) (auto simp: emit_def)
  ultimately show ?thesis using r by (auto simp: with_link_def)
qed

lemma keeps_balance:
  assumes "with_link refr f body h w = Some (r, w')"
    and "\<And>n v r n' v'. body n v = Some (r, n', v') \<Longrightarrow> balanced v v'"
  shows "balanced w w'"
proof (cases "0 \<le> h \<and> (\<exists>n. objs w h = Some n \<and> protocol n = proto)")
  case True
  then obtain n where n: "0 \<le> h" "objs w h = Some n" "protocol n = proto" by blast
  with assms(1) obtain n' v' where b: "body n (emit (Refr h) w) = Some (r, n', v')"
    and w': "w' = emit (Defr h) (put_ncb h n' v')"
    by (auto simp: with_link_def good objdefr_def split: Option.bind_splits)
  have "balanced (emit (Refr h) w) (put_ncb h n' v')"
    using assms(2) [OF b] by (simp add: balanced_def put_ncb_def)
  then show ?thesis unfolding w' by (rule balanced_refr_defr)
next
  case False
  from refused [OF this, of f body] assms(1) show ?thesis by auto
qed

end

lemma i_refr_contract: "link_ref (i_refr proto) proto"
proof
  show "i_refr proto h w = (0, Some n, emit (Refr h) w)"
    if "0 \<le> h" "objs w h = Some n" "protocol n = proto" for h w n
    using that by (simp add: i_refr_def objrefr_def)
  show "\<exists>r w'. i_refr proto h w = (r, None, w') \<and> r < 0
      \<and> (w' = w \<or> w' = emit (Defr h) (emit (Refr h) w))"
    if "\<not> (0 \<le> h \<and> (\<exists>n. objs w h = Some n \<and> protocol n = proto))" for h w
    using that by (auto simp: i_refr_def objrefr_def objdefr_def split: option.split)
qed

interpretation tcp_r: link_ref i_tcprefr 6
  unfolding i_tcprefr_def by (rule i_refr_contract)

interpretation udp_r: link_ref i_udprefr 17
  unfolding i_udprefr_def by (rule i_refr_contract)

interpretation arp_r: link_ref i_arprefr 2054
  unfolding i_arprefr_def by (rule i_refr_contract)

end
