(* ===== verification/Pipe.thy ===== *)
theory Pipe
  imports Link
begin

text \<open>
  pipe.c: waking a link from any thread. A message for a link is written to the pipe of the epoll
  thread that serves the link, and that thread posts it to the link's callback. A message is the
  packed structure \<open>pipe_package_head\<close>: the length, four bytes of alignment, the handle, the data.
\<close>

section \<open>The message\<close>

definition PIPE_BUF :: int where
  "PIPE_BUF = 4096"

text \<open>\<open>sizeof(struct pipe_package_head)\<close>: \<open>objhld_t\<close> has 64 bits.\<close>

definition pipe_head_size :: int where
  "pipe_head_size = 16"

definition bytes64 :: "64 word \<Rightarrow> byte list" where
  "bytes64 x = bytes32 (ucast x) @ bytes32 (ucast (drop_bit 32 x))"

definition word64_of :: "byte list \<Rightarrow> 64 word" where
  "word64_of b = ucast (word32_of b) OR push_bit 32 (ucast (word32_of (drop 4 b)))"

definition pipe_message :: "int \<Rightarrow> objhld \<Rightarrow> byte list \<Rightarrow> byte list \<Rightarrow> byte list" where
  "pipe_message len h align payload =
     bytes32 (of_int len) @ align @ bytes64 (of_int h) @ payload"

text \<open>\<open>pipepkt->length\<close> and \<open>pipepkt->link\<close>, signed.\<close>

definition pipe_length :: "byte list \<Rightarrow> int" where
  "pipe_length b = sint (word32_of b)"

definition pipe_link :: "byte list \<Rightarrow> objhld" where
  "pipe_link b = sint (word64_of (drop 8 b))"

section \<open>Operations\<close>

text \<open>\<open>pipebuf\<close> is on the stack; only the bytes that were read are looked at. A \<open>read\<close> of \<open>0\<close>
  bytes leaves \<open>errno\<close> as it was.\<close>

function pipe_rx :: "ncb \<Rightarrow> world \<Rightarrow> (int \<times> ncb \<times> world) option" where
  "pipe_rx n w = (case recv_call PIPE_BUF w of None \<Rightarrow> None
     | Some (cb, buf, _, w) \<Rightarrow>
       if cb \<le> 0 then
         if errno w = 0 \<or> errno w = EAGAIN then Some (0, n, w)
         else if errno w = EINTR then pipe_rx n w
         else Some (-1, n, w)
       else if cb < pipe_head_size then pipe_rx n w
       else if cb \<noteq> pipe_length buf + pipe_head_size then pipe_rx n w
       else (case objrefr (pipe_link buf) w of
           (None, w') \<Rightarrow> pipe_rx n w
         | (Some target, w') \<Rightarrow>
             (case buf_get buf pipe_head_size (pipe_length buf) of None \<Rightarrow> None
              | Some d \<Rightarrow> pipe_rx n (objdefr (pipe_link buf)
                           (post target (EVT_PIPEDATA (hld target) d) (emit (Refr (pipe_link buf)) w))))))"
  by pat_completeness auto
termination
  by (relation "measure (\<lambda>(n, w). length (k_recv w))")
    (auto simp: objdefr_def dest!: recv_call_consumes)

declare pipe_rx.simps [simp del]

definition pipe_tx :: "ncb \<Rightarrow> int" where
  "pipe_tx n = 0"

definition pipe_unloader :: "objhld \<Rightarrow> world \<Rightarrow> world" where
  "pipe_unloader h w = (case objs w h of None \<Rightarrow> w | Some n \<Rightarrow>
     if sockfd n \<noteq> 0 then put_ncb h (n\<lparr>sockfd := 0\<rparr>) (emit (Close (sockfd n)) w) else w)"

text \<open>\<open>pipe2\<close> answers a status and the read and write descriptors. The initializer of the block
  does nothing, so what the other fields hold is what the memory held: \<open>raw\<close>.\<close>

definition pipe2_call :: "world \<Rightarrow> (int \<times> int \<times> int \<times> world) option" where
  "pipe2_call w = (case k_newfd w of
       KErr e # ks \<Rightarrow> Some (-1, -1, -1, w\<lparr>k_newfd := ks, errno := e\<rparr>)
     | KRet a # KRet b # ks \<Rightarrow> Some (0, a, b, w\<lparr>k_newfd := ks\<rparr>)
     | _ \<Rightarrow> None)"

definition objallo_pipe :: "ncb \<Rightarrow> world \<Rightarrow> (objhld \<times> world) option" where
  "objallo_pipe raw w = (case k_newobj w of [] \<Rightarrow> None
     | h # hs \<Rightarrow> (let w = w\<lparr>k_newobj := hs\<rparr>
         in if h < 0 then Some (h, w) else Some (h, put_ncb h raw w)))"

definition pipe_create :: "ncb \<Rightarrow> int \<Rightarrow> world \<Rightarrow> (int \<times> world) option" where
  "pipe_create raw proto w = do {
     (r, rfd, wfd, w) \<leftarrow> pipe2_call w;
     (if r \<noteq> 0 then Some (-1, w)
      else do {
        (h, w) \<leftarrow> objallo_pipe raw w;
        (if h < 0 then Some (-1, emit (Close wfd) (emit (Close rfd) w))
         else let (p, w) = objrefr h w in do {
           n \<leftarrow> p;
           let n = n\<lparr>nis_callback := None, sockfd := rfd, hld := h, protocol := proto,
                     ncb_read := Some R_pipe_rx, ncb_write := Some W_pipe_tx\<rparr>;
           (r, n, w) \<leftarrow> io_attach n EPOLLIN w;
           let w = put_ncb h n w;
           (if r < 0 then Some (-1, objclos h (objdefr h (emit (Close wfd) w)))
            else Some (wfd, objdefr h w))
         })
      })
   }"

text \<open>The comparison is between unsigned numbers, so a negative length is refused too. The message
  is not freed.\<close>

definition pipe_write_message :: "ncb \<Rightarrow> byte list \<Rightarrow> int \<Rightarrow> world \<Rightarrow> (int \<times> world) option" where
  "pipe_write_message n payload cb w =
     (if cb < 0 \<or> cb \<ge> PIPE_BUF - pipe_head_size then Some (- EINVAL, w) else do {
        (pipefd, w) \<leftarrow> io_pipefd n w;
        (if pipefd \<le> 0 then Some (-1, w)
         else case malloc (pipe_head_size + cb) w of
           (None, w) \<Rightarrow> Some (- ENOMEM, w)
         | (Some mem, w) \<Rightarrow> do {
             d \<leftarrow> buf_get payload 0 cb;
             let msg = pipe_message cb (hld n) (take 4 (drop 4 mem)) d;
             send_call (WritePipe pipefd) msg 0 (pipe_head_size + cb) w
           })
      })"

section \<open>A message arrives as it was sent\<close>

lemma word64_append [simp]: "word64_of (bytes64 x @ r) = x"
proof -
  have "word32_of (bytes64 x @ r) = ucast x" "word32_of (drop 4 (bytes64 x @ r)) = ucast (drop_bit 32 x)"
    by (simp_all add: bytes64_def)
  then show ?thesis
    unfolding word64_of_def by (simp, intro bit_word_eqI) (auto simp: bit_simps)
qed

lemma sint_word32: "- (2 ^ 31) \<le> k \<Longrightarrow> k < 2 ^ 31 \<Longrightarrow> sint (of_int k :: 32 word) = k"
  by (simp add: sint_sbintrunc' signed_take_bit_int_eq_self)

lemma sint_word64: "- (2 ^ 63) \<le> k \<Longrightarrow> k < 2 ^ 63 \<Longrightarrow> sint (of_int k :: 64 word) = k"
  by (simp add: sint_sbintrunc' signed_take_bit_int_eq_self)

text \<open>A handle that fits its type.\<close>

definition handle_ok :: "objhld \<Rightarrow> bool" where
  "handle_ok h \<longleftrightarrow> - (2 ^ 63) \<le> h \<and> h < 2 ^ 63"

lemma length_bytes64 [simp]: "length (bytes64 x) = 8"
  by (simp add: bytes64_def)

lemma pipe_message_fields:
  assumes "0 \<le> len" "len < 4080" "length pad = 4" "handle_ok h" "int (length d) = len"
  shows "pipe_length (pipe_message len h pad d) = len" "pipe_link (pipe_message len h pad d) = h"
    "int (length (pipe_message len h pad d)) = 16 + len"
    "buf_get (pipe_message len h pad d) 16 len = Some d"
proof -
  show "pipe_length (pipe_message len h pad d) = len"
    unfolding pipe_length_def pipe_message_def using assms by (simp add: sint_word32)
  have "drop 8 (pipe_message len h pad d) = bytes64 (of_int h) @ d"
    using assms(3) by (simp add: pipe_message_def)
  then show "pipe_link (pipe_message len h pad d) = h"
    unfolding pipe_link_def using assms(4) by (simp add: sint_word64 handle_ok_def)
  show "int (length (pipe_message len h pad d)) = 16 + len"
    using assms by (simp add: pipe_message_def)
  show "buf_get (pipe_message len h pad d) 16 len = Some d"
    using assms by (simp add: pipe_message_def buf_get_def)
qed

lemma pipe_rx_message:
  assumes m: "msg = pipe_message len h pad d"
    and ok: "0 \<le> len" "len < 4080" "length pad = 4" "handle_ok h" "int (length d) = len"
    and o: "objs w h = Some target" and k: "k_recv w = RxData msg a # RxErr EAGAIN # ks"
  shows "\<exists>w'. pipe_rx n w = Some (0, n, w') \<and> trace w' = trace w @ [Refr h]
    @ (case nis_callback target of None \<Rightarrow> [] | Some f \<Rightarrow> [Post f (EVT_PIPEDATA (hld target) d)]) @ [Defr h]"
proof -
  note f = pipe_message_fields [OF ok, folded m]
  have "nat (16 + len) = length msg" using f(3) by simp
  then have l: "int (length msg) \<le> 4096" "take 4096 msg = msg" using f(3) ok(2) by simp_all
  let ?w = "w\<lparr>k_recv := RxErr EAGAIN # ks\<rparr>"
  have rc: "recv_call PIPE_BUF w = Some (16 + len, msg, a, ?w)"
    using k l f(3) by (simp add: recv_call_def PIPE_BUF_def)
  let ?w1 = "objdefr h (post target (EVT_PIPEDATA (hld target) d) (emit (Refr h) ?w))"
  have "pipe_rx n w = pipe_rx n ?w1"
    using ok o by (subst pipe_rx.simps) (simp add: rc f pipe_head_size_def objrefr_def)
  moreover have "k_recv ?w1 = RxErr EAGAIN # ks" by (simp add: objdefr_def)
  then have "pipe_rx n ?w1 = Some (0, n, ?w1\<lparr>k_recv := ks, errno := EAGAIN\<rparr>)"
    by (subst pipe_rx.simps) (simp add: recv_call_def)
  ultimately show ?thesis by (simp add: objdefr_def post_trace)
qed

lemma pipe_write_sends:
  assumes len: "0 \<le> cb" "cb < 4080" "cb \<le> int (length d)" and fd: "io_pipefd n w = Some (fd, w1)" "0 < fd"
    and k: "k_fail w1 SYS_malloc = []" "k_send w1 = KRet m # ks" "16 + cb \<le> m"
  shows "\<exists>pad w2. length pad = 4 \<and> pipe_write_message n d cb w = Some (16 + cb, w2)
    \<and> trace w2 = trace w1 @ [WritePipe fd (pipe_message cb (hld n) pad (take (nat cb) d))]
    \<and> heap w2 = heap w1 + 1"
proof -
  define pad where "pad = take 4 (drop 4 (replicate (nat (16 + cb)) (junk w1)))"
  have lp: "length pad = 4" using len by (simp add: pad_def)
  have pd: "take 4 (drop 4 (replicate (nat (16 + cb)) (junk w1))) = pad" by (simp only: pad_def)
  define msg where "msg = pipe_message cb (hld n) pad (take (nat cb) d)"
  have lm: "int (length msg) = 16 + cb"
    using len lp by (simp add: msg_def pipe_message_def bytes64_def)
  have mal: "malloc (16 + cb) w1 = (Some (replicate (nat (16 + cb)) (junk w1)), w1\<lparr>heap := heap w1 + 1\<rparr>)"
    by (simp add: malloc_def simple_call_ok k)
  have d: "buf_get d 0 cb = Some (take (nat cb) d)" using len by (simp add: buf_get_def)
  have g: "buf_get msg 0 (16 + cb) = Some msg" using lm by (simp add: buf_get_def)
  have "nat m \<ge> length msg" using lm k(3) by simp
  then have s: "send_call (WritePipe fd) msg 0 (16 + cb) (w1\<lparr>heap := heap w1 + 1\<rparr>)
      = Some (16 + cb, emit (WritePipe fd msg) (w1\<lparr>heap := heap w1 + 1, k_send := ks\<rparr>))"
    using lm k(2) by (simp add: send_call_def g)
  have "pipe_write_message n d cb w = Some (16 + cb, emit (WritePipe fd msg) (w1\<lparr>heap := heap w1 + 1, k_send := ks\<rparr>))"
    using len fd unfolding pipe_write_message_def PIPE_BUF_def pipe_head_size_def
    by (simp add: mal d pd s Let_def flip: msg_def del: drop_replicate take_replicate)
  then show ?thesis using lp by (auto simp: msg_def)
qed

end
