(* ===== verification/Tcp.thy ===== *)
theory Tcp
  imports Tcpio Link Pipe
begin

text \<open>
  tcp.c: the operations of the user on a TCP link. Each takes the handle, refers to the block
  through \<open>__tcprefr\<close> and gives the reference back (\<open>with_link\<close>). A pointer argument that the
  code checks for null is an \<open>option\<close>; a result that the code stores through a pointer is part of
  the answer.
\<close>

section \<open>Templates\<close>

definition tcp_settst :: "objhld \<Rightarrow> tst option \<Rightarrow> world \<Rightarrow> (int \<times> world) option" where
  "tcp_settst link p w = (case p of None \<Rightarrow> Some (- EINVAL, w)
     | Some t \<Rightarrow> if t_cb t > TCP_MAXIMUM_TEMPLATE_SIZE then Some (- EINVAL, w)
       else with_link i_tcprefr id
         (\<lambda>n w. Some (0, n\<lparr>tcp := (tcp n)\<lparr>template := t\<rparr>\<rparr>, w)) link w)"

text \<open>The same, with the previous template kept.\<close>

definition tcp_settst_r :: "objhld \<Rightarrow> tst option \<Rightarrow> world \<Rightarrow> (int \<times> world) option" where
  "tcp_settst_r link p w = (case p of None \<Rightarrow> Some (- EINVAL, w)
     | Some t \<Rightarrow> if t_cb t > TCP_MAXIMUM_TEMPLATE_SIZE then Some (- EINVAL, w)
       else with_link i_tcprefr id
         (\<lambda>n w. Some (0, n\<lparr>tcp := (tcp n)\<lparr>prtemplate := template (tcp n), template := t\<rparr>\<rparr>, w)) link w)"

text \<open>\<open>p\<close> is the caller's structure; the answer is the status and what it holds afterwards.\<close>

definition tcp_gettst :: "objhld \<Rightarrow> tst option \<Rightarrow> world \<Rightarrow> ((int \<times> tst option) \<times> world) option" where
  "tcp_gettst link p w = (case p of None \<Rightarrow> Some ((- EINVAL, None), w)
     | Some old \<Rightarrow> with_link i_tcprefr (\<lambda>r. (r, Some old))
         (\<lambda>n w. Some ((0, Some (template (tcp n))), n, w)) link w)"

definition tcp_gettst_r :: "objhld \<Rightarrow> tst option \<Rightarrow> tst option \<Rightarrow> world
    \<Rightarrow> ((int \<times> tst option \<times> tst option) \<times> world) option" where
  "tcp_gettst_r link p previous w = (case p of None \<Rightarrow> Some ((- EINVAL, None, previous), w)
     | Some old \<Rightarrow> with_link i_tcprefr (\<lambda>r. (r, Some old, previous))
         (\<lambda>n w. Some ((0, Some (template (tcp n)), if previous = None then None else Some old), n, w))
         link w)"

section \<open>Creation and destruction\<close>

definition tcp_create :: "nat option \<Rightarrow> string option \<Rightarrow> u16 \<Rightarrow> world \<Rightarrow> (objhld \<times> world) option" where
  "tcp_create callback ipstr port w = do {
     (fd, w) \<leftarrow> newfd_call w;
     (if fd < 0 then Some (-1, w) else
      let (_, w) = setsockopt fd SO_REUSEADDR [1] w;
          addrlocal = \<lparr>sin_addr = (case ipstr of None \<Rightarrow> 0 | Some s \<Rightarrow> inet_addr (env w) s),
                       sin_port = htons port\<rparr>;
          (r, w) = bind_call fd addrlocal w
      in if r < 0 then Some (-1, emit (Close fd) w) else do {
        (h, w) \<leftarrow> objallo_ncb w;
        (if h < 0 then Some (-1, emit (Close fd) w)
         else let (p, w) = objrefr h w in do {
           n \<leftarrow> p;
           let n = n\<lparr>hld := h, sockfd := fd, protocol := IPPROTO_TCP, nis_callback := callback,
                     local_addr := addrlocal\<rparr>;
           let w = snd (ncb_set_linger n 0 0 w);
           let (pk, w) = malloc TCP_BUFFER_SIZE w;
           let n = n\<lparr>packet := pk\<rparr>;
           (if pk = None then Some (- ENOMEM, objclos h (objdefr h (put_ncb h n w))) else
            let n = n\<lparr>tcp := (tcp n)\<lparr>rx_parse_offset := 0\<rparr>\<rparr>;
                (b, w) = malloc TCP_BUFFER_SIZE w;
                n = n\<lparr>tcp := (tcp n)\<lparr>rx_buffer := b\<rparr>\<rparr>
            in if b = None then Some (- ENOMEM, objclos h (objdefr h (put_ncb h n w)))
               else Some (h, objdefr h (put_ncb h n w)))
         })
      })
   }"

text \<open>\<open>objreff\<close> takes the last reference; the socket is closed at once.\<close>

definition tcp_destroy :: "objhld \<Rightarrow> world \<Rightarrow> world" where
  "tcp_destroy link w = (case objreff link w of
       (None, w) \<Rightarrow> w
     | (Some n, w) \<Rightarrow> (let (n, w) = io_close n w in objdefr link (put_ncb link n w)))"

section \<open>Connecting and listening\<close>

lemma connect_consumes: "connect_call fd a w = Some (r, w') \<Longrightarrow> length (k_connect w') < length (k_connect w)"
  by (auto simp: connect_call_def split: list.splits kans.splits)

text \<open>The interrupted call is repeated.\<close>

function connect_retry :: "int \<Rightarrow> sockaddr_in \<Rightarrow> world \<Rightarrow> (int \<times> world) option" where
  "connect_retry fd a w = (case connect_call fd a w of None \<Rightarrow> None
     | Some (r, w) \<Rightarrow> if errno w = EINTR \<and> r < 0 then connect_retry fd a w else Some (r, w))"
  by pat_completeness auto
termination
  by (relation "measure (\<lambda>(fd, a, w). length (k_connect w))") (auto dest: connect_consumes)

declare connect_retry.simps [simp del]

text \<open>A connect that is interrupted any number of times and then granted.\<close>

lemma connect_retry_granted:
  "k_connect w = replicate k (KErr EINTR) @ KRet c # cs \<Longrightarrow> \<exists>e. connect_retry fd a w
     = Some (0, w\<lparr>k_connect := cs, errno := e, trace := trace w @ replicate (Suc k) (Connect fd a)\<rparr>)"
proof (induction k arbitrary: w)
  case 0
  then show ?case
    by (subst connect_retry.simps) (cases w, simp add: connect_call_def emit_def)
next
  case (Suc k)
  let ?w = "emit (Connect fd a) (w\<lparr>k_connect := replicate k (KErr EINTR) @ KRet c # cs, errno := EINTR\<rparr>)"
  have "connect_retry fd a w = connect_retry fd a ?w"
    using Suc.prems by (subst connect_retry.simps) (simp add: connect_call_def)
  moreover obtain e where "connect_retry fd a ?w
     = Some (0, ?w\<lparr>k_connect := cs, errno := e, trace := trace ?w @ replicate (Suc k) (Connect fd a)\<rparr>)"
    using Suc.IH [of ?w] by auto
  ultimately show ?case by (intro exI [of _ e]) (simp add: emit_def)
qed

definition tcp_connect :: "objhld \<Rightarrow> string option \<Rightarrow> u16 \<Rightarrow> world \<Rightarrow> (int \<times> world) option" where
  "tcp_connect link ipstr port w = (case ipstr of None \<Rightarrow> Some (- EINVAL, w) | Some ip \<Rightarrow>
      if link < 0 \<or> port = 0 then Some (- EINVAL, w) else
      with_link i_tcprefr id (\<lambda>n w. do {
        (r, tcpi_state, w) \<leftarrow> tcp_save_info n w;
        (if r \<ge> 0 \<and> tcpi_state \<noteq> TCP_CLOSE then Some (-1, n, w) else
         let (_, w) = setsockopt (sockfd n) TCP_SYNCNT [3] w;
             w = tcp_update_opts n w;
             addr_to = \<lparr>sin_addr = inet_addr (env w) ip, sin_port = htons port\<rparr>
         in do {
           (r, w) \<leftarrow> connect_retry (sockfd n) addr_to w;
           (if r < 0 then Some (r, n, w) else do {
              (r, n, w) \<leftarrow> io_attach n EPOLLIN w;
              (if r < 0 then Some (r, n, objclos link w) else
               let (ra, w) = getname (remot_addr n) w;
                   (la, w) = getname (local_addr n) w;
                   n = n\<lparr>remot_addr := ra, local_addr := la\<rparr>;
                   w = ncb_post_connected n w
               in Some (r, n\<lparr>ncb_read := Some R_tcp_rx, ncb_write := Some W_tcp_tx\<rparr>, w))
            })
         })
      }) link w)"

definition tcp_connect2 :: "objhld \<Rightarrow> string option \<Rightarrow> u16 \<Rightarrow> world \<Rightarrow> (int \<times> world) option" where
  "tcp_connect2 link ipstr port w = (case ipstr of None \<Rightarrow> Some (- EINVAL, w) | Some ip \<Rightarrow>
      if port = 0 \<or> link < 0 then Some (- EINVAL, w) else
      with_link i_tcprefr id (\<lambda>n w.
        let (r, w) = io_fcntl (sockfd n) w in
        if r < 0 then Some (-1, n, w) else do {
        (r, tcpi_state, w) \<leftarrow> tcp_save_info n w;
        (if r \<ge> 0 \<and> tcpi_state \<noteq> TCP_CLOSE then Some (-1, n, w)
         else if ncb_write n \<noteq> None then Some (-1, n, w) else
         let n = n\<lparr>ncb_write := Some W_tcp_tx_syn\<rparr>;
             (_, w) = setsockopt (sockfd n) TCP_SYNCNT [3] w;
             n = n\<lparr>remot_addr := \<lparr>sin_addr = inet_addr (env w) ip, sin_port = htons port\<rparr>\<rparr>
         in do {
           (r, w) \<leftarrow> connect_retry (sockfd n) (remot_addr n) w;
           (if r = 0 then do { (_, n, w) \<leftarrow> tcp_tx_syn n w; Some (r, n, w) }
            else if errno w = EINPROGRESS then do {
              (r, n, w) \<leftarrow> io_attach n EPOLLOUT w;
              Some (r, n, if r < 0 then objclos link w else w)
            }
            else Some (r, n, w))
         })
      }) link w)"

definition tcp_listen :: "objhld \<Rightarrow> int \<Rightarrow> world \<Rightarrow> (int \<times> world) option" where
  "tcp_listen link block w =
     (if block < 0 \<or> block \<ge> 0x7FFF then Some (- EINVAL, w) else
      with_link i_tcprefr id (\<lambda>n w. do {
        (r, tcpi_state, w) \<leftarrow> tcp_save_info n w;
        (if r \<ge> 0 \<and> tcpi_state \<noteq> TCP_CLOSE then Some (-1, n, w) else
         let (retval, w) = simple_call SYS_listen w in
         if retval < 0 then Some (retval, n, w) else
         let w = emit (Listen (sockfd n)
                   (if block = 0 \<or> block > SOMAXCONN (env w) then SOMAXCONN (env w) else block)) w in
         if ncb_read n \<noteq> None then Some (-1, n, w) else
         let n = n\<lparr>ncb_read := Some R_tcp_syn, ncb_write := None\<rparr> in do {
           (r, n, w) \<leftarrow> io_attach n EPOLLIN w;
           (if r < 0 then Some (retval, n, objclos link w)
            else let (la, w) = getname (local_addr n) w in Some (0, n\<lparr>local_addr := la\<rparr>, w))
         })
      }) link w)"

section \<open>Writing\<close>

definition tcp_awaken :: "objhld \<Rightarrow> byte list \<Rightarrow> int \<Rightarrow> world \<Rightarrow> (int \<times> world) option" where
  "tcp_awaken link pipedata cb w = (if link < 0 then Some (- EINVAL, w) else
     with_link i_tcprefr id
       (\<lambda>n w. do { (r, w) \<leftarrow> pipe_write_message n pipedata cb w; Some (r, n, w) }) link w)"

text \<open>The payload at offset \<open>off\<close> of the buffer: what the user's serializer writes, or a copy of
  \<open>origin\<close>. The answer is the status and the buffer.\<close>

definition fill_payload :: "nis_serializer option \<Rightarrow> byte list \<Rightarrow> int \<Rightarrow> byte list \<Rightarrow> int
    \<Rightarrow> (int \<times> byte list) option" where
  "fill_payload serializer origin cb buffer off = (case serializer of
       Some f \<Rightarrow> (let (r, bs) = f origin cb in do {
         buffer \<leftarrow> buf_put buffer off bs;
         Some (r, buffer)
       })
     | None \<Rightarrow> do {
         bs \<leftarrow> buf_get origin 0 cb;
         buffer \<leftarrow> buf_put buffer off bs;
         Some (0, buffer)
       })"

text \<open>The packet: the payload alone where there is no builder or \<open>LINKATTR_TCP_NO_BUILD\<close> is set, and
  the builder's head before it otherwise. The answer is the status and the buffer, if it was
  allocated.\<close>

definition tcp_make_packet :: "ncb \<Rightarrow> byte list \<Rightarrow> int \<Rightarrow> nis_serializer option \<Rightarrow> world
    \<Rightarrow> (int \<times> byte list option \<times> world) option" where
  "tcp_make_packet n origin cb serializer w =
     (let t = template (tcp n) in
      case (t_builder t, attr n AND LINKATTR_TCP_NO_BUILD (env w) \<noteq> 0) of
        (Some builder, False) \<Rightarrow>
          (case malloc (cb + t_cb t) w of
             (None, w) \<Rightarrow> Some (- ENOMEM, None, w)
           | (Some buffer, w) \<Rightarrow> (let (r, hdr) = builder cb in do {
               buffer \<leftarrow> buf_put buffer 0 hdr;
               (if r < 0 then Some (-1, Some buffer, w) else do {
                  (r, buffer) \<leftarrow> fill_payload serializer origin cb buffer (t_cb t);
                  Some (if r < 0 then -1 else 0, Some buffer, w)
                })
             }))
      | _ \<Rightarrow>
          (case malloc cb w of
             (None, w) \<Rightarrow> Some (- ENOMEM, None, w)
           | (Some buffer, w) \<Rightarrow> do {
               (r, buffer) \<leftarrow> fill_payload serializer origin cb buffer 0;
               Some (if r < 0 then -1 else 0, Some buffer, w)
             }))"

definition sizeof_tx_node :: int where
  "sizeof_tx_node = 72"

text \<open>The body of \<open>tcp_write\<close>, between the reference and its return.\<close>

definition tcp_write_body :: "byte list \<Rightarrow> int \<Rightarrow> nis_serializer option \<Rightarrow> ncb \<Rightarrow> world
    \<Rightarrow> (int \<times> ncb \<times> world) option" where
  "tcp_write_body origin cb serializer n w =
     (if ncb_write n = None \<or> ncb_read n = None then Some (- EINVAL, n, w) else do {
        (r, tcpi_state, w) \<leftarrow> tcp_save_info n w;
        (if r \<ge> 0 \<and> tcpi_state \<noteq> TCP_ESTABLISHED then Some (-1, n, w) else do {
          (r, p, w) \<leftarrow> tcp_make_packet n origin cb serializer w;
          (case p of
             None \<Rightarrow> Some (r, n, w)
           | Some buffer \<Rightarrow>
               if r < 0 then Some (r, n, free w) else
               (case malloc sizeof_tx_node w of
                  (None, w) \<Rightarrow> Some (- ENOMEM, n, free w)
                | (Some _, w) \<Rightarrow> write_node tcp_txn n
                    (tx_node_zero\<lparr>data := buffer, wcb := cb + t_cb (template (tcp n)), offset := 0\<rparr>) w))
        })
      })"

definition tcp_write :: "objhld \<Rightarrow> byte list option \<Rightarrow> int \<Rightarrow> nis_serializer option \<Rightarrow> world
    \<Rightarrow> (int \<times> world) option" where
  "tcp_write link p cb serializer w = (case p of None \<Rightarrow> Some (- EINVAL, w)
     | Some origin \<Rightarrow>
         if link < 0 \<or> cb \<le> 0 \<or> cb > TCP_MAXIMUM_PACKET_SIZE then Some (- EINVAL, w)
         else with_link i_tcprefr id (tcp_write_body origin cb serializer) link w)"

section \<open>Addresses, options, attributes\<close>

text \<open>The pointers that are null receive nothing.\<close>

definition tcp_getaddr :: "objhld \<Rightarrow> int \<Rightarrow> u32 option \<Rightarrow> u16 option \<Rightarrow> world
    \<Rightarrow> ((int \<times> u32 option \<times> u16 option) \<times> world) option" where
  "tcp_getaddr link kind ipv4 port w = with_link i_tcprefr (\<lambda>r. (r, ipv4, port)) (\<lambda>n w.
     Some ((if kind = LINK_ADDR_LOCAL (env w)
            then (0, map_option (\<lambda>_. htonl (sin_addr (local_addr n))) ipv4,
                     map_option (\<lambda>_. htons (sin_port (local_addr n))) port)
            else if kind = LINK_ADDR_REMOTE (env w)
            then (0, map_option (\<lambda>_. htonl (sin_addr (remot_addr n))) ipv4,
                     map_option (\<lambda>_. htons (sin_port (remot_addr n))) port)
            else (- EINVAL, ipv4, port)), n, w)) link w"

definition tcp_setopt :: "objhld \<Rightarrow> int \<Rightarrow> int \<Rightarrow> int list \<Rightarrow> world \<Rightarrow> (int \<times> world) option" where
  "tcp_setopt link level opt val w = with_link i_tcprefr id
     (\<lambda>n w. let (r, w) = setsockopt (sockfd n) (OPT level opt) val w in Some (r, n, w)) link w"

definition tcp_getopt :: "objhld \<Rightarrow> int \<Rightarrow> int \<Rightarrow> int list \<Rightarrow> world
    \<Rightarrow> ((int \<times> int list) \<times> world) option" where
  "tcp_getopt link level opt old w = with_link i_tcprefr (\<lambda>r. (r, old))
     (\<lambda>n w. let (r, v, w) = getsockopt (sockfd n) (OPT level opt) w
            in Some ((r, if r < 0 then old else v), n, w)) link w"

definition tcp_setattr :: "objhld \<Rightarrow> u32 \<Rightarrow> int \<Rightarrow> world \<Rightarrow> (int \<times> world) option" where
  "tcp_setattr link a enable w = with_link i_tcprefr id (\<lambda>n w.
     if a = LINKATTR_TCP_FULLY_RECEIVE (env w) \<or> a = LINKATTR_TCP_NO_BUILD (env w)
        \<or> a = LINKATTR_TCP_UPDATE_ACCEPT_CONTEXT (env w)
     then Some (0, n\<lparr>attr := (if enable > 0 then attr n OR a else attr n AND NOT a)\<rparr>, w)
     else Some (- EINVAL, n, w)) link w"

text \<open>\<open>enabled\<close> is written through without a check; it holds \<open>old\<close> before.\<close>

definition tcp_getattr :: "objhld \<Rightarrow> u32 \<Rightarrow> int \<Rightarrow> world \<Rightarrow> ((int \<times> int) \<times> world) option" where
  "tcp_getattr link a old w = with_link i_tcprefr (\<lambda>r. (r, old))
     (\<lambda>n w. Some ((0, if attr n AND a \<noteq> 0 then 1 else 0), n, w)) link w"

definition tcp_setattr_r :: "ncb \<Rightarrow> u32 \<Rightarrow> ncb" where
  "tcp_setattr_r n a = n\<lparr>attr := a\<rparr>"

text \<open>The builtin stores the new value and answers the one it replaces.\<close>

definition tcp_getattr_r :: "ncb \<Rightarrow> u32 \<Rightarrow> u32 \<times> u32" where
  "tcp_getattr_r n old = (old, attr n)"

end
