(* ===== verification/Tcp_tx.thy ===== *)
theory Tcp_tx
  imports Tcp
begin

text \<open>
  Sending on a TCP link: what \<open>tcp_tx\<close> and \<open>tcp_write\<close> do to the output stream, that is, the bytes
  the kernel took followed by the bytes of the queue.
\<close>

definition out_stream :: "ncb \<Rightarrow> world \<Rightarrow> byte list" where
  "out_stream n w = sent (sockfd n) (trace w) @ pend (fhead (fifo n))"

definition tx_ok :: "ncb \<Rightarrow> bool" where
  "tx_ok n \<longleftrightarrow> fifo_ok n \<and> nodes_ok n"

lemma save_infoE:
  assumes "tcp_save_info n w = Some (r, st, w')"
  obtains (failed) ks where "k_tcpinfo w = None # ks" "r = -1" "w' = w\<lparr>k_tcpinfo := ks\<rparr>"
  | (known) ks where "k_tcpinfo w = Some st # ks" "r = 0" "w' = w\<lparr>k_tcpinfo := ks\<rparr>"
  using assms by (auto simp: tcp_save_info_def split: list.splits option.splits)

lemma set_top_fifo: "\<exists>f. fifo_set_top x n = n\<lparr>fifo := f\<rparr>"
proof (cases "fhead (fifo n)")
  case Nil
  then have "fifo_set_top x n = n\<lparr>fifo := fifo n\<rparr>" by (simp add: fifo_set_top_def)
  then show ?thesis by blast
qed (auto simp: fifo_set_top_def)

lemma tcp_tx_law:
  assumes t: "tcp_tx n w = Some (r, n', w')" and ok: "tx_ok n"
  shows "(\<exists>f. n' = n\<lparr>fifo := f\<rparr>) \<and> tx_ok n' \<and> out_stream n' w' = out_stream n w
    \<and> balanced w w' \<and> objs w' = objs w \<and> pools w' = pools w \<and> heap w' = heap w \<and> epolls w' = epolls w
    \<and> (0 < r \<longrightarrow> (\<exists>x xs. fhead (fifo n') = x # xs \<and> node_rest x = []))
    \<and> length (fhead (fifo n')) = length (fhead (fifo n))
    \<and> (r < 0 \<longrightarrow> r = -1 \<or> r = - EAGAIN)"
proof -
  obtain r1 st w1 where i: "tcp_save_info n w = Some (r1, st, w1)"
    using t by (auto simp: tcp_tx_def split: Option.bind_splits)
  then have w1: "\<exists>ks. w1 = w\<lparr>k_tcpinfo := ks\<rparr>" by (rule save_infoE) auto
  have idn: "\<exists>f. n = n\<lparr>fifo := f\<rparr>" by (intro exI [of _ "fifo n"]) simp
  have noop: ?thesis if "n' = n" "w' = w1" "r = -1 \<or> r = 0"
    using that ok w1 idn by (auto simp: out_stream_def balanced_def)
  show ?thesis
  proof (cases "r1 \<ge> 0 \<and> st \<noteq> TCP_ESTABLISHED")
    case True
    then show ?thesis using t i by (intro noop) (auto simp: tcp_tx_def)
  next
    case go: False
    show ?thesis
    proof (cases "fhead (fifo n)")
      case Nil
      then show ?thesis using t i go by (intro noop) (auto simp: tcp_tx_def fifo_top_def)
    next
      case (Cons x xs)
      then obtain x' where x: "tcp_txn n x w1 = Some (r, x', w')" and n': "n' = fifo_set_top x' n"
        using t i go by (auto simp: tcp_tx_def fifo_top_def split: Option.bind_splits)
      have xok: "node_ok x" using ok Cons by (simp add: tx_ok_def nodes_ok_def)
      note l = tcp_s.law [OF xok x]
      have nok: "nodes_ok n" "fifo_ok n" using ok by (simp_all add: tx_ok_def)
      have hd: "fhead (fifo n') = x' # xs" using Cons by (simp add: n' fifo_set_top_def)
      have "sockfd n' = sockfd n" using set_top_fifo [of x' n] by (auto simp: n')
      moreover have "out_stream n' w' = out_stream n w"
        using tcp_s.front_keeps_stream(1) [OF Cons nok(1) x] w1 set_top_fifo [of x' n]
        by (auto simp: out_stream_def n')
      moreover have "tx_ok n'"
        using tcp_s.front_keeps_stream(2) [OF Cons nok(1) x] fifo_ok_set_top [OF nok(2)]
        by (simp add: tx_ok_def n')
      moreover have "balanced w w'" using l w1 by (auto simp: txn_law_def balanced_def)
      moreover have "0 < r \<longrightarrow> node_rest x' = []" using tcp_s.front_done(1) [OF xok x] by simp
      ultimately show ?thesis
        using l w1 hd Cons set_top_fifo [of x' n] by (auto simp: txn_law_def n')
    qed
  qed
qed

section \<open>The packet\<close>

text \<open>A builder writes its head before the payload; without one the payload is the packet.\<close>

definition built_packet :: "ncb \<Rightarrow> world \<Rightarrow> byte list \<Rightarrow> int \<Rightarrow> byte list option" where
  "built_packet n w origin cb =
     (case t_builder (template (tcp n)) of
        None \<Rightarrow> if t_cb (template (tcp n)) = 0 then Some (take (nat cb) origin) else None
      | Some b \<Rightarrow> (let (r, hdr) = b cb in
          if attr n AND LINKATTR_TCP_NO_BUILD (env w) = 0 \<and> 0 \<le> r
             \<and> int (length hdr) = t_cb (template (tcp n))
          then Some (hdr @ take (nat cb) origin) else None))"

lemma make_packet:
  assumes b: "built_packet n w origin cb = Some pkt" and cb: "0 < cb" "cb \<le> int (length origin)"
    and m: "k_fail w SYS_malloc = []"
  shows "tcp_make_packet n origin cb None w = Some (0, Some pkt, w\<lparr>heap := heap w + 1\<rparr>)
    \<and> int (length pkt) = cb + t_cb (template (tcp n))"
proof -
  let ?t = "template (tcp n)"
  have mal: "malloc k w = (Some (replicate (nat k) (junk w)), w\<lparr>heap := heap w + 1\<rparr>)" for k
    by (simp add: malloc_def simple_call_ok m)
  have g: "buf_get origin 0 cb = Some (take (nat cb) origin)" using cb by (simp add: buf_get_def)
  have l: "length (take (nat cb) origin) = nat cb" using cb by simp
  show ?thesis
  proof (cases "t_builder ?t")
    case None
    with b have p: "t_cb ?t = 0" "pkt = take (nat cb) origin" by (auto simp: built_packet_def split: if_splits)
    have "buf_put (replicate (nat cb) (junk w)) 0 (take (nat cb) origin) = Some pkt"
      using l cb by (simp add: buf_put_def p(2))
    then show ?thesis using None p l cb by (simp add: tcp_make_packet_def fill_payload_def mal g)
  next
    case (Some bld)
    obtain r hdr where h: "bld cb = (r, hdr)" by fastforce
    with b Some have p: "attr n AND LINKATTR_TCP_NO_BUILD (env w) = 0" "0 \<le> r"
      "int (length hdr) = t_cb ?t" "pkt = hdr @ take (nat cb) origin"
      by (auto simp: built_packet_def split: if_splits)
    let ?m = "replicate (nat (cb + t_cb ?t)) (junk w)"
    have n: "nat (cb + t_cb ?t) = length hdr + nat cb" using p(3) cb by (simp add: nat_add_distrib)
    define m1 where "m1 = hdr @ drop (length hdr) ?m"
    have 1: "buf_put ?m 0 hdr = Some m1"
      unfolding n m1_def by (simp add: buf_put_def)
    have 2: "buf_put m1 (t_cb ?t) (take (nat cb) origin) = Some pkt"
      unfolding n p(3) [symmetric] m1_def using l cb by (subst buf_put_nat) (simp_all add: p(4))
    have "int (length pkt) = cb + t_cb ?t" using p cb l by simp
    then show ?thesis
      using Some p(1,2) by (simp add: tcp_make_packet_def fill_payload_def Let_def h mal 1 g 2)
  qed
qed

lemma built_packet_env: "env w' = env w \<Longrightarrow> built_packet n w' = built_packet n w"
  by (auto simp: fun_eq_iff built_packet_def split: option.split)

section \<open>tcp_write\<close>

definition may_write :: "ncb \<Rightarrow> world \<Rightarrow> bool" where
  "may_write n w \<longleftrightarrow> ncb_write n \<noteq> None \<and> ncb_read n \<noteq> None
     \<and> (case k_tcpinfo w of [] \<Rightarrow> False | None # _ \<Rightarrow> True | Some st # _ \<Rightarrow> st = TCP_ESTABLISHED)"

lemma tcp_write_body_stream:
  assumes w: "tcp_write_body origin cb None n w = Some (r, n', w')" and ok: "tx_ok n" "may_write n w"
    and b: "built_packet n w origin cb = Some pkt" and cb: "0 < cb" "cb \<le> int (length origin)"
    and m: "k_fail w SYS_malloc = []" and t: "0 \<le> t_cb (template (tcp n))"
  shows "tx_ok n' \<and> sockfd n' = sockfd n \<and> objs w' = objs w
    \<and> (\<exists>k. out_stream n' w' = out_stream n w @ take k pkt \<and> (0 \<le> r \<longrightarrow> take k pkt = pkt))
    \<and> heap w' = heap w + (if r = 0 then 2 else 0)"
proof -
  obtain r1 st w1 where i: "tcp_save_info n w = Some (r1, st, w1)" "\<not> (r1 \<ge> 0 \<and> st \<noteq> TCP_ESTABLISHED)"
      and w1: "\<exists>ks. w1 = w\<lparr>k_tcpinfo := ks\<rparr>"
    using ok(2) by (auto simp: may_write_def tcp_save_info_def split: list.splits option.splits)
  have b1: "built_packet n w1 origin cb = Some pkt" "k_fail w1 SYS_malloc = []"
    using b m w1 built_packet_env [of w1 w n] by auto
  note mp = make_packet [OF b1(1) cb b1(2)]
  let ?x = "tx_node_zero\<lparr>data := pkt, wcb := cb + t_cb (template (tcp n)), offset := 0\<rparr>"
  let ?w2 = "w1\<lparr>heap := heap w1 + 2\<rparr>"
  have mal: "malloc sizeof_tx_node (w1\<lparr>heap := heap w1 + 1\<rparr>)
      = (Some (replicate (nat sizeof_tx_node) (junk w1)), ?w2)"
    by (simp add: malloc_def simple_call_ok b1)
  have wn: "write_node tcp_txn n ?x ?w2 = Some (r, n', w')"
    using w ok(2) i by (auto simp: tcp_write_body_def may_write_def mp mal)
  have x: "node_ok ?x" "node_rest ?x = pkt" "0 < wcb ?x"
    using mp cb t by (auto simp: node_ok_def node_rest_def tx_node_zero_def)
  have tok: "fifo_ok n" "nodes_ok n" using ok(1) by (simp_all add: tx_ok_def)
  from tcp_s.write_node_stream [OF wn tok x(1)] obtain k where
    k: "sent (sockfd n) (trace w') @ pend (fhead (fifo n')) = sent (sockfd n) (trace ?w2) @ pend (fhead (fifo n)) @ take k pkt"
      "0 \<le> r \<longrightarrow> take k pkt = pkt"
    and s: "fifo_ok n'" "nodes_ok n'" "sockfd n' = sockfd n" "objs w' = objs ?w2"
      "heap w' = (if r = 0 \<and> fhead (fifo n') \<noteq> [] then heap ?w2 else heap ?w2 - 2)"
      "r = 0 \<longrightarrow> fhead (fifo n') \<noteq> []"
    unfolding x(2) using x(3) by auto
  have "out_stream n' w' = out_stream n w @ take k pkt" using k(1) s(3) w1 by (auto simp: out_stream_def)
  moreover have "heap w' = heap w + (if r = 0 then 2 else 0)" using s(5,6) w1 by auto
  ultimately show ?thesis using s k(2) w1 by (auto simp: tx_ok_def)
qed

end
