(* ===== verification/Loops.thy ===== *)
theory Loops
  imports Ncb
begin

text \<open>
  The contract of the event loops. An edge-triggered handler (\<open>tcp_rx\<close>, \<open>tcp_syn\<close>, \<open>udp_rx\<close>,
  \<open>arp_rx\<close>) repeats one round while the round answers \<open>0\<close>. What its caller relies on follows from
  two laws, that the loop unfolds to the round, and that a round which asks for another one has
  used up some of the kernel's answers.
\<close>

locale rx_loop =
  fixes once :: "'s \<Rightarrow> (int \<times> 's) option"
    and run :: "'s \<Rightarrow> (int \<times> 's) option"
    and left :: "'s \<Rightarrow> nat"
  assumes unfold: "run s = Option.bind (once s) (\<lambda>(r, s). if r = 0 then run s else Some (r, s))"
    and uses_up: "once s = Some (0, s') \<Longrightarrow> left s' < left s"
begin

text \<open>The loop never answers \<open>0\<close>, and an invariant of the round is one of the loop.\<close>

lemma ends_nonzero: "run s = Some (r, s') \<Longrightarrow> r \<noteq> 0"
proof (induction "left s" arbitrary: s rule: less_induct)
  case less
  show ?case
  proof (cases "once s")
    case None
    with less.prems show ?thesis by (subst (asm) unfold) simp
  next
    case (Some p)
    then obtain r1 s1 where o: "once s = Some (r1, s1)" by (cases p) simp
    show ?thesis
    proof (cases "r1 = 0")
      case True
      with o uses_up have "left s1 < left s" by simp
      moreover have "run s1 = Some (r, s')" using less.prems o True by (subst (asm) unfold) simp
      ultimately show ?thesis by (rule less.hyps)
    next
      case False
      with less.prems o show ?thesis by (subst (asm) unfold) simp
    qed
  qed
qed

lemma keeps:
  assumes "\<And>s r s'. P s \<Longrightarrow> once s = Some (r, s') \<Longrightarrow> P s'"
  shows "P s \<Longrightarrow> run s = Some (r, s') \<Longrightarrow> P s'"
proof (induction "left s" arbitrary: s rule: less_induct)
  case less
  show ?case
  proof (cases "once s")
    case None
    with less.prems show ?thesis by (subst (asm) unfold) simp
  next
    case (Some p)
    then obtain r1 s1 where o: "once s = Some (r1, s1)" by (cases p) simp
    then have p: "P s1" using assms less.prems(1) by blast
    show ?thesis
    proof (cases "r1 = 0")
      case True
      with o uses_up have "left s1 < left s" by simp
      moreover have "run s1 = Some (r, s')" using less.prems(2) o True by (subst (asm) unfold) simp
      ultimately show ?thesis using p less.hyps by blast
    next
      case False
      with less.prems(2) o p show ?thesis by (subst (asm) unfold) simp
    qed
  qed
qed

text \<open>A loop that meets the inputs \<open>xs\<close> first, each of which asks for another round and adds its own
  output, adds the outputs in order and goes on with what comes behind them.\<close>

lemma rounds:
  assumes "\<And>s x xs. P s (x # xs) \<Longrightarrow> \<exists>s'. once s = Some (0, s') \<and> P s' xs \<and> out s' = out s @ f x"
  shows "P s xs \<Longrightarrow> \<exists>s'. run s = run s' \<and> P s' [] \<and> out s' = out s @ concat (map f xs)"
proof (induction xs arbitrary: s)
  case Nil
  then show ?case by auto
next
  case (Cons x xs)
  from assms [OF Cons.prems] obtain s' where s': "once s = Some (0, s')" "P s' xs" "out s' = out s @ f x"
    by blast
  have "run s = run s'" by (subst unfold) (simp add: s'(1))
  with Cons.IH [OF s'(2)] s'(3) show ?case by auto
qed

end

end
