(* ===== verification/Udpio.thy ===== *)
theory Udpio
  imports Txn Loops
begin

text \<open>
  udpio.c: receiving and sending datagrams. One \<open>recvfrom\<close> is one datagram and one event.
\<close>

section \<open>Receiving\<close>

text \<open>The event carries the sender's address and its port in host order.\<close>

definition i_udp_rx :: "ncb \<Rightarrow> world \<Rightarrow> (int \<times> ncb \<times> world) option" where
  "i_udp_rx n w = do {
     pk \<leftarrow> packet n;
     (recvcb, bs, remote, w) \<leftarrow> recv_call (MAX_UDP_UNIT (env w)) w;
     pk \<leftarrow> buf_put pk 0 bs;
     let n = n\<lparr>packet := Some pk\<rparr>;
     (if recvcb > 0 then do {
        d \<leftarrow> buf_get pk 0 recvcb;
        Some (0, n, post n (EVT_UDP_RECEIVEDATA (hld n) d (sin_addr remote) (htons (sin_port remote))) w)
      }
      else if recvcb = 0 then Some (-1, n, w)
      else if errno w = EAGAIN then Some (EAGAIN, n, w)
      else if errno w = EINTR then Some (0, n, w)
      else Some (-1, n, w))
   }"

lemma post_consumes [simp]: "k_recv (post n e w) = k_recv w"
  by (simp add: post_def split: option.split)

lemma i_udp_rx_consumes: "i_udp_rx n w = Some (r, n', w') \<Longrightarrow> length (k_recv w') < length (k_recv w)"
  unfolding i_udp_rx_def Let_def
  by (auto split: Option.bind_splits if_splits prod.splits dest!: recv_call_consumes)

function udp_rx :: "ncb \<Rightarrow> world \<Rightarrow> (int \<times> ncb \<times> world) option" where
  "udp_rx n w = (case i_udp_rx n w of None \<Rightarrow> None
     | Some (r, n, w) \<Rightarrow> if r = 0 then udp_rx n w else Some (r, n, w))"
  by pat_completeness auto
termination
  by (relation "measure (\<lambda>(n, w). length (k_recv w))") (auto dest: i_udp_rx_consumes)

declare udp_rx.simps [simp del]

section \<open>Sending\<close>

text \<open>The node pointer is never null: it is a local of the writer or the front of the queue.\<close>

function udp_txn :: "ncb \<Rightarrow> tx_node \<Rightarrow> world \<Rightarrow> (int \<times> tx_node \<times> world) option" where
  "udp_txn n node w =
     (if offset node < wcb node then
        case send_call (\<lambda>bs. SendtoIn (sockfd n) bs (udp_target node))
               (data node) (offset node) (wcb node - offset node) w of
          None \<Rightarrow> None
        | Some (r, w) \<Rightarrow>
            if r = 0 then Some (-1, node, w)
            else if r < 0 then
              if errno w = EAGAIN then Some (- EAGAIN, node, w)
              else if errno w = EINTR then udp_txn n node w
              else Some (-1, node, w)
            else udp_txn n (node\<lparr>offset := offset node + r\<rparr>) w
      else Some (wcb node, node, w))"
  by pat_completeness auto
termination
  by (relation "measure (\<lambda>(n, x, w). length (k_send w))") (auto dest: send_call_consumes)

declare udp_txn.simps [simp del]

definition udp_tx :: "ncb \<Rightarrow> world \<Rightarrow> (int \<times> ncb \<times> world) option" where
  "udp_tx n w = (case fifo_top n of
       Some node \<Rightarrow> do {
         (r, node, w) \<leftarrow> udp_txn n node w;
         let n = fifo_set_top node n;
         (if r > 0 then let (_, _, n, w) = fifo_pop False n w in Some (r, n, w)
          else Some (r, n, w))
       }
     | None \<Rightarrow> Some (0, n, w))"

section \<open>The contracts\<close>

lemma udp_txn_loop: "udp_txn n x w = send_loop (\<lambda>bs. SendtoIn (sockfd n) bs (udp_target x)) x w"
proof (induction n x w rule: udp_txn.induct)
  case (1 n x w)
  show ?case
    by (subst udp_txn.simps, subst send_loop.simps)
      (auto simp: "1.IH" split: option.split)
qed

interpretation udp_s: sender udp_txn
proof
  show "txn_law n x w r x' w'" if "node_ok x" "udp_txn n x w = Some (r, x', w')" for n x w r x' w'
    using that send_loop_law [of n "\<lambda>bs. SendtoIn (sockfd n) bs (udp_target x)" x w r x' w']
    by (simp add: udp_txn_loop)
  show "\<exists>r x' w'. udp_txn n x w = Some (r, x', w')"
    if "node_ok x" "wcb x - offset x \<le> int (answers (k_send w))" for n x w
    using send_loop_returns [OF that] by (simp add: udp_txn_loop)
qed

interpretation udp_l: rx_loop "\<lambda>(n, w). i_udp_rx n w" "\<lambda>(n, w). udp_rx n w"
  "\<lambda>(n, w). length (k_recv w)"
proof
  show "(case s of (n, w) \<Rightarrow> udp_rx n w) = Option.bind (case s of (n, w) \<Rightarrow> i_udp_rx n w)
      (\<lambda>(r, s). if r = 0 then (case s of (n, w) \<Rightarrow> udp_rx n w) else Some (r, s))"
    for s :: "ncb \<times> world"
    by (cases s; simp; subst udp_rx.simps; cases "i_udp_rx (fst s) (snd s)"; auto)
qed (auto dest: i_udp_rx_consumes)

section \<open>Datagrams\<close>

text \<open>The receive buffer of a UDP link: room for the largest datagram.\<close>

definition udp_ready :: "ncb \<Rightarrow> world \<Rightarrow> bool" where
  "udp_ready n w \<longleftrightarrow> 0 < MAX_UDP_UNIT (env w) \<and> (case packet n of None \<Rightarrow> False
     | Some pk \<Rightarrow> MAX_UDP_UNIT (env w) \<le> int (length pk))"

text \<open>What the user hears of a datagram.\<close>

definition udp_event :: "ncb \<Rightarrow> world \<Rightarrow> byte list \<times> sockaddr_in \<Rightarrow> effect list" where
  "udp_event n w = (\<lambda>(d, a). case nis_callback n of None \<Rightarrow> []
     | Some f \<Rightarrow> [Post f (EVT_UDP_RECEIVEDATA (hld n) (take (nat (MAX_UDP_UNIT (env w))) d)
         (sin_addr a) (htons (sin_port a)))])"

lemma udp_round:
  assumes "udp_ready n w" "k_recv w = RxData d a # ks" "d \<noteq> []"
  shows "\<exists>pk. i_udp_rx n w = Some (0, n\<lparr>packet := Some pk\<rparr>,
      w\<lparr>k_recv := ks, trace := trace w @ udp_event n w (d, a)\<rparr>) \<and> udp_ready (n\<lparr>packet := Some pk\<rparr>) w"
proof -
  from assms(1) obtain pk where pk: "packet n = Some pk" "0 < MAX_UDP_UNIT (env w)"
      "MAX_UDP_UNIT (env w) \<le> int (length pk)"
    by (auto simp: udp_ready_def split: option.splits)
  define got where "got = take (nat (MAX_UDP_UNIT (env w))) d"
  have g: "got \<noteq> []" "length got \<le> length pk" using pk assms(3) by (auto simp: got_def)
  define pk' where "pk' = got @ drop (length got) pk"
  have put: "buf_put pk 0 got = Some pk'"
    using buf_put_nat [of 0 got pk] g by (simp add: pk'_def)
  have get: "buf_get pk' 0 (int (length got)) = Some got"
    using buf_get_front [of "length got" pk'] by (simp add: pk'_def)
  have "i_udp_rx n w = Some (0, n\<lparr>packet := Some pk'\<rparr>, post (n\<lparr>packet := Some pk'\<rparr>)
      (EVT_UDP_RECEIVEDATA (hld n) got (sin_addr a) (htons (sin_port a))) (w\<lparr>k_recv := ks\<rparr>))"
    using g by (simp add: i_udp_rx_def pk(1) recv_call_def assms(2) put get Let_def flip: got_def)
  moreover have "post (n\<lparr>packet := Some pk'\<rparr>)
      (EVT_UDP_RECEIVEDATA (hld n) got (sin_addr a) (htons (sin_port a))) (w\<lparr>k_recv := ks\<rparr>)
      = w\<lparr>k_recv := ks, trace := trace w @ udp_event n w (d, a)\<rparr>"
    by (cases w) (simp add: post_def emit_def udp_event_def got_def split: option.split)
  moreover have "udp_ready (n\<lparr>packet := Some pk'\<rparr>) w"
    using pk g by (simp add: udp_ready_def pk'_def)
  ultimately show ?thesis by auto
qed

text \<open>The handler works through the datagrams \<open>ds\<close> that come before the answers \<open>ks\<close>.\<close>

definition udp_pending :: "ncb \<Rightarrow> world \<Rightarrow> rxans list \<Rightarrow> ncb \<times> world \<Rightarrow> (byte list \<times> sockaddr_in) list \<Rightarrow> bool" where
  "udp_pending n w ks = (\<lambda>(n', w') ds. udp_ready n' w' \<and> n' = n\<lparr>packet := packet n'\<rparr> \<and> env w' = env w
     \<and> objs w' = objs w \<and> k_recv w' = map (\<lambda>(d, a). RxData d a) ds @ ks \<and> (\<forall>(d, a) \<in> set ds. d \<noteq> []))"

lemma udp_rx_all:
  assumes "udp_ready n w" "k_recv w = map (\<lambda>(d, a). RxData d a) ds @ ks" "\<forall>(d, a) \<in> set ds. d \<noteq> []"
  shows "\<exists>n' w'. udp_rx n w = udp_rx n' w' \<and> udp_pending n w ks (n', w') []
    \<and> trace w' = trace w @ concat (map (udp_event n w) ds)"
proof -
  have step: "\<exists>s'. (case s of (n, w) \<Rightarrow> i_udp_rx n w) = Some (0, s') \<and> udp_pending n w ks s' xs
      \<and> (trace o snd) s' = (trace o snd) s @ udp_event n w x"
    if p: "udp_pending n w ks s (x # xs)" for s x xs
  proof -
    obtain n1 w1 d a where s: "s = (n1, w1)" "x = (d, a)" by (metis surj_pair)
    with p have k: "udp_ready n1 w1" "n1 = n\<lparr>packet := packet n1\<rparr>" "env w1 = env w" "objs w1 = objs w"
      "k_recv w1 = RxData d a # map (\<lambda>(d, a). RxData d a) xs @ ks" "d \<noteq> []" "\<forall>(d, a) \<in> set xs. d \<noteq> []"
      by (auto simp: udp_pending_def)
    have ev: "udp_event n1 w1 = udp_event n w" using k(3) by (subst k(2)) (simp add: udp_event_def fun_eq_iff split: option.split)
    from udp_round [OF k(1,5,6)] obtain pk where
      "i_udp_rx n1 w1 = Some (0, n1\<lparr>packet := Some pk\<rparr>,
        w1\<lparr>k_recv := map (\<lambda>(d, a). RxData d a) xs @ ks, trace := trace w1 @ udp_event n w (d, a)\<rparr>)"
      "udp_ready (n1\<lparr>packet := Some pk\<rparr>) w1" unfolding ev by blast
    moreover have "n1\<lparr>packet := Some pk\<rparr> = n\<lparr>packet := Some pk\<rparr>" by (subst k(2)) simp
    ultimately show ?thesis using k s by (auto simp: udp_pending_def udp_ready_def)
  qed
  have "udp_pending n w ks (n, w) ds" using assms by (simp add: udp_pending_def)
  from udp_l.rounds [of "udp_pending n w ks" "trace o snd" "udp_event n w", OF step this]
  show ?thesis by auto
qed

end
