(* ===== verification/Arpio.thy ===== *)
theory Arpio
  imports Txn Loops
begin

text \<open>
  arp.h and arpio.c: the packed Ethernet and ARP structures as bytes, receiving frames (only the
  replies reach the user) and sending them. A frame is always \<open>NIS_P_ARP_SIZE\<close> bytes long.
\<close>

section \<open>The packed structures\<close>

definition NIS_P_ARP_SIZE :: int where
  "NIS_P_ARP_SIZE = 14 + 46"

abbreviation (input) ETHERTYPE_ARP :: u16 where "ETHERTYPE_ARP \<equiv> 2054"
abbreviation (input) ARP_OP_REQ :: u16 where "ARP_OP_REQ \<equiv> 1"
abbreviation (input) ARP_OP_REPLY :: u16 where "ARP_OP_REPLY \<equiv> 2"

definition eth_bytes :: "Ethernet_Head \<Rightarrow> byte list" where
  "eth_bytes e = Eth_Dest_Mac e @ Eth_Srce_Mac e @ bytes16 (Eth_Layer_Type e)"

definition arp_bytes :: "Address_Resolution_Protocol \<Rightarrow> byte list" where
  "arp_bytes a = bytes16 (Arp_Hardware_Type a) @ bytes16 (Arp_Protocol_Type a)
     @ [Arp_Hardware_Size a, Arp_Protocol_Size a] @ bytes16 (Arp_Op_Code a)
     @ Arp_Sender_Mac a @ bytes32 (Arp_Sender_Ip a) @ Arp_Target_Mac a @ bytes32 (Arp_Target_Ip a)"

definition eth_of :: "byte list \<Rightarrow> Ethernet_Head" where
  "eth_of b = \<lparr>Eth_Dest_Mac = take 6 b, Eth_Srce_Mac = take 6 (drop 6 b),
     Eth_Layer_Type = word16_of (drop 12 b)\<rparr>"

definition arp_of :: "byte list \<Rightarrow> Address_Resolution_Protocol" where
  "arp_of b = \<lparr>Arp_Hardware_Type = word16_of b, Arp_Protocol_Type = word16_of (drop 2 b),
     Arp_Hardware_Size = b ! 4, Arp_Protocol_Size = b ! 5, Arp_Op_Code = word16_of (drop 6 b),
     Arp_Sender_Mac = take 6 (drop 8 b), Arp_Sender_Ip = word32_of (drop 14 b),
     Arp_Target_Mac = take 6 (drop 18 b), Arp_Target_Ip = word32_of (drop 24 b)\<rparr>"

definition macs_ok :: "Address_Resolution_Protocol \<Rightarrow> bool" where
  "macs_ok a \<longleftrightarrow> length (Arp_Sender_Mac a) = 6 \<and> length (Arp_Target_Mac a) = 6"

lemma eth_roundtrip:
  "length (Eth_Dest_Mac e) = 6 \<Longrightarrow> length (Eth_Srce_Mac e) = 6 \<Longrightarrow> eth_of (eth_bytes e @ r) = e"
  by (cases e) (simp add: eth_of_def eth_bytes_def)

lemma length_arp_bytes: "macs_ok a \<Longrightarrow> length (arp_bytes a) = 28"
  by (simp add: arp_bytes_def macs_ok_def)

text \<open>The layout of the packed structure: every field is read back from its offset.\<close>

lemma arp_roundtrip:
  assumes "macs_ok a"
  shows "arp_of (arp_bytes a @ r) = a"
proof -
  have d: "drop (length u + k) (u @ v) = drop k v" for u v :: "byte list" and k by simp
  have l: "length (bytes16 x) = 2" "length (bytes32 y) = 4" for x y by simp_all
  have n: "(bytes16 x @ v) ! (k + 2) = v ! k" for x v k
    using nth_append_length_plus [of "bytes16 x" v k] by (simp add: add.commute)
  have "(arp_bytes a @ r) ! 4 = Arp_Hardware_Size a" "(arp_bytes a @ r) ! 5 = Arp_Protocol_Size a"
    by (simp_all add: arp_bytes_def bytes16_def)
  moreover have "drop 2 (arp_bytes a @ r) = bytes16 (Arp_Protocol_Type a) @ drop 4 (arp_bytes a @ r)"
    "drop 6 (arp_bytes a @ r) = bytes16 (Arp_Op_Code a) @ drop 8 (arp_bytes a @ r)"
    "drop 8 (arp_bytes a @ r) = Arp_Sender_Mac a @ drop 14 (arp_bytes a @ r)"
    "drop 14 (arp_bytes a @ r) = bytes32 (Arp_Sender_Ip a) @ drop 18 (arp_bytes a @ r)"
    "drop 18 (arp_bytes a @ r) = Arp_Target_Mac a @ drop 24 (arp_bytes a @ r)"
    "drop 24 (arp_bytes a @ r) = bytes32 (Arp_Target_Ip a) @ r"
    using assms by (simp_all add: arp_bytes_def macs_ok_def bytes16_def bytes32_def)
  moreover have "word16_of (arp_bytes a @ r) = Arp_Hardware_Type a" by (simp add: arp_bytes_def)
  ultimately show ?thesis using assms by (simp add: arp_of_def macs_ok_def)
qed

section \<open>Receiving\<close>

definition i_arp_rx :: "ncb \<Rightarrow> world \<Rightarrow> (int \<times> ncb \<times> world) option" where
  "i_arp_rx n w = do {
     pk \<leftarrow> packet n;
     (recvcb, bs, _, w) \<leftarrow> recv_call NIS_P_ARP_SIZE w;
     pk \<leftarrow> buf_put pk 0 bs;
     let n = n\<lparr>packet := Some pk\<rparr>;
     (if recvcb > 0 then
        if recvcb < NIS_P_ARP_SIZE then Some (0, n, w)
        else do {
          e \<leftarrow> buf_get pk 0 14;
          a \<leftarrow> buf_get pk 14 28;
          let eth = eth_of e;
          let arp = arp_of a;
          Some (0, n, if Eth_Layer_Type eth = htons ETHERTYPE_ARP
                         \<and> Arp_Op_Code arp = htons ARP_OP_REPLY
                      then post n (EVT_ARP_RECEIVEDATA (hld n)
                             (arp\<lparr>Arp_Sender_Ip := htonl (Arp_Sender_Ip arp),
                                  Arp_Target_Ip := htonl (Arp_Target_Ip arp)\<rparr>)) w
                      else w)
        }
      else if recvcb = 0 then Some (-1, n, w)
      else if errno w = EAGAIN then Some (EAGAIN, n, w)
      else if errno w = EINTR then Some (0, n, w)
      else Some (-1, n, w))
   }"

lemma i_arp_rx_consumes: "i_arp_rx n w = Some (r, n', w') \<Longrightarrow> length (k_recv w') < length (k_recv w)"
proof -
  have [simp]: "k_recv (post n e w) = k_recv w" for n e w
    by (simp add: post_def split: option.split)
  show "i_arp_rx n w = Some (r, n', w') \<Longrightarrow> length (k_recv w') < length (k_recv w)"
    unfolding i_arp_rx_def Let_def
    by (auto split: Option.bind_splits if_splits prod.splits dest!: recv_call_consumes)
qed

function arp_rx :: "ncb \<Rightarrow> world \<Rightarrow> (int \<times> ncb \<times> world) option" where
  "arp_rx n w = (case i_arp_rx n w of None \<Rightarrow> None
     | Some (r, n, w) \<Rightarrow> if r = 0 then arp_rx n w else Some (r, n, w))"
  by pat_completeness auto
termination
  by (relation "measure (\<lambda>(n, w). length (k_recv w))") (auto dest: i_arp_rx_consumes)

declare arp_rx.simps [simp del]

section \<open>Sending\<close>

function arp_txn :: "ncb \<Rightarrow> tx_node \<Rightarrow> world \<Rightarrow> (int \<times> tx_node \<times> world) option" where
  "arp_txn n node w =
     (if offset node < wcb node then
        case send_call (\<lambda>bs. SendtoLl (sockfd n) bs (arp_target node))
               (data node) (offset node) (wcb node - offset node) w of
          None \<Rightarrow> None
        | Some (r, w) \<Rightarrow>
            if r = 0 then Some (-1, node, w)
            else if r < 0 then
              if errno w = EAGAIN then Some (- EAGAIN, node, w)
              else if errno w = EINTR then arp_txn n node w
              else Some (-1, node, w)
            else arp_txn n (node\<lparr>offset := offset node + r\<rparr>) w
      else Some (wcb node, node, w))"
  by pat_completeness auto
termination
  by (relation "measure (\<lambda>(n, x, w). length (k_send w))") (auto dest: send_call_consumes)

declare arp_txn.simps [simp del]

definition arp_tx :: "ncb \<Rightarrow> world \<Rightarrow> (int \<times> ncb \<times> world) option" where
  "arp_tx n w = (case fifo_top n of
       Some node \<Rightarrow> do {
         (r, node, w) \<leftarrow> arp_txn n node w;
         let n = fifo_set_top node n;
         (if r > 0 then let (_, _, n, w) = fifo_pop False n w in Some (r, n, w)
          else Some (r, n, w))
       }
     | None \<Rightarrow> Some (0, n, w))"

section \<open>The contracts\<close>

lemma arp_txn_loop: "arp_txn n x w = send_loop (\<lambda>bs. SendtoLl (sockfd n) bs (arp_target x)) x w"
proof (induction n x w rule: arp_txn.induct)
  case (1 n x w)
  show ?case
    by (subst arp_txn.simps, subst send_loop.simps)
      (auto simp: "1.IH" split: option.split)
qed

interpretation arp_s: sender arp_txn
proof
  show "txn_law n x w r x' w'" if "node_ok x" "arp_txn n x w = Some (r, x', w')" for n x w r x' w'
    using that send_loop_law [of n "\<lambda>bs. SendtoLl (sockfd n) bs (arp_target x)" x w r x' w']
    by (simp add: arp_txn_loop)
  show "\<exists>r x' w'. arp_txn n x w = Some (r, x', w')"
    if "node_ok x" "wcb x - offset x \<le> int (answers (k_send w))" for n x w
    using send_loop_returns [OF that] by (simp add: arp_txn_loop)
qed

interpretation arp_l: rx_loop "\<lambda>(n, w). i_arp_rx n w" "\<lambda>(n, w). arp_rx n w"
  "\<lambda>(n, w). length (k_recv w)"
proof
  show "(case s of (n, w) \<Rightarrow> arp_rx n w) = Option.bind (case s of (n, w) \<Rightarrow> i_arp_rx n w)
      (\<lambda>(r, s). if r = 0 then (case s of (n, w) \<Rightarrow> arp_rx n w) else Some (r, s))"
    for s :: "ncb \<times> world"
    by (cases s; simp; subst arp_rx.simps; cases "i_arp_rx (fst s) (snd s)"; auto)
qed (auto dest: i_arp_rx_consumes)

section \<open>Replies\<close>

definition arp_ready :: "ncb \<Rightarrow> bool" where
  "arp_ready n \<longleftrightarrow> (case packet n of None \<Rightarrow> False | Some pk \<Rightarrow> NIS_P_ARP_SIZE \<le> int (length pk))"

text \<open>A frame on the wire: the two heads and the padding.\<close>

definition frame_of :: "Ethernet_Head \<Rightarrow> Address_Resolution_Protocol \<Rightarrow> byte list \<Rightarrow> byte list" where
  "frame_of e a pad = eth_bytes e @ arp_bytes a @ pad"

definition frame_ok :: "Ethernet_Head \<Rightarrow> Address_Resolution_Protocol \<Rightarrow> byte list \<Rightarrow> bool" where
  "frame_ok e a pad \<longleftrightarrow> length (Eth_Dest_Mac e) = 6 \<and> length (Eth_Srce_Mac e) = 6 \<and> macs_ok a
     \<and> length pad = 18"

lemma length_frame: "frame_ok e a pad \<Longrightarrow> length (frame_of e a pad) = 60"
  by (simp add: frame_of_def frame_ok_def length_arp_bytes eth_bytes_def)

text \<open>What the user hears of a frame: nothing but the replies, with the addresses in host order.\<close>

definition arp_reply :: "byte list \<Rightarrow> Address_Resolution_Protocol option" where
  "arp_reply bs = (let e = eth_of (take 14 bs); a = arp_of (take 28 (drop 14 bs)) in
     if length bs < 60 \<or> Eth_Layer_Type e \<noteq> htons ETHERTYPE_ARP \<or> Arp_Op_Code a \<noteq> htons ARP_OP_REPLY
     then None
     else Some (a\<lparr>Arp_Sender_Ip := htonl (Arp_Sender_Ip a), Arp_Target_Ip := htonl (Arp_Target_Ip a)\<rparr>))"

definition arp_event :: "ncb \<Rightarrow> byte list \<Rightarrow> effect list" where
  "arp_event n bs = (case (nis_callback n, arp_reply bs) of
       (Some f, Some a) \<Rightarrow> [Post f (EVT_ARP_RECEIVEDATA (hld n) a)] | _ \<Rightarrow> [])"

text \<open>The reply that is read back from a frame.\<close>

lemma arp_reply_frame:
  assumes "frame_ok e a pad"
  shows "arp_reply (frame_of e a pad) =
    (if Eth_Layer_Type e = htons ETHERTYPE_ARP \<and> Arp_Op_Code a = htons ARP_OP_REPLY
     then Some (a\<lparr>Arp_Sender_Ip := htonl (Arp_Sender_Ip a), Arp_Target_Ip := htonl (Arp_Target_Ip a)\<rparr>)
     else None)"
proof -
  have el: "length (eth_bytes e) = 14" "length (arp_bytes a) = 28"
    using assms by (simp_all add: frame_ok_def length_arp_bytes eth_bytes_def)
  have t: "take 14 (frame_of e a pad) = eth_bytes e" "take 28 (drop 14 (frame_of e a pad)) = arp_bytes a"
    using el by (simp_all add: frame_of_def)
  have "eth_of (eth_bytes e) = e" "arp_of (arp_bytes a) = a"
    using eth_roundtrip [of e "[]"] arp_roundtrip [of a "[]"] assms by (simp_all add: frame_ok_def)
  then show ?thesis using length_frame [OF assms] by (simp add: arp_reply_def t)
qed

lemma arp_round:
  assumes "arp_ready n" "k_recv w = RxData bs s # ks" "bs \<noteq> []"
  shows "\<exists>pk. i_arp_rx n w = Some (0, n\<lparr>packet := Some pk\<rparr>, w\<lparr>k_recv := ks, trace := trace w @ arp_event n bs\<rparr>)
    \<and> arp_ready (n\<lparr>packet := Some pk\<rparr>)"
proof -
  from assms(1) obtain pk where pk: "packet n = Some pk" "60 \<le> length pk"
    by (auto simp: arp_ready_def NIS_P_ARP_SIZE_def split: option.splits)
  define f where "f = take 60 bs"
  have lf: "length f = min 60 (length bs)" "f \<noteq> []" using assms(3) by (simp_all add: f_def)
  define pk' where "pk' = f @ drop (length f) pk"
  have put: "buf_put pk 0 f = Some pk'"
    using buf_put_nat [of 0 f pk] pk lf by (simp add: pk'_def)
  have rc: "recv_call NIS_P_ARP_SIZE w = Some (int (length f), f, s, w\<lparr>k_recv := ks\<rparr>)"
    by (simp add: recv_call_def assms(2) f_def Let_def NIS_P_ARP_SIZE_def)
  have ev: "post (n\<lparr>packet := Some pk'\<rparr>) (EVT_ARP_RECEIVEDATA (hld n) a) (w\<lparr>k_recv := ks\<rparr>)
      = w\<lparr>k_recv := ks, trace := trace w @ (case nis_callback n of None \<Rightarrow> []
          | Some c \<Rightarrow> [Post c (EVT_ARP_RECEIVEDATA (hld n) a)])\<rparr>" for a
    by (cases w) (simp add: post_def emit_def split: option.split)
  have w: "w\<lparr>k_recv := ks\<rparr> = w\<lparr>k_recv := ks, trace := trace w @ []\<rparr>" by (cases w) simp
  have r: "arp_ready (n\<lparr>packet := Some pk'\<rparr>)"
    using lf pk by (simp add: arp_ready_def pk'_def NIS_P_ARP_SIZE_def)
  show ?thesis
  proof (cases "length bs < 60")
    case True
    then have "int (length f) < NIS_P_ARP_SIZE" "arp_event n bs = []"
      using lf by (simp_all add: NIS_P_ARP_SIZE_def arp_event_def arp_reply_def split: option.split)
    then have "i_arp_rx n w = Some (0, n\<lparr>packet := Some pk'\<rparr>, w\<lparr>k_recv := ks, trace := trace w @ arp_event n bs\<rparr>)"
      using assms(3) lf w by (simp add: i_arp_rx_def pk(1) rc put Let_def)
    with r show ?thesis by blast
  next
    case False
    then have l: "length f = 60" "length pk' = length pk" using lf pk by (simp_all add: pk'_def)
    have n60: "NIS_P_ARP_SIZE = 60" by (simp add: NIS_P_ARP_SIZE_def)
    have g: "buf_get pk' 0 14 = Some (take 14 bs)" "buf_get pk' 14 28 = Some (take 28 (drop 14 bs))"
      using l(1) False by (simp_all add: buf_get_def pk'_def f_def drop_take)
    have "i_arp_rx n w = Some (0, n\<lparr>packet := Some pk'\<rparr>, w\<lparr>k_recv := ks, trace := trace w @ arp_event n bs\<rparr>)"
      using False l(1) w n60
      by (simp add: i_arp_rx_def pk(1) rc put g ev Let_def arp_event_def arp_reply_def
          split: option.split)
    with r show ?thesis by blast
  qed
qed

text \<open>The handler works through the frames \<open>fs\<close> that come before the answers \<open>ks\<close>.\<close>

definition arp_pending :: "ncb \<Rightarrow> rxans list \<Rightarrow> ncb \<times> world \<Rightarrow> (byte list \<times> sockaddr_in) list \<Rightarrow> bool" where
  "arp_pending n ks = (\<lambda>(n', w') fs. arp_ready n' \<and> n' = n\<lparr>packet := packet n'\<rparr>
     \<and> k_recv w' = map (\<lambda>(d, a). RxData d a) fs @ ks \<and> (\<forall>(d, a) \<in> set fs. d \<noteq> []))"

lemma arp_rx_all:
  assumes "arp_ready n" "k_recv w = map (\<lambda>(d, a). RxData d a) fs @ ks" "\<forall>(d, a) \<in> set fs. d \<noteq> []"
  shows "\<exists>n' w'. arp_rx n w = arp_rx n' w' \<and> arp_pending n ks (n', w') []
    \<and> trace w' = trace w @ concat (map (arp_event n o fst) fs)"
proof -
  have step: "\<exists>s'. (case s of (n, w) \<Rightarrow> i_arp_rx n w) = Some (0, s') \<and> arp_pending n ks s' xs
      \<and> (trace o snd) s' = (trace o snd) s @ (arp_event n o fst) x"
    if p: "arp_pending n ks s (x # xs)" for s x xs
  proof -
    obtain n1 w1 d a where s: "s = (n1, w1)" "x = (d, a)" by (metis surj_pair)
    with p have k: "arp_ready n1" "n1 = n\<lparr>packet := packet n1\<rparr>"
      "k_recv w1 = RxData d a # map (\<lambda>(d, a). RxData d a) xs @ ks" "d \<noteq> []" "\<forall>(d, a) \<in> set xs. d \<noteq> []"
      by (auto simp: arp_pending_def)
    have ev: "arp_event n1 = arp_event n" by (subst k(2)) (simp add: arp_event_def fun_eq_iff split: option.split)
    from arp_round [OF k(1,3,4)] obtain pk where
      "i_arp_rx n1 w1 = Some (0, n1\<lparr>packet := Some pk\<rparr>,
        w1\<lparr>k_recv := map (\<lambda>(d, a). RxData d a) xs @ ks, trace := trace w1 @ arp_event n d\<rparr>)"
      "arp_ready (n1\<lparr>packet := Some pk\<rparr>)" unfolding ev by blast
    moreover have "n1\<lparr>packet := Some pk\<rparr> = n\<lparr>packet := Some pk\<rparr>" by (subst k(2)) simp
    ultimately show ?thesis using k s by (auto simp: arp_pending_def)
  qed
  have "arp_pending n ks (n, w) fs" using assms by (simp add: arp_pending_def)
  from arp_l.rounds [of "arp_pending n ks" "trace o snd" "arp_event n o fst", OF step this]
  show ?thesis by auto
qed

end
