(* ===== verification/Wpool.thy ===== *)
theory Wpool
  imports Tcp_tx Udpio Arpio
begin

text \<open>
  wpool.c: one worker thread per protocol empties the transmit queues. A task names a link; the
  thread takes tasks from its list (\<open>__wp_get_task\<close>), lets the link's write routine push the front
  node (\<open>__wp_exec\<close>), and puts the task back while nodes wait. Each function under the mutex is
  one atomic step. The task list is the second instance of the queue interface.
\<close>

section \<open>The task list\<close>

definition i_wp_add_task :: "wptask \<Rightarrow> world \<Rightarrow> world option" where
  "i_wp_add_task task w = do {
     p \<leftarrow> pools w (task_thread task);
     Some (w\<lparr>pools := (pools w)(task_thread task \<mapsto>
       p\<lparr>tasks := tasks p @ [task], task_list_size := task_list_size p + 1\<rparr>)\<rparr>)
   }"

definition i_wp_get_task :: "objhld \<Rightarrow> world \<Rightarrow> (wptask option \<times> world) option" where
  "i_wp_get_task h w = do {
     p \<leftarrow> pools w h;
     Some (case tasks p of
         [] \<Rightarrow> (None, w)
       | t # ts \<Rightarrow> (Some t, w\<lparr>pools := (pools w)(h \<mapsto>
           p\<lparr>tasks := ts, task_list_size := task_list_size p - 1\<rparr>)\<rparr>))
   }"

section \<open>Executing a task\<close>

text \<open>The call through \<open>ncb->ncb_write\<close>. No read routine is ever stored there.\<close>

definition call_write :: "io_routine \<Rightarrow> ncb \<Rightarrow> world \<Rightarrow> (int \<times> ncb \<times> world) option" where
  "call_write f n w = (case f of
       W_tcp_tx \<Rightarrow> tcp_tx n w
     | W_tcp_tx_syn \<Rightarrow> tcp_tx_syn n w
     | W_udp_tx \<Rightarrow> udp_tx n w
     | W_arp_tx \<Rightarrow> arp_tx n w
     | W_pipe_tx \<Rightarrow> Some (pipe_tx n, n, w)
     | _ \<Rightarrow> None)"

definition i_wp_exec :: "wptask \<Rightarrow> world \<Rightarrow> (int \<times> world) option" where
  "i_wp_exec task w = (case objrefr (task_hld task) w of
       (None, w) \<Rightarrow> Some (- ENOENT, w)
     | (Some n, w) \<Rightarrow> do {
         (r, n, w) \<leftarrow> (case ncb_write n of
             None \<Rightarrow> Some (-1, n, w)
           | Some f \<Rightarrow> do {
               (r, n, w) \<leftarrow> call_write f n w;
               (if r = -1 then Some (r, n, objclos (hld n) w)
                else if r = - EAGAIN then Some (r, n, w)
                else if r = 0 then Some (r, n, w)
                else let (popped, _, n, w) = fifo_pop False n w in
                  (if popped > 0 then do { w \<leftarrow> i_wp_add_task task w; Some (r, n, w) }
                   else Some (r, n, w)))
             });
         Some (r, objdefr (hld n) (put_ncb (task_hld task) n w))
       })"

text \<open>The inner loop of \<open>__wp_run\<close>: tasks are taken and executed while the pool is active; a task
  that was not put back is freed. A task taken from an inactive pool is dropped.\<close>

partial_function (option) wp_drain :: "objhld \<Rightarrow> world \<Rightarrow> world option" where
  "wp_drain h w = do {
     (t, w) \<leftarrow> i_wp_get_task h w;
     (case t of
        None \<Rightarrow> Some w
      | Some task \<Rightarrow> do {
          p \<leftarrow> pools w h;
          (if wp_actived p then do {
             (r, w) \<leftarrow> i_wp_exec task w;
             wp_drain h (if r \<le> 0 then free w else w)
           }
           else Some w)
        })
   }"

text \<open>The thread: \<open>ws\<close> are the results of the waits for the signal, negative for a failure, \<open>0\<close> for a
  signal, which is then blocked again, positive for a time-out. The flag is looked at before each
  wait.\<close>

fun i_wp_run :: "objhld \<Rightarrow> int list \<Rightarrow> world \<Rightarrow> world option" where
  "i_wp_run h ws w = do {
     p \<leftarrow> pools w h;
     (if \<not> wp_actived p then Some w
      else case ws of [] \<Rightarrow> None
        | retval # ws \<Rightarrow> if retval < 0 then Some w else do { w \<leftarrow> wp_drain h w; i_wp_run h ws w })
   }"

declare i_wp_run.simps [simp del]

section \<open>Life of a pool\<close>

definition wp_handle :: "int \<Rightarrow> world \<Rightarrow> objhld option" where
  "wp_handle proto w = (if proto = IPPROTO_TCP then Some (wp_tcphld w)
     else if proto = IPPROTO_UDP \<or> proto = ETH_P_ARP then Some (wp_udphld w) else None)"

definition wp_set_handle :: "int \<Rightarrow> objhld \<Rightarrow> world \<Rightarrow> world" where
  "wp_set_handle proto h w = (if proto = IPPROTO_TCP then w\<lparr>wp_tcphld := h\<rparr> else w\<lparr>wp_udphld := h\<rparr>)"

definition pool_refr :: "objhld \<Rightarrow> world \<Rightarrow> wpool option \<times> world" where
  "pool_refr h w = (case pools w h of None \<Rightarrow> (None, w) | Some p \<Rightarrow> (Some p, emit (Refr h) w))"

text \<open>The object is zeroed by its allocation; \<open>wp_actived\<close> tells an initialised one.\<close>

definition objallo_pool :: "world \<Rightarrow> (objhld \<times> world) option" where
  "objallo_pool w = (case k_newobj w of [] \<Rightarrow> None
     | h # hs \<Rightarrow> (let w = w\<lparr>k_newobj := hs\<rparr> in
         if h < 0 then Some (h, w)
         else Some (h, w\<lparr>pools := (pools w)(h \<mapsto>
                \<lparr>tasks = [], task_list_size = 0, wp_actived = False\<rparr>)\<rparr>)))"

definition i_wp_init :: "objhld \<Rightarrow> world \<Rightarrow> int \<times> world" where
  "i_wp_init h w =
     (let w = w\<lparr>pools := (pools w)(h \<mapsto> \<lparr>tasks = [], task_list_size = 0, wp_actived = True\<rparr>)\<rparr>;
          (r, w) = simple_call SYS_pthread_create w
      in if r < 0 then (-1, w) else (0, w))"

definition wp_init :: "int \<Rightarrow> world \<Rightarrow> (int \<times> world) option" where
  "wp_init proto w = (case wp_handle proto w of
       None \<Rightarrow> Some (- EPROTOTYPE, w)
     | Some cur \<Rightarrow>
         if cur \<ge> 0 then Some (EALREADY, w) else do {
           (h, w) \<leftarrow> objallo_pool w;
           (if h < 0 then Some (-1, w)
            else if cur \<noteq> -1 then Some (EALREADY, objclos h w)
            else let w = wp_set_handle proto h w in
              case pool_refr h w of
                (None, w) \<Rightarrow> Some (- ENOENT, w)
              | (Some _, w) \<Rightarrow> let (r, w) = i_wp_init h w in Some (r, objdefr h w))
         })"

definition wp_uninit :: "int \<Rightarrow> world \<Rightarrow> world" where
  "wp_uninit proto w = (case wp_handle proto w of
       None \<Rightarrow> w
     | Some cur \<Rightarrow> if cur \<ge> 0 then objclos cur w else w)"

text \<open>The unloader: the thread is told to stop and joined, the tasks that came too late are freed,
  and the handle of the protocol is given up. It is called by the object manager; where the mutex
  that the loop locks is not recursive, the second lock inside \<open>__wp_get_task\<close> never returns, which
  is outside this sequential model.\<close>

definition i_wp_uninit :: "objhld \<Rightarrow> world \<Rightarrow> world" where
  "i_wp_uninit h w =
     (let w = (case pools w h of None \<Rightarrow> w
         | Some p \<Rightarrow> if wp_actived p
             then emit (Signal h) (w\<lparr>pools := (pools w)(h \<mapsto>
                    p\<lparr>tasks := [], task_list_size := task_list_size p - int (length (tasks p)),
                      wp_actived := False\<rparr>), heap := heap w - int (length (tasks p))\<rparr>)
             else w)
      in if wp_tcphld w = h then w\<lparr>wp_tcphld := -1\<rparr>
         else if wp_udphld w = h then w\<lparr>wp_udphld := -1\<rparr> else w)"

definition sizeof_wptask :: int where
  "sizeof_wptask = 32"

definition wp_queued :: "ncb \<Rightarrow> world \<Rightarrow> (int \<times> world) option" where
  "wp_queued n w =
     (let h = (case wp_handle (protocol n) w of None \<Rightarrow> -1 | Some h \<Rightarrow> h) in
      if h < 0 then Some (- ENOENT, w) else
      case pool_refr h w of
        (None, w) \<Rightarrow> Some (- ENOENT, w)
      | (Some _, w) \<Rightarrow>
          (case malloc sizeof_wptask w of
             (None, w) \<Rightarrow> Some (- ENOMEM, objdefr h w)
           | (Some _, w) \<Rightarrow> do {
               w \<leftarrow> i_wp_add_task \<lparr>task_hld = hld n, task_thread = h\<rparr> w;
               Some (0, objdefr h (emit (Signal h) w))
             }))"

section \<open>The task list provides the queue interface\<close>

definition wp_enq :: "objhld \<Rightarrow> objhld \<Rightarrow> world \<Rightarrow> bool \<times> world" where
  "wp_enq h g w = (case i_wp_add_task \<lparr>task_hld = g, task_thread = h\<rparr> w of
       None \<Rightarrow> (False, w) | Some w \<Rightarrow> (True, w))"

definition wp_deq :: "objhld \<Rightarrow> world \<Rightarrow> objhld option \<times> world" where
  "wp_deq h w = (case i_wp_get_task h w of None \<Rightarrow> (None, w) | Some (t, w) \<Rightarrow> (map_option task_hld t, w))"

definition wp_items :: "objhld \<Rightarrow> world \<Rightarrow> objhld list" where
  "wp_items h w = (case pools w h of None \<Rightarrow> [] | Some p \<Rightarrow> map task_hld (tasks p))"

definition wp_ok :: "objhld \<Rightarrow> world \<Rightarrow> bool" where
  "wp_ok h w \<longleftrightarrow> (case pools w h of None \<Rightarrow> False
     | Some p \<Rightarrow> task_list_size p = int (length (tasks p)))"

interpretation wq: tx_queue "wp_enq h" "wp_deq h" "wp_items h" "wp_ok h" for h
proof
  show "wp_items h q' = (if ok then wp_items h q @ [x] else wp_items h q) \<and> wp_ok h q'"
    if "wp_ok h q" "wp_enq h x q = (ok, q')" for q x ok q'
    using that by (auto simp: wp_ok_def wp_enq_def wp_items_def i_wp_add_task_def split: option.splits)
  show "wp_items h q = (case r of None \<Rightarrow> [] | Some x \<Rightarrow> x # wp_items h q') \<and> wp_ok h q'
      \<and> (r = None \<longrightarrow> wp_items h q' = [])"
    if "wp_ok h q" "wp_deq h q = (r, q')" for q r q'
    using that by (auto simp: wp_ok_def wp_deq_def wp_items_def i_wp_get_task_def
        split: option.splits list.splits)
qed

section \<open>Executing a task on a TCP link\<close>

text \<open>Before the write routine ran, after it, and after the pop.\<close>

lemma add_taskD: "i_wp_add_task t w = Some w' \<Longrightarrow> \<exists>p. w' = w\<lparr>pools := p\<rparr>"
  by (auto simp: i_wp_add_task_def split: Option.bind_splits)

lemma pop_front:
  assumes p: "fifo_pop False n w = (r, t, n', w')" and d: "fhead (fifo n) = x # xs"
  shows "r = 1 \<and> (\<exists>f. n' = n\<lparr>fifo := f\<rparr>) \<and> fhead (fifo n') = xs \<and> trace w' = trace w
    \<and> objs w' = objs w \<and> heap w' = heap w - 2 \<and> pools w' = pools w \<and> env w' = env w"
  using p
proof (cases rule: fifo_popE)
  case empty
  with d show ?thesis by simp
next
  case (popped y ys w1)
  with d ctl_stepD [OF popped(5)] show ?thesis by (auto simp: free_def)
qed

lemma pop_done:
  assumes p: "fifo_pop False n w = (r, t, n', w')" and ok: "tx_ok n"
    and d: "fhead (fifo n) = x # xs" "node_rest x = []"
  shows "tx_ok n'" "out_stream n' w' = out_stream n w"
proof -
  note f = pop_front [OF p d(1)]
  have "fifo_ok n'" by (rule fifo_ok_pop [OF _ p]) (use ok in \<open>simp add: tx_ok_def\<close>)
  then show "tx_ok n'" using f d ok by (simp add: tx_ok_def nodes_ok_def)
  show "out_stream n' w' = out_stream n w" using f d by (auto simp: out_stream_def)
qed

lemma tcp_exec:
  assumes e: "i_wp_exec t w = Some (r, w')" and n: "objs w (task_hld t) = Some n"
    and f: "ncb_write n = Some W_tcp_tx" "hld n = task_hld t" and ok: "tx_ok n"
  shows "\<exists>n'. objs w' = (objs w)(task_hld t \<mapsto> n') \<and> tx_ok n' \<and> (\<exists>f. n' = n\<lparr>fifo := f\<rparr>)
    \<and> out_stream n' w' = out_stream n w \<and> balanced w w'
    \<and> heap w' = heap w - (if 0 < r then 2 else 0)
    \<and> (if 0 < r then Suc (length (fhead (fifo n'))) else length (fhead (fifo n'))) = length (fhead (fifo n))"
proof -
  let ?h = "task_hld t"
  let ?w0 = "emit (Refr ?h) w"
  obtain r1 n1 w1 where tx: "tcp_tx n ?w0 = Some (r1, n1, w1)"
    using e n f by (auto simp: i_wp_exec_def objrefr_def call_write_def split: Option.bind_splits)
  from tcp_tx_law [OF tx ok] have l: "\<exists>f. n1 = n\<lparr>fifo := f\<rparr>" "tx_ok n1" "out_stream n1 w1 = out_stream n ?w0"
    "balanced ?w0 w1" "objs w1 = objs w" "pools w1 = pools w" "heap w1 = heap w"
    "0 < r1 \<longrightarrow> (\<exists>x xs. fhead (fifo n1) = x # xs \<and> node_rest x = [])"
    "length (fhead (fifo n1)) = length (fhead (fifo n))" "r1 < 0 \<longrightarrow> r1 = -1 \<or> r1 = - EAGAIN" by auto
  have s0: "out_stream n ?w0 = out_stream n w" by (simp add: out_stream_def)
  have h1: "hld n1 = ?h" using l(1) f by auto
  have fin: ?thesis
    if w': "w' = objdefr ?h (put_ncb ?h n' v)" and v: "balanced w1 v" "out_stream n' v = out_stream n1 w1"
      "objs v = objs w" "heap v = heap w - (if 0 < r then 2 else 0)" "tx_ok n'" "\<exists>f. n' = n\<lparr>fifo := f\<rparr>"
      "(if 0 < r then Suc (length (fhead (fifo n'))) else length (fhead (fifo n'))) = length (fhead (fifo n))"
    for n' v
  proof -
    have "balanced ?w0 (put_ncb ?h n' v)"
      using balanced_trans [OF l(4) v(1)] by (simp add: balanced_def put_ncb_def)
    then have "balanced w w'" unfolding w' objdefr_def by (rule balanced_refr_defr)
    moreover have "out_stream n' w' = out_stream n' v" by (simp add: w' out_stream_def objdefr_def put_ncb_def)
    moreover have "objs w' = (objs w)(?h \<mapsto> n')" "heap w' = heap v"
      using v(3) by (simp_all add: w' objdefr_def put_ncb_def)
    ultimately show ?thesis using v l(3) s0 by auto
  qed
  show ?thesis
  proof (cases "0 < r1")
    case False
    have "r1 = -1 \<or> r1 = - EAGAIN \<or> r1 = 0"
      using l(10) False by auto
    then have "r = r1 \<and> (\<exists>v \<in> {w1, objclos ?h w1}. w' = objdefr ?h (put_ncb ?h n1 v))"
      using e n f tx h1 by (auto simp: i_wp_exec_def objrefr_def call_write_def split: if_splits)
    then obtain v where v: "v \<in> {w1, objclos ?h w1}" "w' = objdefr ?h (put_ncb ?h n1 v)" "r = r1" by blast
    have "balanced w1 v" "out_stream n1 v = out_stream n1 w1" "objs v = objs w1" "heap v = heap w1"
      using v(1) by (auto simp: objclos_def out_stream_def no_ref_def intro: balanced_emit)
    then show ?thesis by (intro fin [OF v(2)]) (use False v(3) l in auto)
  next
    case True
    then obtain x xs where x: "fhead (fifo n1) = x # xs" "node_rest x = []" using l(8) by blast
    obtain pr pt n2 w2 where p: "fifo_pop False n1 w1 = (pr, pt, n2, w2)" by (metis prod_cases4)
    note pd = pop_front [OF p x(1)] pop_done [OF p l(2) x]
    obtain w3 where a: "i_wp_add_task t w2 = Some w3" "r = r1" "w' = objdefr ?h (put_ncb ?h n2 w3)"
    proof -
      have "hld n2 = ?h" using pd h1 by auto
      then show thesis
        using e n f tx True p pd that
        by (auto simp: i_wp_exec_def objrefr_def call_write_def split: if_splits Option.bind_splits)
    qed
    obtain q where w3: "w3 = w2\<lparr>pools := q\<rparr>" using add_taskD [OF a(1)] by blast
    show ?thesis
      by (rule fin [OF a(3)]) (use pd w3 l a(2) True x in \<open>auto simp: balanced_def out_stream_def\<close>)
  qed
qed

section \<open>A kernel with room\<close>

text \<open>One execution of a task on a TCP link whose kernel buffer has room sends the front node, pops
  it and puts the task back.\<close>

lemma tcp_exec_front:
  assumes n: "objs w g = Some n" "ncb_write n = Some W_tcp_tx" "hld n = g" and ok: "tx_ok n"
    and x: "fhead (fifo n) = x # xs" "offset x < wcb x"
    and k: "k_tcpinfo w = Some TCP_ESTABLISHED # is" "k_send w = KRet m # ks" "wcb x - offset x \<le> m"
    and p: "pools w h = Some p" and t: "t = \<lparr>task_hld = g, task_thread = h\<rparr>"
  shows "\<exists>n' w'. i_wp_exec t w = Some (wcb x, w') \<and> objs w' = (objs w)(g \<mapsto> n')
    \<and> (\<exists>f. n' = n\<lparr>fifo := f\<rparr>) \<and> tx_ok n' \<and> fhead (fifo n') = xs
    \<and> sent (sockfd n) (trace w') = sent (sockfd n) (trace w) @ node_rest x
    \<and> k_tcpinfo w' = is \<and> k_send w' = ks \<and> heap w' = heap w - 2
    \<and> pools w' = (pools w)(h \<mapsto> p\<lparr>tasks := tasks p @ [t], task_list_size := task_list_size p + 1\<rparr>)"
proof -
  have xok: "node_ok x" using ok x(1) by (simp add: tx_ok_def nodes_ok_def)
  define x1 where "x1 = x\<lparr>offset := wcb x\<rparr>"
  define n1 where "n1 = fifo_set_top x1 n"
  define w1 where "w1 = emit (Send (sockfd n) (node_rest x)) (emit (Refr g) w\<lparr>k_tcpinfo := is, k_send := ks\<rparr>)"
  have tx: "tcp_tx n (emit (Refr g) w) = Some (wcb x, n1, w1)"
    using k x xok
    by (simp add: tcp_tx_def tcp_save_info_def fifo_top_def tcp_txn_loop send_loop_once n1_def x1_def w1_def)
  have n1f: "\<exists>f. n1 = n\<lparr>fifo := f\<rparr>" unfolding n1_def by (rule set_top_fifo)
  have n1h: "fhead (fifo n1) = x1 # xs" using x(1) by (simp add: n1_def fifo_set_top_def)
  have ok1: "tx_ok n1" using tcp_tx_law [OF tx ok] by blast
  have r1: "node_rest x1 = []" by (simp add: x1_def node_rest_done)
  obtain pr pt n2 w2 where pp: "fifo_pop False n1 w1 = (pr, pt, n2, w2)" by (metis prod_cases4)
  note pd = pop_front [OF pp n1h] pop_done [OF pp ok1 n1h r1]
  have w2: "\<exists>f e q. w2 = w1\<lparr>k_fail := f, errno := e, epolls := q, heap := heap w1 - 2\<rparr>"
    using pp
  proof (cases rule: fifo_popE)
    case (popped y ys v)
    then show ?thesis by (cases w1) (auto simp: ctl_step_def free_def)
  qed (use n1h in auto)
  have pos: "0 < wcb x" using xok x(2) by (simp add: node_ok_def)
  have pw: "pools w2 h = Some p" using pd p by (simp add: w1_def)
  let ?w3 = "w2\<lparr>pools := (pools w2)(h \<mapsto> p\<lparr>tasks := tasks p @ [t], task_list_size := task_list_size p + 1\<rparr>)\<rparr>"
  have hld2: "hld n2 = g" using pd n1f n by auto
  have "i_wp_exec t w = Some (wcb x, objdefr g (put_ncb g n2 ?w3))"
    using n tx pp pd pos pw hld2
    by (simp add: i_wp_exec_def objrefr_def call_write_def t i_wp_add_task_def)
  moreover have "\<exists>f. n2 = n\<lparr>fifo := f\<rparr>" using pd n1f by auto
  moreover have "sent (sockfd n) (trace w2) = sent (sockfd n) (trace w) @ node_rest x"
    using pd by (simp add: w1_def)
  moreover have "k_tcpinfo w2 = is" "k_send w2 = ks" using w2 by (auto simp: w1_def)
  ultimately show ?thesis using pd by (auto simp: objdefr_def put_ncb_def w1_def)
qed

lemma tcp_exec_idle:
  assumes n: "objs w g = Some n" "ncb_write n = Some W_tcp_tx" "hld n = g"
    and x: "fhead (fifo n) = []" and k: "k_tcpinfo w = Some TCP_ESTABLISHED # is"
  shows "i_wp_exec \<lparr>task_hld = g, task_thread = h\<rparr> w
    = Some (0, objdefr g (put_ncb g n (emit (Refr g) w\<lparr>k_tcpinfo := is\<rparr>)))"
  using assms by (simp add: i_wp_exec_def objrefr_def call_write_def tcp_tx_def tcp_save_info_def fifo_top_def)

text \<open>The worker thread empties the queue of a link in order, frees every node and the task, and
  returns.\<close>

lemma drain_tcp:
  "objs w g = Some n \<Longrightarrow> ncb_write n = Some W_tcp_tx \<Longrightarrow> hld n = g \<Longrightarrow> tx_ok n \<Longrightarrow>
   fhead (fifo n) = xs \<Longrightarrow> list_all (\<lambda>x. offset x < wcb x) xs \<Longrightarrow>
   k_tcpinfo w = replicate (Suc (length xs)) (Some TCP_ESTABLISHED) @ is \<Longrightarrow>
   k_send w = map (\<lambda>x. KRet (wcb x - offset x)) xs @ ks \<Longrightarrow>
   pools w h = Some p \<Longrightarrow> tasks p = [\<lparr>task_hld = g, task_thread = h\<rparr>] \<Longrightarrow> wp_actived p \<Longrightarrow>
   \<exists>n' w' p'. wp_drain h w = Some w' \<and> objs w' g = Some n' \<and> fhead (fifo n') = []
     \<and> sent (sockfd n) (trace w') = sent (sockfd n) (trace w) @ pend xs
     \<and> pools w' h = Some p' \<and> tasks p' = [] \<and> heap w' = heap w - 2 * int (length xs) - 1"
proof (induction xs arbitrary: w n p)
  case Nil
  let ?t = "\<lparr>task_hld = g, task_thread = h\<rparr>"
  let ?p = "p\<lparr>tasks := [], task_list_size := task_list_size p - 1\<rparr>"
  let ?w1 = "w\<lparr>pools := (pools w)(h \<mapsto> ?p)\<rparr>"
  have g1: "i_wp_get_task h w = Some (Some ?t, ?w1)" using Nil.prems by (simp add: i_wp_get_task_def)
  have ex: "i_wp_exec ?t ?w1 = Some (0, objdefr g (put_ncb g n (emit (Refr g) ?w1\<lparr>k_tcpinfo := is\<rparr>)))"
    by (rule tcp_exec_idle) (use Nil.prems in simp_all)
  let ?w2 = "free (objdefr g (put_ncb g n (emit (Refr g) ?w1\<lparr>k_tcpinfo := is\<rparr>)))"
  have g2: "i_wp_get_task h ?w2 = Some (None, ?w2)"
    by (simp add: i_wp_get_task_def free_def objdefr_def put_ncb_def)
  have "wp_drain h w = Some ?w2"
    using Nil.prems(11)
    by (subst wp_drain.simps, simp add: g1 ex) (subst wp_drain.simps, simp add: g2)
  then show ?case using Nil.prems by (auto simp: free_def objdefr_def put_ncb_def)
next
  case (Cons x xs)
  let ?t = "\<lparr>task_hld = g, task_thread = h\<rparr>"
  let ?p = "p\<lparr>tasks := [], task_list_size := task_list_size p - 1\<rparr>"
  let ?w1 = "w\<lparr>pools := (pools w)(h \<mapsto> ?p)\<rparr>"
  have g1: "i_wp_get_task h w = Some (Some ?t, ?w1)" using Cons.prems by (simp add: i_wp_get_task_def)
  have "\<exists>n' w'. i_wp_exec ?t ?w1 = Some (wcb x, w') \<and> objs w' = (objs ?w1)(g \<mapsto> n')
    \<and> (\<exists>f. n' = n\<lparr>fifo := f\<rparr>) \<and> tx_ok n' \<and> fhead (fifo n') = xs
    \<and> sent (sockfd n) (trace w') = sent (sockfd n) (trace ?w1) @ node_rest x
    \<and> k_tcpinfo w' = replicate (Suc (length xs)) (Some TCP_ESTABLISHED) @ is
    \<and> k_send w' = map (\<lambda>x. KRet (wcb x - offset x)) xs @ ks \<and> heap w' = heap ?w1 - 2
    \<and> pools w' = (pools ?w1)(h \<mapsto> ?p\<lparr>tasks := tasks ?p @ [?t], task_list_size := task_list_size ?p + 1\<rparr>)"
    by (rule tcp_exec_front [where m = "wcb x - offset x"]) (use Cons.prems in simp_all)
  then obtain n' w' f where e: "i_wp_exec ?t ?w1 = Some (wcb x, w')" "objs w' = (objs w)(g \<mapsto> n')"
    "n' = n\<lparr>fifo := f\<rparr>" "tx_ok n'" "fhead (fifo n') = xs"
    "sent (sockfd n) (trace w') = sent (sockfd n) (trace w) @ node_rest x"
    "k_tcpinfo w' = replicate (Suc (length xs)) (Some TCP_ESTABLISHED) @ is"
    "k_send w' = map (\<lambda>x. KRet (wcb x - offset x)) xs @ ks" "heap w' = heap w - 2"
    "pools w' h = Some (?p\<lparr>tasks := tasks ?p @ [?t], task_list_size := task_list_size ?p + 1\<rparr>)"
    by auto
  have "node_ok x" using Cons.prems(4,5) by (simp add: tx_ok_def nodes_ok_def)
  then have pos: "0 < wcb x" using Cons.prems(6) by (simp add: node_ok_def)
  have unf: "wp_drain h w = wp_drain h w'"
    using Cons.prems(11) pos by (subst wp_drain.simps) (simp add: g1 e(1))
  from Cons.IH [of w' n' "?p\<lparr>tasks := tasks ?p @ [?t], task_list_size := task_list_size ?p + 1\<rparr>"]
    e Cons.prems
  show ?case unfolding unf by auto
qed

section \<open>Executing a task on a UDP link\<close>

text \<open>\<open>udp_tx\<close> has popped the datagram that went out when \<open>__wp_exec\<close> pops once more: the datagram
  behind it leaves the queue and its memory is freed, but it was never handed to the kernel.\<close>

lemma udp_exec_drops:
  assumes n: "objs w g = Some n" "ncb_write n = Some W_udp_tx" "hld n = g" and ok: "tx_ok n"
    and x: "fhead (fifo n) = x # y # zs" "offset x < wcb x"
    and k: "k_send w = KRet m # ks" "wcb x - offset x \<le> m"
    and p: "pools w h = Some p" and t: "t = \<lparr>task_hld = g, task_thread = h\<rparr>"
  shows "\<exists>n' w'. i_wp_exec t w = Some (wcb x, w') \<and> objs w' g = Some n' \<and> fhead (fifo n') = zs
    \<and> trace w' = trace w @ [Refr g, SendtoIn (sockfd n) (node_rest x) (udp_target x), Defr g]
    \<and> heap w' = heap w - 4"
proof -
  have xok: "node_ok x" using ok x(1) by (simp add: tx_ok_def nodes_ok_def)
  define x1 where "x1 = x\<lparr>offset := wcb x\<rparr>"
  define n1 where "n1 = fifo_set_top x1 n"
  define w1 where "w1 = emit (SendtoIn (sockfd n) (node_rest x) (udp_target x)) (emit (Refr g) w\<lparr>k_send := ks\<rparr>)"
  have n1h: "fhead (fifo n1) = x1 # y # zs" using x(1) by (simp add: n1_def fifo_set_top_def)
  have n1f: "\<exists>f. n1 = n\<lparr>fifo := f\<rparr>" unfolding n1_def by (rule set_top_fifo)
  have pos: "0 < wcb x" using xok x(2) by (simp add: node_ok_def)
  obtain r2 t2 n2 w2 where p1: "fifo_pop False n1 w1 = (r2, t2, n2, w2)" by (metis prod_cases4)
  obtain r3 t3 n3 w3 where p2: "fifo_pop False n2 w2 = (r3, t3, n3, w3)" by (metis prod_cases4)
  note 2 = pop_front [OF p1 n1h]
  then have "fhead (fifo n2) = y # zs" by simp
  note 3 = pop_front [OF p2 this]
  have txn: "udp_txn n x (emit (Refr g) w) = Some (wcb x, x1, w1)"
    using k x xok by (simp add: udp_txn_loop send_loop_once x1_def w1_def)
  have tx: "udp_tx n (emit (Refr g) w) = Some (wcb x, n2, w2)"
    using x(1) pos p1 by (simp add: udp_tx_def fifo_top_def txn Let_def n1_def)
  let ?w4 = "w3\<lparr>pools := (pools w3)(h \<mapsto> p\<lparr>tasks := tasks p @ [t], task_list_size := task_list_size p + 1\<rparr>)\<rparr>"
  have "hld n3 = g" using 2 3 n1f n(3) by auto
  moreover have "pools w3 h = Some p" using 2 3 p by (simp add: w1_def)
  ultimately have "i_wp_add_task t w3 = Some ?w4" "hld n3 = g" by (simp_all add: i_wp_add_task_def t)
  moreover have "r3 > 0" "\<not> wcb x < 0" "wcb x \<noteq> -1" "wcb x \<noteq> - EAGAIN" "wcb x \<noteq> 0" using 3 pos by simp_all
  ultimately have "i_wp_exec t w = Some (wcb x, objdefr g (put_ncb g n3 ?w4))"
    using n(1,2) tx p2 by (simp add: i_wp_exec_def objrefr_def call_write_def t)
  then show ?thesis using 2 3 by (simp add: objdefr_def put_ncb_def w1_def)
qed

end
