(* ===== verification/Iorun.thy ===== *)
theory Iorun
  imports Wpool
begin

text \<open>
  io.c, the threads: one epoll instance and one thread for each division, the dispatch of events to
  the links (\<open>__iorun\<close>), the creation and the end of the io object of a protocol, and the pairs
  \<open>tcp_init\<close>/\<open>tcp_uninit\<close> and \<open>udp_init\<close>/\<open>udp_uninit\<close> that start and stop both thread pools.
\<close>

section \<open>Dispatch\<close>

text \<open>The call through \<open>ncb->ncb_read\<close>; no write routine is ever stored there.\<close>

definition call_read :: "io_routine \<Rightarrow> ncb \<Rightarrow> world \<Rightarrow> (int \<times> ncb \<times> world) option" where
  "call_read f n w = (case f of
       R_tcp_syn \<Rightarrow> do { (r, w) \<leftarrow> tcp_syn n w; Some (r, n, w) }
     | R_tcp_rx \<Rightarrow> tcp_rx n w
     | R_udp_rx \<Rightarrow> udp_rx n w
     | R_arp_rx \<Rightarrow> arp_rx n w
     | R_pipe_rx \<Rightarrow> pipe_rx n w
     | _ \<Rightarrow> None)"

text \<open>An event is a handle and a mask.\<close>

fun i_iorun :: "(objhld \<times> u32) list \<Rightarrow> world \<Rightarrow> world option" where
  "i_iorun [] w = Some w"
| "i_iorun ((h, ev) # evts) w =
     (if ev AND EPOLLRDHUP \<noteq> 0 \<or> ev AND EPOLLERR \<noteq> 0 then i_iorun evts (objclos h w)
      else case objrefr h w of
        (None, w) \<Rightarrow> i_iorun evts w
      | (Some n, w) \<Rightarrow> do {
          (n, w) \<leftarrow> (if ev AND EPOLLIN \<noteq> 0 then
              case ncb_read n of
                None \<Rightarrow> Some (n, w)
              | Some f \<Rightarrow> do {
                  (r, n, w) \<leftarrow> call_read f n w;
                  Some (n, if r < 0 then objclos (hld n) w else w)
                }
            else Some (n, w));
          let w = put_ncb h n w;
          w \<leftarrow> (if ev AND EPOLLOUT \<noteq> 0 \<and> ev AND EPOLLHUP = 0
                then do { (_, w) \<leftarrow> wp_queued n w; Some w } else Some w);
          i_iorun evts (objdefr h w)
        })"

text \<open>One event taken apart.\<close>

lemma iorun_eventE:
  assumes "i_iorun ((h, ev) # evts) w = Some w'"
  obtains (closed) "ev AND EPOLLRDHUP \<noteq> 0 \<or> ev AND EPOLLERR \<noteq> 0" "i_iorun evts (objclos h w) = Some w'"
  | (gone) "objs w h = None" "i_iorun evts w = Some w'"
  | (link) n n1 w1 w2 where "objs w h = Some n"
      "n1 = n \<and> w1 = emit (Refr h) w \<or> (\<exists>f r v. ev AND EPOLLIN \<noteq> 0 \<and> ncb_read n = Some f
         \<and> call_read f n (emit (Refr h) w) = Some (r, n1, v) \<and> (w1 = v \<or> w1 = objclos (hld n1) v))"
      "w2 = put_ncb h n1 w1 \<or> (\<exists>r. wp_queued n1 (put_ncb h n1 w1) = Some (r, w2))"
      "i_iorun evts (objdefr h w2) = Some w'"
proof (cases "ev AND EPOLLRDHUP \<noteq> 0 \<or> ev AND EPOLLERR \<noteq> 0")
  case True
  then show ?thesis using assms by (intro closed) auto
next
  case go: False
  show ?thesis
  proof (cases "objs w h")
    case None
    then show ?thesis using assms go by (intro gone) (auto simp: objrefr_def)
  next
    case (Some n)
    let ?w0 = "emit (Refr h) w"
    define rd where "rd = (if ev AND EPOLLIN \<noteq> 0 then
            case ncb_read n of
              None \<Rightarrow> Some (n, ?w0)
            | Some f \<Rightarrow> do {
                (r, n, w) \<leftarrow> call_read f n ?w0;
                Some (n, if r < 0 then objclos (hld n) w else w)
              }
          else Some (n, ?w0))"
    have "i_iorun ((h, ev) # evts) w = do {
        (n, w) \<leftarrow> rd;
        w \<leftarrow> (if ev AND EPOLLOUT \<noteq> 0 \<and> ev AND EPOLLHUP = 0
              then do { (_, w) \<leftarrow> wp_queued n (put_ncb h n w); Some w } else Some (put_ncb h n w));
        i_iorun evts (objdefr h w) }"
      using go Some unfolding rd_def by (simp add: objrefr_def Let_def)
    with assms obtain n1 w1 w2 where rd: "rd = Some (n1, w1)"
      and wq: "(if ev AND EPOLLOUT \<noteq> 0 \<and> ev AND EPOLLHUP = 0
            then do { (_, w) \<leftarrow> wp_queued n1 (put_ncb h n1 w1); Some w } else Some (put_ncb h n1 w1)) = Some w2"
      and rest: "i_iorun evts (objdefr h w2) = Some w'"
      by (auto split: Option.bind_splits)
    show ?thesis
    proof (rule link [OF Some _ _ rest])
      show "n1 = n \<and> w1 = ?w0 \<or> (\<exists>f r v. ev AND EPOLLIN \<noteq> 0 \<and> ncb_read n = Some f
         \<and> call_read f n ?w0 = Some (r, n1, v) \<and> (w1 = v \<or> w1 = objclos (hld n1) v))"
        using rd unfolding rd_def by (auto split: if_splits option.splits Option.bind_splits)
      show "w2 = put_ncb h n1 w1 \<or> (\<exists>r. wp_queued n1 (put_ncb h n1 w1) = Some (r, w2))"
        using wq by (auto split: if_splits Option.bind_splits)
    qed
  qed
qed

text \<open>The answers of \<open>epoll_wait\<close> while the thread is active; the list ends where the thread finds
  its flag cleared.\<close>

datatype ewait = EvErr int | EvList "(objhld \<times> u32) list"

fun epoll_proc :: "ewait list \<Rightarrow> world \<Rightarrow> world option" where
  "epoll_proc [] w = Some w"
| "epoll_proc (EvErr e # ws) w = (if e = EINTR then epoll_proc ws w else Some w)"
| "epoll_proc (EvList evts # ws) w =
     (if evts = [] then epoll_proc ws w else do { w \<leftarrow> i_iorun evts w; epoll_proc ws w })"

section \<open>The io object of a protocol\<close>

definition iob_handle :: "int \<Rightarrow> world \<Rightarrow> objhld option" where
  "iob_handle proto w = (if proto = IPPROTO_TCP then Some (io_tcphld w)
     else if proto = IPPROTO_UDP \<or> proto = ETH_P_ARP then Some (io_udphld w) else None)"

definition iob_set_handle :: "int \<Rightarrow> objhld \<Rightarrow> world \<Rightarrow> world" where
  "iob_set_handle proto h w = (if proto = IPPROTO_TCP then w\<lparr>io_tcphld := h\<rparr> else w\<lparr>io_udphld := h\<rparr>)"

definition objallo_iob :: "world \<Rightarrow> (objhld \<times> world) option" where
  "objallo_iob w = (case k_newobj w of [] \<Rightarrow> None
     | h # hs \<Rightarrow> (let w = w\<lparr>k_newobj := hs\<rparr> in
         if h < 0 then Some (h, w)
         else Some (h, w\<lparr>iobs := (iobs w)(h \<mapsto> \<lparr>epoptr = [], divisions = 0, io_protocol = 0\<rparr>)\<rparr>)))"

text \<open>The epoll instances and their threads. Where \<open>epoll_create\<close> fails the rest of the entry stays
  as the allocator left it.\<close>

fun create_epolls :: "nat \<Rightarrow> world \<Rightarrow> (epoll_object_block list \<times> world) option" where
  "create_epolls 0 w = Some ([], w)"
| "create_epolls (Suc k) w = do {
     (fd, w) \<leftarrow> newfd_call w;
     let (e, w) = (if fd < 0 then (\<lparr>eo_epfd = fd, eo_actived = (junk w = 1), eo_load = 0, eo_pipefdw = 0\<rparr>, w)
        else let (r, w) = simple_call SYS_pthread_create w in
          if r < 0 then (\<lparr>eo_epfd = -1, eo_actived = False, eo_load = 0, eo_pipefdw = 0\<rparr>, emit (Close fd) w)
          else (\<lparr>eo_epfd = fd, eo_actived = True, eo_load = 0, eo_pipefdw = 0\<rparr>, w));
     (es, w) \<leftarrow> create_epolls k w;
     Some (e # es, w)
   }"

text \<open>One pipe for each thread, its write end stored in the entry as the loop goes.\<close>

fun create_pipes :: "objhld \<Rightarrow> ncb \<Rightarrow> nat \<Rightarrow> nat \<Rightarrow> world \<Rightarrow> world option" where
  "create_pipes h raw i 0 w = Some w"
| "create_pipes h raw i (Suc k) w = do {
     b \<leftarrow> iobs w h;
     (fd, w) \<leftarrow> pipe_create raw (io_protocol b) w;
     b \<leftarrow> iobs w h;
     let w = w\<lparr>iobs := (iobs w)(h \<mapsto>
                b\<lparr>epoptr := (epoptr b)[i := (epoptr b ! i)\<lparr>eo_pipefdw := fd\<rparr>]\<rparr>)\<rparr>;
     create_pipes h raw (Suc i) k w
   }"

definition sizeof_epoll_object_block :: int where
  "sizeof_epoll_object_block = 24"

definition i_io_init :: "objhld \<Rightarrow> ncb \<Rightarrow> int \<Rightarrow> world \<Rightarrow> (int \<times> world) option" where
  "i_io_init h raw nprocs w =
     (if nprocs \<le> 0 then Some (- EINVAL, w) else do {
        b \<leftarrow> iobs w h;
        (case malloc (sizeof_epoll_object_block * nprocs) w of
           (None, w) \<Rightarrow> Some (- ENOMEM, w\<lparr>iobs := (iobs w)(h \<mapsto> b\<lparr>divisions := nprocs\<rparr>)\<rparr>)
         | (Some _, w) \<Rightarrow> do {
             (es, w) \<leftarrow> create_epolls (nat nprocs) w;
             let w = w\<lparr>iobs := (iobs w)(h \<mapsto> b\<lparr>divisions := nprocs, epoptr := es\<rparr>)\<rparr>;
             w \<leftarrow> create_pipes h raw 0 (nat nprocs) w;
             Some (0, w)
           })
      })"

definition io_init :: "ncb \<Rightarrow> int \<Rightarrow> world \<Rightarrow> (int \<times> world) option" where
  "io_init raw proto w = (case iob_handle proto w of
       None \<Rightarrow> Some (- EPROTOTYPE, w)
     | Some cur \<Rightarrow>
         if cur \<ge> 0 then Some (EALREADY, w) else do {
           (h, w) \<leftarrow> objallo_iob w;
           (if h < 0 then Some (-1, w)
            else if cur \<noteq> -1 then Some (EALREADY, objclos h w)
            else let w = iob_set_handle proto h w in
              case iob_refr h w of
                (None, w) \<Rightarrow> Some (- ENOENT, w)
              | (Some b, w) \<Rightarrow>
                  let w = w\<lparr>iobs := (iobs w)(h \<mapsto> b\<lparr>io_protocol := proto\<rparr>)\<rparr>;
                      nprocs = (if proto = IPPROTO_TCP then posix__getnprocs (env w)
                                else posix__getnprocs (env w) div 2);
                      nprocs = (if nprocs \<le> 0 then 1 else nprocs)
                  in do { (r, w) \<leftarrow> i_io_init h raw nprocs w; Some (r, objdefr h w) })
         })"

text \<open>Only the two handles, and only under these two protocols.\<close>

definition io_uninit :: "int \<Rightarrow> world \<Rightarrow> world" where
  "io_uninit proto w =
     (let cur = (if proto = IPPROTO_TCP then io_tcphld w
                 else if proto = IPPROTO_UDP then io_udphld w else -1)
      in if cur \<ge> 0 then objclos cur w else w)"

text \<open>The unloader: every thread is told to stop and joined, every epoll instance closed.\<close>

fun close_epolls :: "epoll_object_block list \<Rightarrow> world \<Rightarrow> world" where
  "close_epolls [] w = w"
| "close_epolls (e # es) w =
     close_epolls es (if eo_epfd e > 0 then emit (Close (eo_epfd e)) w else w)"

text \<open>The array is read up to \<open>divisions\<close>, also where its allocation failed and it is null.\<close>

definition i_io_uninit :: "objhld \<Rightarrow> world \<Rightarrow> world option" where
  "i_io_uninit h w = (case iobs w h of None \<Rightarrow> Some w
     | Some b \<Rightarrow> if int (length (epoptr b)) < divisions b then None else
         let w = close_epolls (take (nat (divisions b)) (epoptr b)) w;
             w = free (w\<lparr>iobs := (iobs w)(h \<mapsto> b\<lparr>epoptr := []\<rparr>)\<rparr>)
         in Some (if io_tcphld w = h then w\<lparr>io_tcphld := -1\<rparr>
            else if io_udphld w = h then w\<lparr>io_udphld := -1\<rparr> else w))"

section \<open>Starting and stopping a protocol\<close>

definition tcp_init :: "ncb \<Rightarrow> world \<Rightarrow> (int \<times> world) option" where
  "tcp_init raw w = do {
     (r, w) \<leftarrow> io_init raw IPPROTO_TCP w;
     (if r \<noteq> 0 then Some (r, w) else do {
        (r, w) \<leftarrow> wp_init IPPROTO_TCP w;
        Some (r, if r < 0 then io_uninit IPPROTO_TCP w else w)
      })
   }"

definition tcp_uninit :: "world \<Rightarrow> world option" where
  "tcp_uninit w = do {
     w \<leftarrow> ncb_uninit IPPROTO_TCP w;
     Some (wp_uninit IPPROTO_TCP (io_uninit IPPROTO_TCP w))
   }"

definition udp_init :: "ncb \<Rightarrow> world \<Rightarrow> (int \<times> world) option" where
  "udp_init raw w = do {
     (r, w) \<leftarrow> io_init raw IPPROTO_UDP w;
     (if r \<noteq> 0 then Some (r, w) else do {
        (r, w) \<leftarrow> wp_init IPPROTO_UDP w;
        Some (r, if r < 0 then io_uninit IPPROTO_UDP w else w)
      })
   }"

definition udp_uninit :: "world \<Rightarrow> world option" where
  "udp_uninit w = do {
     w \<leftarrow> ncb_uninit IPPROTO_UDP w;
     Some (wp_uninit IPPROTO_UDP (io_uninit IPPROTO_UDP w))
   }"

end
