(* ===== verification/Tcp_frame.thy ===== *)
theory Tcp_frame
  imports Tcpio Link Loops
begin

text \<open>
  What receiving on a TCP link leaves alone, for every input and every answer of the kernel: only
  the receive buffers of the block change, only events of the user are added to the trace, and the
  loops obey the contract of theory Loops.
\<close>

definition is_post :: "effect \<Rightarrow> bool" where
  "is_post e \<longleftrightarrow> (case e of Post f v \<Rightarrow> True | _ \<Rightarrow> False)"

definition rx_frame :: "ncb \<Rightarrow> world \<Rightarrow> ncb \<Rightarrow> world \<Rightarrow> bool" where
  "rx_frame n w n' w' \<longleftrightarrow> n'\<lparr>packet := packet n, tcp := tcp n\<rparr> = n
     \<and> w'\<lparr>trace := trace w, heap := heap w, k_fail := k_fail w, errno := errno w, k_recv := k_recv w\<rparr> = w
     \<and> (\<exists>es. trace w' = trace w @ es \<and> list_all is_post es)"

lemma rx_frame_refl [simp]: "rx_frame n w n w"
  by (simp add: rx_frame_def)

lemma rx_frame_trans:
  assumes "rx_frame n w n' w'" "rx_frame n' w' n'' w''"
  shows "rx_frame n w n'' w''"
proof -
  have "n''\<lparr>packet := packet n, tcp := tcp n\<rparr> = n"
    using assms by (cases n; cases n'; cases n''; simp add: rx_frame_def)
  moreover have "w''\<lparr>trace := trace w, heap := heap w, k_fail := k_fail w, errno := errno w,
      k_recv := k_recv w\<rparr> = w"
    using assms by (cases w; cases w'; cases w''; simp add: rx_frame_def)
  moreover have "\<exists>es. trace w'' = trace w @ es \<and> list_all is_post es"
    using assms by (auto simp: rx_frame_def)
  ultimately show ?thesis by (simp add: rx_frame_def)
qed

lemma rx_frame_ncb:
  "rx_frame n w n' w' \<Longrightarrow> rx_frame n w (n'\<lparr>packet := p\<rparr>) w'"
  "rx_frame n w n' w' \<Longrightarrow> rx_frame n w (n'\<lparr>tcp := t\<rparr>) w'"
  "rx_frame n w n' w' \<Longrightarrow> rx_frame n w (n'\<lparr>packet := p, tcp := t\<rparr>) w'"
  by (simp_all add: rx_frame_def)

lemma rx_frame_world:
  "rx_frame n w n (post m e w)" "rx_frame n w n (w\<lparr>heap := hp\<rparr>)" "rx_frame n w n (w\<lparr>errno := er\<rparr>)"
  "rx_frame n w n (w\<lparr>k_recv := k\<rparr>)" "rx_frame n w n (w\<lparr>k_fail := f, errno := er\<rparr>)"
  "rx_frame n w n (w\<lparr>k_fail := f, errno := er, heap := hp\<rparr>)" "rx_frame n w n (w\<lparr>k_recv := k, errno := er\<rparr>)"
  by (simp_all add: rx_frame_def post_def emit_def is_post_def split: option.split)

lemma rx_frame_malloc: "malloc k w = (b, w') \<Longrightarrow> rx_frame n w n w'"
  by (drule mallocD) (auto intro: rx_frame_world)

lemma rx_frame_recvdata: "ncb_post_recvdata m b off len w = Some w' \<Longrightarrow> rx_frame n w n w'"
  by (auto simp: ncb_post_recvdata_def intro: rx_frame_world split: Option.bind_splits)

lemma recvdata_k: "ncb_post_recvdata m b off len w = Some w' \<Longrightarrow> k_recv w' = k_recv w"
  by (auto simp: ncb_post_recvdata_def split: Option.bind_splits)

lemma malloc_k: "malloc k w = (b, w') \<Longrightarrow> k_recv w' = k_recv w"
  by (drule mallocD) auto

lemma parse_body_frame:
  "tcp_parse_body n dat c u ov w = Some (r, n', w') \<Longrightarrow> rx_frame n w n' w' \<and> k_recv w' = k_recv w"
  unfolding tcp_parse_body_def Let_def
  by (auto split: Option.bind_splits if_splits prod.splits option.splits
      intro: rx_frame_ncb dest: rx_frame_recvdata recvdata_k rx_frame_malloc malloc_k)

lemma parse_marked_frame:
  "tcp_parse_marked_lb n dat c w = Some (r, n', w') \<Longrightarrow> rx_frame n w n' w' \<and> k_recv w' = k_recv w"
  unfolding tcp_parse_marked_lb_def Let_def free_def
  by (auto split: Option.bind_splits if_splits
      intro: rx_frame_ncb rx_frame_trans [OF rx_frame_recvdata rx_frame_world(2)] dest: recvdata_k)

lemma parse_pkt_frame:
  assumes "tcp_parse_pkt n dat c w = Some (r, n', w')"
  shows "rx_frame n w n' w' \<and> k_recv w' = k_recv w"
proof -
  have body: "rx_frame n w m v \<and> k_recv v = k_recv w"
    if "tcp_parse_body (n\<lparr>packet := p, tcp := t\<rparr>) dat c a b w = Some (q, m, v)" for p t a b q m v
    using parse_body_frame [OF that] rx_frame_trans [OF rx_frame_ncb(3) [OF rx_frame_refl]] by blast
  show ?thesis
    using assms unfolding tcp_parse_pkt_def Let_def
    by (auto split: Option.bind_splits if_splits
        intro: rx_frame_ncb dest: rx_frame_recvdata recvdata_k parse_marked_frame body parse_body_frame)
qed

lemma parse_all_frame:
  assumes "tcp_parse_all n buf off c w = Some y"
  shows "case y of (r, n', w') \<Rightarrow> rx_frame n w n' w' \<and> k_recv w' = k_recv w"
  using _ assms
proof (rule tcp_parse_all.raw_induct)
  fix f n buf off c w y
  assume IH: "\<And>n buf off c w y. f n buf off c w = Some y \<Longrightarrow>
      case y of (r, n', w') \<Rightarrow> rx_frame n w n' w' \<and> k_recv w' = k_recv w"
    and step: "Option.bind (tcp_parse_pkt n (drop (nat off) buf) c w) (\<lambda>(overplus, n, w).
         if overplus < 0 then Some (- 1, n, w)
         else if 0 < overplus then f n buf (off + (c - overplus)) overplus w
              else Some (0, n, w)) = Some y"
  obtain ov n1 w1 where p: "tcp_parse_pkt n (drop (nat off) buf) c w = Some (ov, n1, w1)"
    using step by (auto split: Option.bind_splits)
  show "case y of (r, n', w') \<Rightarrow> rx_frame n w n' w' \<and> k_recv w' = k_recv w"
  proof (cases "ov > 0")
    case True
    then have "f n1 buf (off + (c - ov)) ov w1 = Some y" using step p by simp
    from IH [OF this] parse_pkt_frame [OF p] show ?thesis by (auto intro: rx_frame_trans)
  next
    case False
    with parse_pkt_frame [OF p] step p show ?thesis by (auto split: if_splits)
  qed
qed

lemma i_tcp_rx_frame:
  assumes "i_tcp_rx n w = Some (r, n', w')"
  shows "rx_frame n w n' w'" "length (k_recv w') < length (k_recv w)"
proof -
  obtain buf cb bs a w1 b2 where c: "recv_call TCP_BUFFER_SIZE w = Some (cb, bs, a, w1)"
    and res: "(let m = n\<lparr>tcp := (tcp n)\<lparr>rx_buffer := Some b2\<rparr>\<rparr> in
      if cb > 0 then tcp_parse_all m b2 0 cb w1
      else if cb = 0 then Some (- ECONNRESET, m, w1)
      else if errno w1 = EINTR then Some (0, m, w1)
      else if errno w1 = EAGAIN then Some (EAGAIN, m, w1)
      else Some (-1, m, w1)) = Some (r, n', w')"
    using assms by (auto simp: i_tcp_rx_def split: Option.bind_splits)
  let ?m = "n\<lparr>tcp := (tcp n)\<lparr>rx_buffer := Some b2\<rparr>\<rparr>"
  have "rx_frame n w n w1"
    using c by (auto simp: recv_call_def Let_def intro: rx_frame_world split: list.splits rxans.splits)
  then have f1: "rx_frame n w ?m w1" by (rule rx_frame_ncb)
  have k1: "length (k_recv w1) < length (k_recv w)" by (rule recv_call_consumes [OF c])
  have "rx_frame n w n' w' \<and> k_recv w' = k_recv w1"
  proof (cases "cb > 0")
    case True
    with res have "tcp_parse_all ?m b2 0 cb w1 = Some (r, n', w')" by (simp add: Let_def)
    from parse_all_frame [OF this] show ?thesis by (auto intro: rx_frame_trans [OF f1])
  next
    case False
    with res f1 show ?thesis by (auto simp: Let_def split: if_splits)
  qed
  with k1 show "rx_frame n w n' w'" "length (k_recv w') < length (k_recv w)" by auto
qed

interpretation tcp_l: rx_loop "\<lambda>(n, w). i_tcp_rx n w" "\<lambda>(n, w). tcp_rx n w"
  "\<lambda>(n, w). length (k_recv w)"
proof
  show "(case s of (n, w) \<Rightarrow> tcp_rx n w) = Option.bind (case s of (n, w) \<Rightarrow> i_tcp_rx n w)
      (\<lambda>(r, s). if r = 0 then (case s of (n, w) \<Rightarrow> tcp_rx n w) else Some (r, s))"
    for s :: "ncb \<times> world"
    by (cases s; simp; subst tcp_rx.simps; cases "i_tcp_rx (fst s) (snd s)"; auto)
qed (auto dest: i_tcp_rx_frame(2))

lemma tcp_rx_frame:
  assumes "tcp_rx n w = Some (r, n', w')"
  shows "rx_frame n w n' w'" "r \<noteq> 0"
proof -
  have s: "(case (n, w) of (n, w) \<Rightarrow> tcp_rx n w) = Some (r, n', w')" using assms by simp
  show "r \<noteq> 0" by (rule tcp_l.ends_nonzero [OF s])
  have "case (n', w') of (n', w') \<Rightarrow> rx_frame n w n' w'"
    by (rule tcp_l.keeps [OF _ _ s, where P = "\<lambda>(n', w'). rx_frame n w n' w'"])
      (auto intro: rx_frame_trans dest: i_tcp_rx_frame(1))
  then show "rx_frame n w n' w'" by simp
qed

lemma is_post_no_ref: "list_all is_post es \<Longrightarrow> list_all no_ref es"
  by (induction es) (auto simp: is_post_def no_ref_def split: effect.splits)

lemma is_post_sent: "list_all is_post es \<Longrightarrow> sent fd es = []"
  by (induction fd es rule: sent.induct) (auto simp: is_post_def)

lemma rx_frameD:
  assumes "rx_frame n w n' w'"
  shows "fifo n' = fifo n" "sockfd n' = sockfd n" "hld n' = hld n" "protocol n' = protocol n"
    "ncb_read n' = ncb_read n" "ncb_write n' = ncb_write n" "balanced w w'"
    "sent fd (trace w') = sent fd (trace w)" "objs w' = objs w" "pools w' = pools w"
    "epolls w' = epolls w" "k_send w' = k_send w" "env w' = env w"
proof -
  from assms obtain es where es: "trace w' = trace w @ es" "list_all is_post es"
    by (auto simp: rx_frame_def)
  show "balanced w w'" by (rule balanced_effects [OF es(1) is_post_no_ref [OF es(2)]])
  show "sent fd (trace w') = sent fd (trace w)" using es is_post_sent by simp
  have n: "n'\<lparr>packet := packet n, tcp := tcp n\<rparr> = n" using assms by (simp add: rx_frame_def)
  show "fifo n' = fifo n" "sockfd n' = sockfd n" "hld n' = hld n" "protocol n' = protocol n"
    "ncb_read n' = ncb_read n" "ncb_write n' = ncb_write n"
    using n by (cases n; cases n'; simp)+
  have w: "w'\<lparr>trace := trace w, heap := heap w, k_fail := k_fail w, errno := errno w,
      k_recv := k_recv w\<rparr> = w" using assms by (simp add: rx_frame_def)
  show "objs w' = objs w" "pools w' = pools w"
    "epolls w' = epolls w" "k_send w' = k_send w" "env w' = env w"
    using w by (cases w; cases w'; simp)+
qed

end
