(* ===== verification/Balance.thy ===== *)
theory Balance
  imports Iorun Tcp_frame
begin

text \<open>
  Whatever a handler does, it gives back every reference it takes: the lemmas go through the read
  routines, the write routines and the dispatch of events.
\<close>

section \<open>Read routines\<close>

lemma recv_frame: "recv_call k w = Some (cb, bs, a, w1) \<Longrightarrow> rx_frame n w n w1"
  by (auto simp: recv_call_def Let_def intro: rx_frame_world split: list.splits rxans.splits)

lemma rx_frame_post: "rx_frame n w n' w1 \<Longrightarrow> rx_frame n w n' (post m e w1)"
  by (rule rx_frame_trans [OF _ rx_frame_world(1)])

lemma i_udp_rx_frame: "i_udp_rx n w = Some (r, n', w') \<Longrightarrow> rx_frame n w n' w'"
  unfolding i_udp_rx_def Let_def
  by (auto split: Option.bind_splits if_splits dest!: recv_frame [of _ _ _ _ _ _ n]
      simp: rx_frame_ncb(1) rx_frame_post)

lemma udp_rx_frame:
  assumes "udp_rx n w = Some (r, n', w')"
  shows "rx_frame n w n' w'"
proof -
  have s: "(case (n, w) of (n, w) \<Rightarrow> udp_rx n w) = Some (r, n', w')" using assms by simp
  have "case (n', w') of (n', w') \<Rightarrow> rx_frame n w n' w'"
    by (rule udp_l.keeps [OF _ _ s, where P = "\<lambda>(n', w'). rx_frame n w n' w'"])
      (auto intro: rx_frame_trans dest: i_udp_rx_frame)
  then show ?thesis by simp
qed

lemma i_arp_rx_frame: "i_arp_rx n w = Some (r, n', w') \<Longrightarrow> rx_frame n w n' w'"
  unfolding i_arp_rx_def Let_def
  by (auto split: Option.bind_splits if_splits dest!: recv_frame [of _ _ _ _ _ _ n]
      simp: rx_frame_ncb(1) rx_frame_post)

lemma arp_rx_frame:
  assumes "arp_rx n w = Some (r, n', w')"
  shows "rx_frame n w n' w'"
proof -
  have s: "(case (n, w) of (n, w) \<Rightarrow> arp_rx n w) = Some (r, n', w')" using assms by simp
  have "case (n', w') of (n', w') \<Rightarrow> rx_frame n w n' w'"
    by (rule arp_l.keeps [OF _ _ s, where P = "\<lambda>(n', w'). rx_frame n w n' w'"])
      (auto intro: rx_frame_trans dest: i_arp_rx_frame)
  then show ?thesis by simp
qed

lemma pipe_rx_balanced: "pipe_rx n w = Some (r, n', w') \<Longrightarrow> n' = n \<and> balanced w w'"
proof (induction "length (k_recv w)" arbitrary: w rule: less_induct)
  case (less w)
  obtain cb buf a w1 where c: "recv_call PIPE_BUF w = Some (cb, buf, a, w1)"
    using less.prems by (subst (asm) pipe_rx.simps) (auto split: option.splits)
  have b1: "balanced w w1" using recv_frame [OF c, of n] by (rule rx_frameD(7))
  note k1 = recv_call_consumes [OF c]
  note step = less.prems [unfolded pipe_rx.simps [of n w] c option.case prod.case]
  show ?case
  proof (cases "cb \<le> 0 \<and> (errno w1 = 0 \<or> errno w1 = EAGAIN \<or> errno w1 \<noteq> EINTR)")
    case True
    with step b1 show ?thesis by (auto split: if_splits)
  next
    case False
    show ?thesis
    proof (cases "\<exists>target d. 0 < cb \<and> \<not> cb < pipe_head_size \<and> cb = pipe_length buf + pipe_head_size
        \<and> objs w1 (pipe_link buf) = Some target \<and> buf_get buf pipe_head_size (pipe_length buf) = Some d")
      case True
      then obtain target d where t: "0 < cb" "\<not> cb < pipe_head_size" "cb = pipe_length buf + pipe_head_size"
        "objs w1 (pipe_link buf) = Some target" "buf_get buf pipe_head_size (pipe_length buf) = Some d" by blast
      let ?w2 = "objdefr (pipe_link buf) (post target (EVT_PIPEDATA (hld target) d) (emit (Refr (pipe_link buf)) w1))"
      have "pipe_rx n ?w2 = Some (r, n', w')" using step t by (simp add: objrefr_def)
      moreover have "length (k_recv ?w2) < length (k_recv w)" using k1 by (simp add: objdefr_def)
      ultimately have "n' = n \<and> balanced ?w2 w'" using less.hyps by blast
      moreover have "balanced w1 ?w2"
        unfolding objdefr_def by (rule balanced_refr_defr) simp
      ultimately show ?thesis using b1 balanced_trans by blast
    next
      case none: False
      have "pipe_rx n w1 = Some (r, n', w')"
        using step False none by (auto simp: objrefr_def split: if_splits option.splits)
      then have "n' = n \<and> balanced w1 w'" using less.hyps k1 by blast
      then show ?thesis using b1 balanced_trans by blast
    qed
  qed
qed

section \<open>Accepting\<close>

lemma getname_balanced: "getname a w = (b, w') \<Longrightarrow> balanced w w'"
  by (auto simp: getname_def intro: balanced_trace split: list.splits)

lemma malloc_balanced: "malloc k w = (b, w') \<Longrightarrow> balanced w w'"
  by (drule mallocD) (auto intro: balanced_trace)

lemma opt_balanced: "opt_step w w' \<Longrightarrow> balanced w w'"
  by (rule balanced_trace) (rule opt_stepD)

lemma set_linger_balanced: "balanced w (snd (ncb_set_linger n a b w))"
  unfolding ncb_set_linger_def by (rule opt_balanced) (rule opt_step_setsockopt)

lemma io_modify_balanced: "io_modify n m w = (r, w') \<Longrightarrow> balanced w w'"
  by (rule balanced_trace) (auto dest!: io_modify_ctl ctl_stepD)

lemma syn_dpc_balanced:
  assumes "i_tcp_syn_dpc server n w = Some (r, n', w')"
  shows "balanced w w' \<and> hld n' = hld n"
proof -
  have opts: "balanced v (snd (ncb_set_linger m 1 0 (tcp_update_opts m v)))" for m v
    using opt_balanced [OF update_opts_step] set_linger_balanced balanced_trans by blast
  have start: "balanced v v5" if "getname a v = (ra, v1)" "getname b v1 = (la, v2)" "v3 = tcp_update_opts m v2"
    "v4 = snd (ncb_set_linger m 1 0 v3)" "malloc k v4 = (p, v5)" for v v1 v2 v3 v4 v5 a b ra la m k p
    using balanced_trans [OF balanced_trans [OF getname_balanced getname_balanced], OF that(1,2) opts]
      malloc_balanced [OF that(5)] that(3,4) balanced_trans by blast
  have last: "balanced v v1 \<and> hld n1 = hld m" if "io_attach m 0 v = Some (r1, n1, v1)" for m v r1 n1 v1
    using io_attach_balanced [OF that] io_attachD(2) [OF that] by auto
  have more: "balanced v v2" if "io_attach m 0 v = Some (r1, n1, v1)"
      "io_modify n1 EPOLLIN (ncb_post_accepted server h v1) = (u, v2)" for m v r1 n1 v1 h u v2
    using last [OF that(1)] io_modify_balanced [OF that(2)] balanced_post balanced_trans
    unfolding ncb_post_accepted_def by blast
  show ?thesis
    using assms unfolding i_tcp_syn_dpc_def
  proof (elim run_elims, goal_cases)
    case 1
    show ?case using start [OF 1(1,2,4-6)] 1(3,7-9) by auto
  next
    case 2
    show ?case using balanced_trans [OF start [OF 2(1,2,4-6)] malloc_balanced [OF 2(10)]] 2(3,7-13) by auto
  next
    case 3
    note b = balanced_trans [OF balanced_trans [OF start [OF 3(1,2,4-6)] malloc_balanced [OF 3(10)]]]
    show ?case using 3 by (auto dest: last intro: b split: if_splits)
  next
    case 4
    note b = balanced_trans [OF balanced_trans [OF start [OF 4(1,2,4-6)] malloc_balanced [OF 4(10)]]]
    show ?case using 4 by (auto dest: last intro: b more split: if_splits)
  qed
qed

lemma i_tcp_syn_balanced:
  assumes "i_tcp_syn server w = Some (r, w')"
  shows "balanced w w'"
proof -
  obtain r1 st w1 where i: "tcp_save_info server w = Some (r1, st, w1)"
    using assms by (auto simp: i_tcp_syn_def split: Option.bind_splits)
  have b1: "balanced w w1" using i by (auto simp: tcp_save_info_def balanced_def split: list.splits option.splits)
  show ?thesis
  proof (cases "r1 \<ge> 0 \<and> st \<noteq> TCP_LISTEN")
    case True
    then show ?thesis using assms i b1 by (simp add: i_tcp_syn_def)
  next
    case False
    then obtain r2 fd cc w2 where t: "i_tcp_syn_try server w1 = Some (r2, fd, cc, w2)"
      using assms i by (auto simp: i_tcp_syn_def split: Option.bind_splits)
    have b2: "balanced w w2"
      using t b1 by (auto simp: i_tcp_syn_try_def accept_call_def balanced_def Let_def
          split: Option.bind_splits list.splits kans.splits if_splits)
    show ?thesis
    proof (cases "r2 \<ge> 0")
      case neg: False
      then show ?thesis using assms i False t b2 by (simp add: i_tcp_syn_def)
    next
      case True
      obtain h w3 where o: "objallo_ncb w2 = Some (h, w3)"
        using assms i False t True by (auto simp: i_tcp_syn_def split: Option.bind_splits)
      have b3: "balanced w w3"
        using o b2 by (auto simp: objallo_ncb_def ncb_allocator_def balanced_def Let_def
            split: list.splits if_splits)
      show ?thesis
      proof (cases "h < 0")
        case neg: True
        then show ?thesis
          using assms i False t True o b3 balanced_trans [OF b3 balanced_emit [of "Close fd"]]
          by (simp add: i_tcp_syn_def no_ref_def)
      next
        case pos: False
        then have "objs w3 h = Some (fifo_init ncb_zero)"
          using o by (auto simp: objallo_ncb_def ncb_allocator_def Let_def split: list.splits if_splits)
        then obtain r4 n4 w4 where
          d: "i_tcp_syn_dpc server (fifo_init ncb_zero\<lparr>sockfd := fd, hld := h, protocol := IPPROTO_TCP,
                nis_callback := nis_callback server\<rparr>) (emit (Refr h) w3) = Some (r4, n4, w4)"
          and w': "w' = objdefr h (if r4 < 0 then objclos h (put_ncb h n4 w4) else put_ncb h n4 w4)"
          using assms i False t True o pos
          by (auto simp: i_tcp_syn_def objrefr_def Let_def split: Option.bind_splits)
        have "balanced (emit (Refr h) w3) w4" using syn_dpc_balanced [OF d] by simp
        moreover have "balanced w4 (if r4 < 0 then objclos h (put_ncb h n4 w4) else put_ncb h n4 w4)"
          by (auto simp: balanced_def put_ncb_def objclos_def)
        ultimately have "balanced w3 w'"
          unfolding w' objdefr_def using balanced_refr_defr balanced_trans by blast
        then show ?thesis using b3 balanced_trans by blast
      qed
    qed
  qed
qed

lemma tcp_syn_balanced:
  assumes "tcp_syn server w = Some y"
  shows "balanced w (snd y)"
  using _ assms
proof (rule tcp_syn.raw_induct)
  fix f server w y
  assume IH: "\<And>server w y. f server w = Some y \<Longrightarrow> balanced w (snd y)"
    and step: "Option.bind (i_tcp_syn server w) (\<lambda>(r, w). if r = 0 then f server w else Some (r, w)) = Some y"
  obtain r w1 where s: "i_tcp_syn server w = Some (r, w1)" using step by (auto split: Option.bind_splits)
  note b = i_tcp_syn_balanced [OF s]
  show "balanced w (snd y)"
  proof (cases "r = 0")
    case True
    then have "balanced w1 (snd y)" using IH step s by simp
    then show ?thesis using b balanced_trans by blast
  qed (use step s b in auto)
qed

section \<open>Dispatch\<close>

lemma call_read_balanced: "call_read f n w = Some (r, n', w') \<Longrightarrow> balanced w w' \<and> hld n' = hld n"
  by (auto simp: call_read_def split: io_routine.splits Option.bind_splits
      dest: tcp_syn_balanced tcp_rx_frame(1) udp_rx_frame arp_rx_frame pipe_rx_balanced rx_frameD)

lemma wp_queued_balanced: "wp_queued n w = Some (r, w') \<Longrightarrow> balanced w w'"
proof -
  have add: "balanced v v'" if "i_wp_add_task t v = Some v'" for t v v'
    using add_taskD [OF that] by (auto simp: balanced_def)
  assume q: "wp_queued n w = Some (r, w')"
  define h where "h = (case wp_handle (protocol n) w of None \<Rightarrow> -1 | Some h \<Rightarrow> h)"
  show ?thesis
  proof (cases "h < 0 \<or> pools w h = None")
    case True
    then have "w' = w" using q unfolding wp_queued_def pool_refr_def Let_def h_def [symmetric]
      by (auto split: option.splits if_splits)
    then show ?thesis by simp
  next
    case False
    then obtain p where p: "pools w h = Some p" by auto
    obtain b w1 where m: "malloc sizeof_wptask (emit (Refr h) w) = (b, w1)" by fastforce
    have b1: "balanced (emit (Refr h) w) w1" by (rule malloc_balanced [OF m])
    show ?thesis
    proof (cases b)
      case None
      then have "w' = emit (Defr h) w1"
        using q False p m unfolding wp_queued_def pool_refr_def Let_def h_def [symmetric]
        by (simp add: objdefr_def)
      then show ?thesis using balanced_refr_defr [OF b1] by simp
    next
      case (Some x)
      then obtain w2 where a: "i_wp_add_task \<lparr>task_hld = hld n, task_thread = h\<rparr> w1 = Some w2"
        and w': "w' = emit (Defr h) (emit (Signal h) w2)"
        using q False p m unfolding wp_queued_def pool_refr_def Let_def h_def [symmetric]
        by (auto simp: objdefr_def split: Option.bind_splits)
      have "balanced w2 (emit (Signal h) w2)" by (simp add: balanced_emit no_ref_def)
      then have "balanced (emit (Refr h) w) (emit (Signal h) w2)" using b1 add [OF a] balanced_trans by blast
      then show ?thesis unfolding w' by (rule balanced_refr_defr)
    qed
  qed
qed

text \<open>A round of events gives back every reference.\<close>

lemma balanced_clos: "balanced w (objclos h w)"
  by (simp add: objclos_def balanced_emit no_ref_def)

lemma balanced_put [simp]: "balanced w (put_ncb h n w)"
  by (simp add: balanced_def put_ncb_def)

lemma iorun_balanced: "i_iorun evts w = Some w' \<Longrightarrow> balanced w w'"
proof (induction evts arbitrary: w)
  case Nil
  then show ?case by simp
next
  case (Cons e evts)
  obtain h ev where e: "e = (h, ev)" by fastforce
  from Cons.prems [unfolded e] show ?case
  proof (cases rule: iorun_eventE)
    case closed
    from balanced_trans [OF balanced_clos Cons.IH [OF closed(2)]] show ?thesis .
  next
    case gone
    then show ?thesis by (simp add: Cons.IH)
  next
    case (link n n1 w1 w2)
    have "balanced (emit (Refr h) w) w1"
      using link(2) by (auto dest!: call_read_balanced intro: balanced_trans balanced_clos)
    moreover have "balanced w1 w2"
      using link(3) balanced_trans [OF balanced_put] by (auto dest: wp_queued_balanced)
    ultimately have "balanced w (objdefr h w2)"
      unfolding objdefr_def by (blast intro: balanced_refr_defr balanced_trans)
    then show ?thesis using Cons.IH [OF link(4)] balanced_trans by blast
  qed
qed

end
