(* ===== verification/Ifaddr.thy ===== *)
theory Ifaddr
  imports World
begin

text \<open>
  mxx.c, the part that asks the host about its interfaces: the hardware address of an interface
  and the list of the IPv4 addresses. The list that getifaddrs(3) allocates is an argument, the
  hardware address an interface has a field of its entry; a pointer of an entry that may be null
  is an \<open>option\<close>, and following a null one has no defined continuation.
\<close>

abbreviation (input) AF_INET :: int where "AF_INET \<equiv> 2"

record sockaddr =
  sa_family :: int
  sa_addr :: u32

record ifaddrs =
  ifa_name :: "byte list"
  ifa_index :: int
  ifa_hwaddr :: "byte list"
  ifa_addr :: "sockaddr option"
  ifa_netmask :: "sockaddr option"
  ifu_broadaddr :: "sockaddr option"

text \<open>\<open>getifaddrs\<close> allocates the list as one block, \<open>freeifaddrs\<close> gives it back.\<close>

definition getifaddrs :: "world \<Rightarrow> int \<times> world" where
  "getifaddrs w = (let (r, w) = simple_call SYS_getifaddrs w
     in if r < 0 then (r, w) else (0, w\<lparr>heap := heap w + 1\<rparr>))"

definition freeifaddrs :: "world \<Rightarrow> world" where
  "freeifaddrs w = free w"

text \<open>The caller's six bytes are replaced where the interface answers, and kept otherwise; a
  descriptor \<open>0\<close> is neither used nor closed.\<close>

definition nis_getifmac :: "ifaddrs \<Rightarrow> byte list \<Rightarrow> world \<Rightarrow> (int \<times> byte list \<times> world) option" where
  "nis_getifmac ifa phyaddr w = do {
     (fd, w) \<leftarrow> newfd_call w;
     let (phyaddr, w) =
       (if fd > 0 then
          let (r, w) = simple_call SYS_ioctl w
          in (if r \<ge> 0 then take 6 (ifa_hwaddr ifa) else phyaddr, emit (Close fd) w)
        else (phyaddr, w));
     Some (posix__makeerror (env w) (errno w), phyaddr, w)
   }"

section \<open>The list of addresses\<close>

text \<open>\<open>ifmisc_t\<close> is declared outside the repository: the size of the structure and of its name field
  are arguments.\<close>

record ifmisc =
  if_name :: "byte list"
  if_addr :: u32
  if_netmask :: u32
  if_boardcast :: u32

fun count_inet :: "ifaddrs list \<Rightarrow> int option" where
  "count_inet [] = Some 0"
| "count_inet (ifa # ifs) = do {
     a \<leftarrow> ifa_addr ifa;
     k \<leftarrow> count_inet ifs;
     Some (if sa_family a = AF_INET then k + 1 else k)
   }"

text \<open>\<open>strncpy\<close> of at most \<open>n - 1\<close> bytes, padded with zeros; the last byte of the field stays.\<close>

definition strncpy_name :: "nat \<Rightarrow> byte list \<Rightarrow> byte list \<Rightarrow> byte list" where
  "strncpy_name n name old = take (n - 1) (name @ replicate n 0) @ drop (n - 1) old"

fun fill_ifmisc :: "nat \<Rightarrow> ifaddrs list \<Rightarrow> nat \<Rightarrow> ifmisc list \<Rightarrow> ifmisc list option" where
  "fill_ifmisc len [] i ifv = Some ifv"
| "fill_ifmisc len (ifa # ifs) i ifv = do {
     a \<leftarrow> ifa_addr ifa;
     (if sa_family a = AF_INET then do {
        m \<leftarrow> ifa_netmask ifa;
        b \<leftarrow> ifu_broadaddr ifa;
        (if i < length ifv then
           fill_ifmisc len ifs (i + 1) (ifv[i := \<lparr>
             if_name = strncpy_name len (ifa_name ifa) (if_name (ifv ! i)),
             if_addr = sa_addr a, if_netmask = sa_addr m, if_boardcast = sa_addr b\<rparr>])
         else None)
      }
      else fill_ifmisc len ifs i ifv)
   }"

text \<open>The answer is the status, the caller's array and the caller's size.\<close>

definition nis_getifmisc :: "nat \<Rightarrow> int \<Rightarrow> ifaddrs list \<Rightarrow> ifmisc list option \<Rightarrow> int option \<Rightarrow> world
    \<Rightarrow> (int \<times> ifmisc list option \<times> int option \<times> world) option" where
  "nis_getifmisc len sizeof_ifmisc ifs ifv cbifv w = (case cbifv of
       None \<Rightarrow> Some (- EINVAL, ifv, cbifv, w)
     | Some cb \<Rightarrow>
         if cb > 0 \<and> ifv = None then Some (- EINVAL, ifv, cbifv, w) else
         let (r, w) = getifaddrs w in
         if r < 0 then Some (posix__makeerror (env w) (errno w), ifv, cbifv, w) else do {
           count \<leftarrow> count_inet ifs;
           let cbacquire = count * sizeof_ifmisc;
           (if cb < cbacquire then Some (- EAGAIN, ifv, Some cbacquire, w)
            else do {
              a \<leftarrow> fill_ifmisc len ifs 0 (case ifv of None \<Rightarrow> [] | Some a \<Rightarrow> a);
              Some (0, if ifv = None then None else Some a, cbifv, freeifaddrs w)
            })
         })"

section \<open>Facts\<close>

text \<open>What a sufficient buffer holds afterwards: one entry for each IPv4 address, in order, and the
  rest of the buffer as it was.\<close>

definition inet_ifs :: "ifaddrs list \<Rightarrow> ifaddrs list" where
  "inet_ifs ifs = filter (\<lambda>i. case ifa_addr i of None \<Rightarrow> False | Some a \<Rightarrow> sa_family a = AF_INET) ifs"

definition ifs_ok :: "ifaddrs list \<Rightarrow> bool" where
  "ifs_ok ifs \<longleftrightarrow> list_all (\<lambda>i. ifa_addr i \<noteq> None) ifs
     \<and> list_all (\<lambda>i. ifa_netmask i \<noteq> None \<and> ifu_broadaddr i \<noteq> None) (inet_ifs ifs)"

definition ifmisc_of :: "nat \<Rightarrow> ifaddrs \<Rightarrow> ifmisc \<Rightarrow> ifmisc" where
  "ifmisc_of len i old = \<lparr>if_name = strncpy_name len (ifa_name i) (if_name old),
     if_addr = sa_addr (the (ifa_addr i)), if_netmask = sa_addr (the (ifa_netmask i)),
     if_boardcast = sa_addr (the (ifu_broadaddr i))\<rparr>"

lemma ifs_ok_simps [simp]:
  "ifs_ok []"
  "ifs_ok (i # is) \<longleftrightarrow> (\<exists>a. ifa_addr i = Some a \<and>
     (sa_family a = AF_INET \<longrightarrow> ifa_netmask i \<noteq> None \<and> ifu_broadaddr i \<noteq> None)) \<and> ifs_ok is"
  by (auto simp: ifs_ok_def inet_ifs_def split: option.splits)

lemma count_inet_eq: "ifs_ok ifs \<Longrightarrow> count_inet ifs = Some (int (length (inet_ifs ifs)))"
  by (induction ifs) (auto simp: inet_ifs_def)

lemma fill_ifmisc_eq:
  "ifs_ok ifs \<Longrightarrow> i + length (inet_ifs ifs) \<le> length ifv \<Longrightarrow>
     fill_ifmisc len ifs i ifv = Some (take i ifv
       @ map2 (ifmisc_of len) (inet_ifs ifs) (drop i ifv) @ drop (i + length (inet_ifs ifs)) ifv)"
proof (induction ifs arbitrary: i ifv)
  case Nil
  then show ?case by (simp add: inet_ifs_def)
next
  case (Cons x xs)
  from Cons.prems obtain a where a: "ifa_addr x = Some a" and ok: "ifs_ok xs"
    and mb: "sa_family a = AF_INET \<longrightarrow> ifa_netmask x \<noteq> None \<and> ifu_broadaddr x \<noteq> None" by auto
  show ?case
  proof (cases "sa_family a = AF_INET")
    case False
    then show ?thesis using Cons a ok by (simp add: inet_ifs_def)
  next
    case True
    with mb obtain m b where m: "ifa_netmask x = Some m" "ifu_broadaddr x = Some b" by auto
    have e: "inet_ifs (x # xs) = x # inet_ifs xs" using a True by (simp add: inet_ifs_def)
    have i: "i < length ifv" using Cons.prems(2) e by simp
    let ?ifv = "ifv[i := ifmisc_of len x (ifv ! i)]"
    have "fill_ifmisc len (x # xs) i ifv = fill_ifmisc len xs (i + 1) ?ifv"
      using a m True i by (simp add: ifmisc_of_def)
    also have "\<dots> = Some (take (i + 1) ?ifv @ map2 (ifmisc_of len) (inet_ifs xs) (drop (i + 1) ?ifv)
        @ drop (i + 1 + length (inet_ifs xs)) ?ifv)"
      by (rule Cons.IH) (use Cons.prems(2) ok e in auto)
    also have "\<dots> = Some (take i ifv @ map2 (ifmisc_of len) (x # inet_ifs xs) (drop i ifv)
        @ drop (i + length (x # inet_ifs xs)) ifv)"
      using i by (simp add: take_Suc_conv_app_nth Cons_nth_drop_Suc [symmetric])
    finally show ?thesis by (simp only: e)
  qed
qed

end
