(* ===== verification/Arp.thy ===== *)
theory Arp
  imports Arpio Tcp Ifaddr
begin

text \<open>
  arp.c: the operations of the user on an ARP link, a raw socket bound to the interface that has
  the source address. The table of the host's interfaces is an argument.
\<close>

abbreviation (input) PF_PACKET :: int where "PF_PACKET \<equiv> 17"

section \<open>Binding to an interface\<close>

text \<open>The loop stops at the first entry whose address has the four bytes of the source, whatever its
  family; an entry without an address is dereferenced all the same.\<close>

fun find_source :: "u32 \<Rightarrow> ifaddrs list \<Rightarrow> ifaddrs option option" where
  "find_source src_ip [] = Some None"
| "find_source src_ip (ifa # ifs) = do {
     a \<leftarrow> ifa_addr ifa;
     (if sa_addr a = src_ip then Some (Some ifa) else find_source src_ip ifs)
   }"

definition arp_bindsource :: "string \<Rightarrow> ifaddrs list \<Rightarrow> ncb \<Rightarrow> world \<Rightarrow> (int \<times> ncb \<times> world) option" where
  "arp_bindsource source ifs n w =
     (let src_ip = inet_addr (env w) source;
          (r, w) = getifaddrs w
      in if r < 0 then Some (posix__makeerror (env w) (errno w), n, w) else do {
        ifsrc \<leftarrow> find_source src_ip ifs;
        (case ifsrc of
           None \<Rightarrow> Some (- ENOENT, n, w)
         | Some ifa \<Rightarrow>
             let n = n\<lparr>arp_source := src_ip, arp_ifindex := ifa_index ifa\<rparr> in do {
               (_, mac, w) \<leftarrow> nis_getifmac ifa (arp_source_phyaddr n) w;
               Some (0, n\<lparr>arp_source_phyaddr := mac\<rparr>, w)
             })
      })"

section \<open>Creation and destruction\<close>

definition arp_create_body :: "string \<Rightarrow> ifaddrs list \<Rightarrow> ncb \<Rightarrow> world \<Rightarrow> (int \<times> ncb \<times> world) option" where
  "arp_create_body source ifs n w =
     (let (_, w) = setsockopt (sockfd n) IP_HDRINCL [1] w in do {
        (r, n, w) \<leftarrow> arp_bindsource source ifs n w;
        (if r < 0 then Some (-1, n, w) else
         let (pk, w) = malloc NIS_P_ARP_SIZE w;
             n = n\<lparr>packet := pk\<rparr>
         in if pk = None then Some (-1, n, w) else
         let n = n\<lparr>ncb_read := Some R_arp_rx, ncb_write := Some W_arp_tx\<rparr> in do {
           (r, n, w) \<leftarrow> io_attach n EPOLLIN w;
           Some (if r < 0 then -1 else 0, n, w)
         })
      })"

definition arp_create :: "nat option \<Rightarrow> string \<Rightarrow> ifaddrs list \<Rightarrow> world \<Rightarrow> (objhld \<times> world) option" where
  "arp_create callback source ifs w = do {
     (fd, w) \<leftarrow> newfd_call w;
     (if fd < 0 then Some (-1, w) else do {
        (h, w) \<leftarrow> objallo_ncb w;
        (if h < 0 then Some (-1, emit (Close fd) w)
         else let (p, w) = objrefr h w in do {
           n \<leftarrow> p;
           let n = n\<lparr>nis_callback := callback, sockfd := fd, hld := h, protocol := ETH_P_ARP\<rparr>;
           (r, n, w) \<leftarrow> arp_create_body source ifs n w;
           let w = objdefr h (put_ncb h n w);
           Some (if r < 0 then (-1, objclos h w) else (h, w))
         })
      })
   }"

definition arp_destroy :: "objhld \<Rightarrow> world \<Rightarrow> world" where
  "arp_destroy link w = (case objreff link w of
       (None, w) \<Rightarrow> w
     | (Some n, w) \<Rightarrow> (let (n, w) = io_close n w in objdefr link (put_ncb link n w)))"

section \<open>Requests\<close>

definition BOARDCAST_PHYADDR :: "byte list" where
  "BOARDCAST_PHYADDR = replicate 6 0xFF"

definition request_eth :: "ncb \<Rightarrow> Ethernet_Head" where
  "request_eth n = \<lparr>Eth_Dest_Mac = BOARDCAST_PHYADDR, Eth_Srce_Mac = arp_source_phyaddr n,
     Eth_Layer_Type = htons ETHERTYPE_ARP\<rparr>"

definition request_arp :: "ncb \<Rightarrow> u32 \<Rightarrow> Address_Resolution_Protocol" where
  "request_arp n target = \<lparr>Arp_Hardware_Type = htons 1, Arp_Protocol_Type = htons 0x0800,
     Arp_Hardware_Size = 6, Arp_Protocol_Size = 4, Arp_Op_Code = htons ARP_OP_REQ,
     Arp_Sender_Mac = arp_source_phyaddr n, Arp_Sender_Ip = arp_source n,
     Arp_Target_Mac = BOARDCAST_PHYADDR, Arp_Target_Ip = target\<rparr>"

text \<open>The two heads are written into the fresh buffer; the padding behind them is not.\<close>

definition arp_nrequest_body :: "u32 \<Rightarrow> ncb \<Rightarrow> world \<Rightarrow> (int \<times> ncb \<times> world) option" where
  "arp_nrequest_body target n w = (case malloc NIS_P_ARP_SIZE w of
       (None, w) \<Rightarrow> Some (- ENOMEM, n, w)
     | (Some b, w) \<Rightarrow> do {
         b \<leftarrow> buf_put b 0 (eth_bytes (request_eth n));
         b \<leftarrow> buf_put b 14 (arp_bytes (request_arp n target));
         (case malloc sizeof_tx_node w of
            (None, w) \<Rightarrow> Some (- ENOMEM, n, free w)
          | (Some _, w) \<Rightarrow> write_node arp_txn n
              (tx_node_zero\<lparr>data := b, wcb := NIS_P_ARP_SIZE, offset := 0,
                 arp_target := \<lparr>sll_family = PF_PACKET, sll_ifindex = arp_ifindex n\<rparr>\<rparr>) w)
       })"

definition arp_nrequest :: "objhld \<Rightarrow> u32 \<Rightarrow> world \<Rightarrow> (int \<times> world) option" where
  "arp_nrequest link target w = with_link i_arprefr id (arp_nrequest_body target) link w"

definition arp_request :: "objhld \<Rightarrow> string \<Rightarrow> world \<Rightarrow> (int \<times> world) option" where
  "arp_request link target w = arp_nrequest link (inet_addr (env w) target) w"

end
