(* ===== verification/Udp.thy ===== *)
theory Udp
  imports Udpio Tcp
begin

text \<open>
  udp.c: the operations of the user on a UDP link. They follow the pattern of tcp.c: a reference
  through \<open>__udprefr\<close>, the body, the reference given back.
\<close>

section \<open>Creation and destruction\<close>

abbreviation (input) SO_SNDBUF :: int where "SO_SNDBUF \<equiv> 7"
abbreviation (input) SO_RCVBUF :: int where "SO_RCVBUF \<equiv> 8"

definition udp_update_opts :: "ncb \<Rightarrow> world \<Rightarrow> world" where
  "udp_update_opts n w =
     (let w = snd (ncb_set_window_size n SO_RCVBUF 0xFFFF w);
          w = snd (ncb_set_window_size n SO_SNDBUF 0xFFFF w)
      in snd (ncb_set_linger n 0 1 w))"

definition udp_set_boardcast :: "ncb \<Rightarrow> int \<Rightarrow> world \<Rightarrow> int \<times> world" where
  "udp_set_boardcast n enable w = setsockopt (sockfd n) SO_BROADCAST [enable] w"

definition udp_get_boardcast :: "ncb \<Rightarrow> int \<Rightarrow> world \<Rightarrow> int \<times> int \<times> world" where
  "udp_get_boardcast n old w = (let (r, v, w) = getsockopt (sockfd n) SO_BROADCAST w
     in (r, if r < 0 then old else opt1 old v, w))"

text \<open>The part of \<open>udp_create\<close> that works on the new block; a negative answer makes the caller close
  the object again.\<close>

definition udp_create_body :: "u32 \<Rightarrow> ncb \<Rightarrow> world \<Rightarrow> (int \<times> ncb \<times> world) option" where
  "udp_create_body flag n w =
     (let w = udp_update_opts n w;
          (pk, w) = malloc (MAX_UDP_UNIT (env w)) w;
          n = n\<lparr>packet := pk\<rparr>
      in if pk = None then Some (-1, n, w) else
      let broadcast = (flag AND UDP_FLAG_BROADCAST (env w) \<noteq> 0);
          (r, w) = (if broadcast then udp_set_boardcast n 1 w else (0, w))
      in if r < 0 then Some (-1, n, w) else
      let n = (if broadcast then n\<lparr>attr := attr n OR UDP_FLAG_BROADCAST (env w)\<rparr>
               else if flag AND UDP_FLAG_MULTICAST (env w) \<noteq> 0
               then n\<lparr>attr := attr n OR UDP_FLAG_MULTICAST (env w)\<rparr> else n);
          (la, w) = getname (local_addr n) w;
          n = n\<lparr>local_addr := la, ncb_read := Some R_udp_rx, ncb_write := Some W_udp_tx\<rparr>
      in do {
        (r, n, w) \<leftarrow> io_attach n EPOLLIN w;
        Some (if r < 0 then -1 else 0, n, w)
      })"

definition udp_create :: "nat option \<Rightarrow> string option \<Rightarrow> u16 \<Rightarrow> u32 \<Rightarrow> world \<Rightarrow> (objhld \<times> world) option" where
  "udp_create callback ipstr port flag w = do {
     (fd, w) \<leftarrow> newfd_call w;
     (if fd < 0 then Some (-1, w) else
      let (_, w) = setsockopt fd SO_REUSEADDR [1] w;
          addrlocal = \<lparr>sin_addr = (case ipstr of None \<Rightarrow> 0 | Some s \<Rightarrow> inet_addr (env w) s),
                       sin_port = htons port\<rparr>;
          (r, w) = bind_call fd addrlocal w
      in if r < 0 then Some (-1, emit (Close fd) w) else do {
        (h, w) \<leftarrow> objallo_ncb w;
        (if h < 0 then Some (-1, emit (Close fd) w)
         else let (p, w) = objrefr h w in do {
           n \<leftarrow> p;
           let n = n\<lparr>nis_callback := callback, sockfd := fd, hld := h, protocol := IPPROTO_UDP\<rparr>;
           (r, n, w) \<leftarrow> udp_create_body flag n w;
           let w = objdefr h (put_ncb h n w);
           Some (if r < 0 then (-1, objclos h w) else (h, w))
         })
      })
   }"

definition udp_destroy :: "objhld \<Rightarrow> world \<Rightarrow> world" where
  "udp_destroy link w = (case objreff link w of
       (None, w) \<Rightarrow> w
     | (Some n, w) \<Rightarrow> (let (n, w) = io_close n w in objdefr link (put_ncb link n w)))"

section \<open>Writing\<close>

definition udp_awaken :: "objhld \<Rightarrow> byte list \<Rightarrow> int \<Rightarrow> world \<Rightarrow> (int \<times> world) option" where
  "udp_awaken link pipedata cb w = (if link < 0 then Some (- EINVAL, w) else
     with_link i_udprefr id
       (\<lambda>n w. do { (r, w) \<leftarrow> pipe_write_message n pipedata cb w; Some (r, n, w) }) link w)"

definition udp_write_body :: "byte list \<Rightarrow> int \<Rightarrow> string \<Rightarrow> u16 \<Rightarrow> nis_serializer option \<Rightarrow> ncb \<Rightarrow> world
    \<Rightarrow> (int \<times> ncb \<times> world) option" where
  "udp_write_body origin cb ip port serializer n w = (case malloc cb w of
       (None, w) \<Rightarrow> Some (- ENOMEM, n, w)
     | (Some buffer, w) \<Rightarrow> do {
         (r, buffer) \<leftarrow> fill_payload serializer origin cb buffer 0;
         (if r < 0 then Some (-1, n, free w) else
          (case malloc sizeof_tx_node w of
             (None, w) \<Rightarrow> Some (- ENOMEM, n, free w)
           | (Some _, w) \<Rightarrow> write_node udp_txn n
               (tx_node_zero\<lparr>data := buffer, wcb := cb, offset := 0,
                  udp_target := \<lparr>sin_addr = inet_addr (env w) ip, sin_port = htons port\<rparr>\<rparr>) w))
       })"

definition udp_write :: "objhld \<Rightarrow> byte list option \<Rightarrow> int \<Rightarrow> string option \<Rightarrow> u16
    \<Rightarrow> nis_serializer option \<Rightarrow> world \<Rightarrow> (int \<times> world) option" where
  "udp_write link p cb ipstr port serializer w = (case (ipstr, p) of
       (Some ip, Some origin) \<Rightarrow>
         if port = 0 \<or> cb \<le> 0 \<or> link < 0 \<or> cb > MAX_UDP_UNIT (env w) then Some (- EINVAL, w)
         else with_link i_udprefr id (udp_write_body origin cb ip port serializer) link w
     | _ \<Rightarrow> Some (- EINVAL, w))"

section \<open>Addresses, options, attributes\<close>

definition udp_getaddr :: "objhld \<Rightarrow> u32 option \<Rightarrow> u16 option \<Rightarrow> world
    \<Rightarrow> ((int \<times> u32 option \<times> u16 option) \<times> world) option" where
  "udp_getaddr link ipv4 port w = with_link i_udprefr (\<lambda>r. (r, ipv4, port)) (\<lambda>n w.
     Some ((0, map_option (\<lambda>_. htonl (sin_addr (local_addr n))) ipv4,
               map_option (\<lambda>_. htons (sin_port (local_addr n))) port), n, w)) link w"

definition udp_setopt :: "objhld \<Rightarrow> int \<Rightarrow> int \<Rightarrow> int list \<Rightarrow> world \<Rightarrow> (int \<times> world) option" where
  "udp_setopt link level opt val w = with_link i_udprefr id
     (\<lambda>n w. let (r, w) = setsockopt (sockfd n) (OPT level opt) val w in Some (r, n, w)) link w"

definition udp_getopt :: "objhld \<Rightarrow> int \<Rightarrow> int \<Rightarrow> int list \<Rightarrow> world
    \<Rightarrow> ((int \<times> int list) \<times> world) option" where
  "udp_getopt link level opt old w = with_link i_udprefr (\<lambda>r. (r, old))
     (\<lambda>n w. let (r, v, w) = getsockopt (sockfd n) (OPT level opt) w
            in Some ((r, if r < 0 then old else v), n, w)) link w"

text \<open>\<open>udp_setattr_r\<close> stores the flags and makes the socket follow the broadcast flag.\<close>

definition udp_setattr_r :: "ncb \<Rightarrow> u32 \<Rightarrow> world \<Rightarrow> int \<times> ncb \<times> world" where
  "udp_setattr_r n a w =
     (let n = n\<lparr>attr := a\<rparr>;
          (r, w) = (if attr n AND LINKATTR_UDP_BAORDCAST (env w) \<noteq> 0
                    then udp_set_boardcast n 1 w else udp_set_boardcast n 0 w)
      in (r, n, w))"

definition udp_getattr_r :: "ncb \<Rightarrow> u32 \<Rightarrow> u32 \<times> u32" where
  "udp_getattr_r n old = (old, attr n)"

section \<open>Multicast groups\<close>

definition mreq_bytes :: "ip_mreq \<Rightarrow> int list" where
  "mreq_bytes m = [uint (imr_multiaddr m), uint (imr_interface m)]"

text \<open>The size of \<open>struct ip_mreq\<close>.\<close>

definition sizeof_ip_mreq :: int where
  "sizeof_ip_mreq = 8"

definition udp_joingrp_body :: "string \<Rightarrow> ncb \<Rightarrow> world \<Rightarrow> (int \<times> ncb \<times> world) option" where
  "udp_joingrp_body ip n w =
     (if attr n AND UDP_FLAG_MULTICAST (env w) = 0 then Some (-1, n, w) else
      let (retval, w) = setsockopt (sockfd n) IP_MULTICAST_LOOP [1] w in
      if retval < 0 then Some (retval, n, w) else
      let (ready, w) = (if mreq n \<noteq> None then (True, w)
                        else let (p, w) = malloc sizeof_ip_mreq w in (p \<noteq> None, w)) in
      if \<not> ready then Some (retval, n, w) else
      let m = \<lparr>imr_multiaddr = inet_addr (env w) ip, imr_interface = sin_addr (local_addr n)\<rparr>;
          (retval, w) = setsockopt (sockfd n) IP_ADD_MEMBERSHIP (mreq_bytes m) w
      in Some (retval, n\<lparr>mreq := Some m\<rparr>, w))"

definition udp_joingrp :: "objhld \<Rightarrow> string option \<Rightarrow> u16 \<Rightarrow> world \<Rightarrow> (int \<times> world) option" where
  "udp_joingrp link ipstr port w = (case ipstr of None \<Rightarrow> Some (- EINVAL, w)
     | Some ip \<Rightarrow> if link < 0 \<or> port = 0 then Some (- EINVAL, w)
         else with_link i_udprefr id (udp_joingrp_body ip) link w)"

definition udp_dropgrp :: "objhld \<Rightarrow> world \<Rightarrow> (int \<times> world) option" where
  "udp_dropgrp link w = with_link i_udprefr id (\<lambda>n w.
     case mreq n of None \<Rightarrow> Some (-1, n, w) | Some m \<Rightarrow>
       if attr n AND UDP_FLAG_MULTICAST (env w) = 0 then Some (-1, n, w) else
       let (retval, w) = setsockopt (sockfd n) IP_MULTICAST_LOOP [0] w in
       if retval < 0 then Some (retval, n, w) else
       let (retval, w) = setsockopt (sockfd n) IP_DROP_MEMBERSHIP (mreq_bytes m) w
       in Some (retval, n, w)) link w"

end
