(* ===== verification/Mxx.thy ===== *)
theory Mxx
  imports Udp Ifaddr
begin

text \<open>
  mxx.c: the control call \<open>nis_cntl\<close> that works on a link of any protocol, the error callback, the
  version and the lookup of host names.
\<close>

section \<open>nis_cntl\<close>

text \<open>The commands with their variadic argument; a pointer to receive the answer is part of the
  command. The context pointers are the ones of the user.\<close>

datatype ni_cmd =
    NI_SETATTR u32
  | NI_GETATTR
  | NI_SETCTX "nat option"
  | NI_GETCTX
  | NI_SETTST "tst option"
  | NI_GETTST "tst option"
  | NI_OTHER int

text \<open>What the call hands back beside its status.\<close>

datatype ni_answer = NoAnswer | Context "nat option" | Template "tst option"

text \<open>\<open>stack\<close> is what the local variable \<open>context\<close> holds before it is set: \<open>NI_GETCTX\<close> keeps it as
  the previous context. The reference is held while \<open>tcp_settst_r\<close> and \<open>tcp_gettst_r\<close> take their own. The attribute that
  \<open>NI_GETATTR\<close> reads is returned through \<open>retval\<close>; an unknown command leaves with the reference.\<close>

definition nis_cntl :: "nat option \<Rightarrow> objhld \<Rightarrow> ni_cmd \<Rightarrow> world \<Rightarrow> ((int \<times> ni_answer) \<times> world) option" where
  "nis_cntl stack link cmd w = (case objrefr link w of
       (None, w) \<Rightarrow> Some ((- ENOENT, NoAnswer), w)
     | (Some n, w) \<Rightarrow>
        (case cmd of
           NI_SETATTR a \<Rightarrow>
             (let (n, w) = (if protocol n = IPPROTO_TCP then (tcp_setattr_r n a, w)
                            else if protocol n = IPPROTO_UDP
                            then (let (_, n, w) = udp_setattr_r n a w in (n, w))
                            else (n, w))
              in Some ((0, NoAnswer), objdefr link (put_ncb link n w)))
         | NI_GETATTR \<Rightarrow>
             (let retval = (if protocol n = IPPROTO_TCP then snd (tcp_getattr_r n 0)
                            else if protocol n = IPPROTO_UDP then snd (udp_getattr_r n 0)
                            else 0)
              in Some ((sint retval, NoAnswer), objdefr link w))
         | NI_SETCTX c \<Rightarrow>
             Some ((0, NoAnswer), objdefr link (put_ncb link
               (n\<lparr>user_context := c, prcontext := user_context n\<rparr>) w))
         | NI_GETCTX \<Rightarrow>
             (let context = user_context n
              in Some ((0, Context context), objdefr link (put_ncb link (n\<lparr>prcontext := stack\<rparr>) w)))
         | NI_SETTST t \<Rightarrow> do {
             (r, w) \<leftarrow> tcp_settst_r link t w;
             Some ((r, NoAnswer), objdefr link w)
           }
         | NI_GETTST t \<Rightarrow> do {
             ((r, t, _), w) \<leftarrow> tcp_gettst_r link t None w;
             Some ((r, Template t), objdefr link w)
           }
         | NI_OTHER _ \<Rightarrow> Some ((- EINVAL, NoAnswer), w)))"

section \<open>The error callback\<close>

text \<open>A callback is a number of the user. A null argument clears the cell and answers null.\<close>

definition nis_checr :: "nat option \<Rightarrow> nat option \<Rightarrow> nat option \<times> nat option" where
  "nis_checr current ecr = (case ecr of None \<Rightarrow> (None, None) | Some f \<Rightarrow> (current, Some f))"

text \<open>\<open>formatted\<close> is the whole text the format expands to. \<open>vsnprintf\<close> writes at most \<open>LOGSTR - 2\<close> of its
  bytes and a zero, and answers its whole length; the zero that the code writes at that index is
  outside the array when the text does not fit. The answer is the call of the callback, if any.\<close>

definition LOGSTR :: int where
  "LOGSTR = 1280"

definition nis_call_ecr :: "nat option \<Rightarrow> byte list \<Rightarrow> (nat \<times> byte list) option option" where
  "nis_call_ecr current formatted = (case current of
       None \<Rightarrow> Some None
     | Some f \<Rightarrow>
         let retval = int (length formatted);
             logstr = take (nat (LOGSTR - 2)) formatted @ [0]
         in if retval \<le> 0 then Some None
            else if retval \<ge> LOGSTR then None
            else Some (Some (f, takeWhile (\<lambda>b. b \<noteq> 0) logstr)))"

section \<open>Version and host names\<close>

definition nis_getver :: "bool \<Rightarrow> int \<times> (int \<times> int \<times> int) option" where
  "nis_getver given = (if \<not> given then (-1, None) else (0, Some (9, 7, 6)))"

text \<open>\<open>gethostname\<close> answers a status and what the buffer holds then; the caller gets his buffer back either
  way.\<close>

definition nis_lgethost :: "(byte list \<Rightarrow> int \<Rightarrow> int \<times> byte list) \<Rightarrow> byte list option \<Rightarrow> int \<Rightarrow> byte list option" where
  "nis_lgethost gethostname name cb = (case name of None \<Rightarrow> None | Some b \<Rightarrow>
     if cb > 0 then (let (r, b) = gethostname b cb in if r = 0 then Some b else Some b) else Some b)"

text \<open>The resolver of the host is a group of arguments. A \<open>hostent\<close> has an address type, a length and a
  list of addresses that may be null; its first element is read without a check.\<close>

record hostent =
  h_addrtype :: int
  h_length :: int
  h_addr_list :: "u32 list option"

definition isalpha :: "byte \<Rightarrow> bool" where
  "isalpha c \<longleftrightarrow> (65 \<le> c \<and> c \<le> 90) \<or> (97 \<le> c \<and> c \<le> 122)"

text \<open>\<open>name\<close> is the bytes of the string before its zero. The answer is the status and what \<open>*ipv4\<close> holds;
  \<open>h_length\<close> is converted to an unsigned value for the comparison.\<close>

definition nis_gethost :: "(byte list \<Rightarrow> hostent option) \<Rightarrow> (byte list \<Rightarrow> u32 option)
    \<Rightarrow> (u32 \<Rightarrow> hostent option) \<Rightarrow> byte list option \<Rightarrow> u32 option \<Rightarrow> (int \<times> u32 option) option" where
  "nis_gethost byname aton byaddr name ipv4 = (case (name, ipv4) of
       (Some nm, Some _) \<Rightarrow>
         (let first = (case nm of [] \<Rightarrow> 0 | c # _ \<Rightarrow> c);
              remote = (if isalpha first then byname nm
                        else case aton nm of None \<Rightarrow> None | Some a \<Rightarrow> byaddr a)
          in case remote of None \<Rightarrow> Some (-1, Some 0)
             | Some r \<Rightarrow>
                if h_addrtype r \<noteq> AF_INET then Some (- EPROTONOSUPPORT, Some 0) else
                (case h_addr_list r of
                   None \<Rightarrow> Some (- ENOENT, Some 0)
                 | Some as \<Rightarrow>
                    if h_length r mod 2 ^ 64 < 4 then Some (-1, Some 0)
                    else (case as of [] \<Rightarrow> None | a # _ \<Rightarrow> Some (0, Some (htonl a)))))
     | _ \<Rightarrow> Some (- EINVAL, ipv4))"

end
