(* ===== verification/Echo.thy ===== *)
theory Echo
  imports Iorun
begin

text \<open>
  echo/: the sample program, a TCP echo server or client on top of the library. The answers of
  getopt_long(3), the numbers strtoul(3) reads, the text of an address and the result of writing
  to the terminal are arguments. What is printed is part of a result.
\<close>

section \<open>Arguments\<close>

record startup_parameters =
  sess_type :: char
  host :: string
  port :: u16

definition startup_default :: startup_parameters where
  "startup_default = \<lparr>sess_type = CHR ''s'', host = ''0.0.0.0'', port = 10256\<rparr>"

text \<open>The two texts the program prints about itself.\<close>

abbreviation newline :: char where "newline \<equiv> CHR 0x0A"
abbreviation tab :: char where "tab \<equiv> CHR 0x09"

definition display_usage :: string where
  "display_usage = ''usage: nshost.echo [-s|-c host] [options]'' @ [tab] @ ''nshost.echo {-v|--version|-h|--help}'' @ [newline, tab]
     @ ''-p, --port'' @ [tab] @ ''change TCP port, effective either client or server, 10256 by default'' @ [newline]"

definition display_author_information :: string where
  "display_author_information = ''nshost.echo 1,1,0,0'' @ [newline] @ ''Copyright (C) 2017 Jerry.Anderson'' @ [newline]
     @ ''For bug reporting instructions, please see:'' @ [newline] @ ''<http://www.nsplibrary.com.cn/>.'' @ [newline]
     @ ''For help, type '' @ [CHR 0x22] @ ''help'' @ [CHR 0x22, CHR ''.'', newline]"

text \<open>An answer of \<open>getopt_long\<close> is the option and its argument; the list ends where it answers \<open>-1\<close>.
  The host name is copied into 128 bytes without a check. The result is the status, the parameters
  and what was printed; an unknown option runs through two cases of the switch into the default.\<close>

definition HOST_SIZE :: nat where
  "HOST_SIZE = 128"

fun scan_args :: "(string \<Rightarrow> u16) \<Rightarrow> (char \<times> string option) list \<Rightarrow> startup_parameters
    \<Rightarrow> (int \<times> startup_parameters \<times> string) option" where
  "scan_args strtoul [] s = Some (0, s, [])"
| "scan_args strtoul ((opt, optarg) # rest) s =
     (if opt = CHR ''s'' \<or> opt = CHR ''c'' then
        (case optarg of
           None \<Rightarrow> scan_args strtoul rest (s\<lparr>sess_type := opt\<rparr>)
         | Some a \<Rightarrow> if length a < HOST_SIZE
                     then scan_args strtoul rest (s\<lparr>host := a, sess_type := opt\<rparr>) else None)
      else if opt = CHR ''v'' then Some (-1, s, display_author_information)
      else if opt = CHR ''h'' then Some (-1, s, display_usage)
      else if opt = CHR ''p'' then
        (case optarg of None \<Rightarrow> None | Some a \<Rightarrow> scan_args strtoul rest (s\<lparr>port := strtoul a\<rparr>))
      else if opt = CHR ''?'' then Some (-1, s, [CHR ''?'', newline] @ [CHR ''0'', newline] @ display_usage)
      else if opt = CHR 0x00 then Some (-1, s, [CHR ''0'', newline] @ display_usage)
      else Some (-1, s, display_usage))"

text \<open>A client needs a host. (\<open>strcasecmp\<close> with a text that has no letters is equality.)\<close>

definition check_args :: "(string \<Rightarrow> u16) \<Rightarrow> (char \<times> string option) list
    \<Rightarrow> (int \<times> startup_parameters \<times> string) option" where
  "check_args strtoul opts = do {
     (r, s, out) \<leftarrow> scan_args strtoul opts startup_default;
     Some (if r < 0 then (r, s, out)
           else if sess_type s = CHR ''c'' \<and> host s = ''0.0.0.0'' then (-1, s, out @ display_usage) else (0, s, out))
   }"

text \<open>What the rest of the program reads of the parameters.\<close>

definition gettype :: "startup_parameters \<Rightarrow> int" where
  "gettype s = of_char (sess_type s)"

definition gethost :: "startup_parameters \<Rightarrow> string" where
  "gethost s = host s"

definition getport :: "startup_parameters \<Rightarrow> u16" where
  "getport s = port s"

section \<open>The callback of the server\<close>

text \<open>\<open>income\<close> is the text before the data; \<open>stack\<close> is what the local variables hold when the address
  cannot be read. The comparison is unsigned: a negative size does not pass. The result is the
  status and the texts written to the terminal.\<close>

definition display :: "(u32 \<Rightarrow> u16 \<Rightarrow> byte list) \<Rightarrow> (byte list \<Rightarrow> int) \<Rightarrow> u32 \<times> u16
    \<Rightarrow> objhld \<Rightarrow> byte list \<Rightarrow> int \<Rightarrow> world \<Rightarrow> (int \<times> byte list list \<times> world) option" where
  "display income file_write stack link dat sz w = do {
     ((_, ip, pt), w) \<leftarrow> tcp_getaddr link (LINK_ADDR_REMOTE (env w)) (Some (fst stack)) (Some (snd stack)) w;
     let output = income (the ip) (the pt);
     (if length output > 1024 then None
      else if sz < 1024 - int (length output) \<and> sz > 0 then do {
        bs \<leftarrow> buf_get dat 0 sz;
        Some (file_write (output @ bs), [output @ bs], w)
      }
      else Some (-1, [], w))
   }"

definition tcp_server_callback :: "(u32 \<Rightarrow> u16 \<Rightarrow> byte list) \<Rightarrow> (byte list \<Rightarrow> int) \<Rightarrow> u32 \<times> u16
    \<Rightarrow> nis_event \<Rightarrow> world \<Rightarrow> (byte list list \<times> world) option" where
  "tcp_server_callback income file_write stack event w = (case event of
       EVT_RECEIVEDATA link dat \<Rightarrow> do {
         (r, out, w) \<leftarrow> display income file_write stack link dat (int (length dat)) w;
         (if r > 0 then do {
            (r, w) \<leftarrow> tcp_write link (Some dat) (int (length dat)) None w;
            Some (out, if r \<le> 0 then tcp_destroy link w else w)
          }
          else Some (out, tcp_destroy link w))
       }
     | _ \<Rightarrow> Some ([], w))"

text \<open>The client shows what it receives, whatever comes of it, and prompts, as it does when it is connected.\<close>

definition prompt :: "byte list" where
  "prompt = map of_char ''input:$ ''"

definition tcp_client_callback :: "(u32 \<Rightarrow> u16 \<Rightarrow> byte list) \<Rightarrow> (byte list \<Rightarrow> int) \<Rightarrow> u32 \<times> u16
    \<Rightarrow> nis_event \<Rightarrow> world \<Rightarrow> (byte list list \<times> world) option" where
  "tcp_client_callback income file_write stack event w = (case event of
       EVT_RECEIVEDATA link dat \<Rightarrow> do {
         (_, out, w) \<leftarrow> display income file_write stack link dat (int (length dat)) w;
         Some (out @ [prompt], w)
       }
     | EVT_TCP_CONNECTED link \<Rightarrow> Some ([prompt], w)
     | _ \<Rightarrow> Some ([], w))"

text \<open>The error callback hands the text to the log of libnsp, under the name of the program.\<close>

definition nshost_ecr :: "string option \<Rightarrow> (string \<times> string) list" where
  "nshost_ecr host_event = (case host_event of None \<Rightarrow> [] | Some s \<Rightarrow> [(''echo'', s)])"

section \<open>Starting\<close>

text \<open>\<open>invalid\<close> is \<open>INVALID_HTCPLINK\<close>, of a header outside the repository. The server then waits for
  ever (\<open>posix__hang\<close>); its status is what it would return after that.\<close>

definition echo_server_startup :: "objhld \<Rightarrow> nat option \<Rightarrow> string \<Rightarrow> u16 \<Rightarrow> world \<Rightarrow> (int \<times> world) option" where
  "echo_server_startup invalid callback hst prt w = do {
     (server, w) \<leftarrow> tcp_create callback (Some hst) prt w;
     (if server = invalid then Some (1, w) else do {
        (_, w) \<leftarrow> tcp_listen server 100 w;
        Some (0, w)
      })
   }"

text \<open>The lines that are typed; a line is the bytes before its first zero.\<close>

fun send_lines :: "objhld \<Rightarrow> byte list list \<Rightarrow> world \<Rightarrow> world option" where
  "send_lines client [] w = Some w"
| "send_lines client (ln # rest) w =
     (let n = int (length ln) in
      if n > 0 then do {
        (r, w) \<leftarrow> tcp_write client (Some ln) n None w;
        (if r < 0 then Some w else send_lines client rest w)
      }
      else send_lines client rest w)"

definition echo_client_startup :: "objhld \<Rightarrow> nat option \<Rightarrow> string \<Rightarrow> u16 \<Rightarrow> byte list list
    \<Rightarrow> world \<Rightarrow> (int \<times> world) option" where
  "echo_client_startup invalid callback hst prt lns w = do {
     (client, w) \<leftarrow> tcp_create callback None 0 w;
     (if client = invalid then Some (1, w) else do {
        (r, w) \<leftarrow> tcp_connect2 client (Some hst) prt w;
        (if r < 0 then Some (1, w) else do {
           w \<leftarrow> send_lines client lns w;
           Some (1, w)
         })
      })
   }"

text \<open>The whole program, up to the point where the server hangs or the client's input ends. \<open>raw\<close> is the memory
  of a fresh pipe block, \<open>server_cb\<close> and \<open>client_cb\<close> are the two callbacks. The texts of \<open>check_args\<close> are
  in front of what the callbacks write; installing \<open>nshost_ecr\<close> is an option of the build and only
  moves log messages.\<close>

definition echo_main :: "(string \<Rightarrow> u16) \<Rightarrow> ncb \<Rightarrow> objhld \<Rightarrow> nat option \<Rightarrow> nat option \<Rightarrow> byte list list
    \<Rightarrow> (char \<times> string option) list \<Rightarrow> world \<Rightarrow> (int \<times> string \<times> world) option" where
  "echo_main strtoul raw invalid server_cb client_cb lns opts w = do {
     (r, s, out) \<leftarrow> check_args strtoul opts;
     (if r < 0 then Some (-1, out, w)
      else if gettype s < 0 then Some (1, out, w)
      else do {
        (_, w) \<leftarrow> tcp_init raw w;
        (r, w) \<leftarrow> (if gettype s = of_char (CHR ''s'') then echo_server_startup invalid server_cb (gethost s) (getport s) w
           else if gettype s = of_char (CHR ''c'') then echo_client_startup invalid client_cb (gethost s) (getport s) lns w
           else Some (0, w));
        Some (r, out, w)
      })
   }"

section \<open>What the arguments lead to\<close>

text \<open>The scan leaves one of the two types, and prints something exactly when the program does not start.\<close>

lemma display_texts: "display_usage \<noteq> []" "display_author_information \<noteq> []"
  by (simp_all add: display_usage_def display_author_information_def)

lemma scan_args_result:
  "scan_args strtoul opts s = Some (r, s', out) \<Longrightarrow> sess_type s \<in> {CHR ''s'', CHR ''c''} \<Longrightarrow>
     sess_type s' \<in> {CHR ''s'', CHR ''c''} \<and> (r = 0 \<and> out = [] \<or> r = -1 \<and> out \<noteq> [])"
  by (induction strtoul opts s rule: scan_args.induct) (auto simp: display_texts split: if_splits option.splits)

lemma check_args_result:
  assumes "check_args strtoul opts = Some (r, s, out)"
  shows "(r = -1 \<and> out \<noteq> []) \<or> (r = 0 \<and> out = []
    \<and> (gettype s = of_char (CHR ''s'') \<or> (gettype s = of_char (CHR ''c'') \<and> gethost s \<noteq> ''0.0.0.0'')))"
proof -
  obtain q s1 o1 where c: "scan_args strtoul opts startup_default = Some (q, s1, o1)"
    using assms by (auto simp: check_args_def split: Option.bind_splits)
  have "sess_type startup_default \<in> {CHR ''s'', CHR ''c''}" by (simp add: startup_default_def)
  from scan_args_result [OF c this] assms c show ?thesis
    by (auto simp: check_args_def gettype_def gethost_def display_texts split: if_splits)
qed

end
