(* ===== verification/Stream.thy ===== *)
theory Stream
  imports Balance Tcp_rx
begin

text \<open>
  The output of a TCP link as one stream: the bytes the kernel has taken followed by the bytes that
  wait. The user writes, the worker thread executes tasks and the epoll thread dispatches events,
  each in its own thread; \<open>link_step\<close> is their interleaving, one call at a time. The stream only
  ever grows at its end.
\<close>

section \<open>Sending keeps references\<close>

context sender
begin

lemma write_node_balanced:
  assumes w: "write_node txn n x w = Some (r, n', w')" and x: "node_ok x"
  shows "balanced w w'" "\<exists>f. n' = n\<lparr>fifo := f\<rparr>"
proof -
  obtain r1 x1 w1 where t: "(if fifo_is_blocking n = 0 then txn n x w else Some (- EAGAIN, x, w))
      = Some (r1, x1, w1)"
    using w by (auto simp: write_node_def split: Option.bind_splits)
  have b1: "balanced w w1"
    using t law [OF x, of n w] by (auto simp: txn_law_def balanced_def split: if_splits)
  obtain r2 n2 w2 where q: "fifo_queue n x1 w1 = (r2, n2, w2)" by (metis prod_cases3)
  then have "balanced w1 w2 \<and> (\<exists>f. n2 = n\<lparr>fifo := f\<rparr>)"
    by (cases rule: fifo_queueE) (auto dest!: ctl_stepD intro: balanced_trace exI [of _ "fifo n"])
  moreover have "balanced v (free (free v))" for v by (simp add: balanced_def free_def)
  moreover have "(n', w') = (n, free (free w1)) \<or> (n', w') = (n2, free (free w2)) \<or> (n', w') = (n2, w2)"
    using w t q by (auto simp: write_node_def split: if_splits)
  ultimately show "balanced w w'" "\<exists>f. n' = n\<lparr>fifo := f\<rparr>"
    using b1 balanced_trans by (blast, auto intro: exI [of _ "fifo n"])
qed

end

section \<open>One write\<close>

text \<open>The template makes packets of the length the code assumes. Where it does not, because the
  user switched the builder off while the template has a head, the code reads behind the packet.\<close>

definition template_ok :: "ncb \<Rightarrow> world \<Rightarrow> bool" where
  "template_ok n w \<longleftrightarrow> 0 \<le> t_cb (template (tcp n)) \<and> (t_cb (template (tcp n)) = 0
     \<or> t_builder (template (tcp n)) \<noteq> None \<and> attr n AND LINKATTR_TCP_NO_BUILD (env w) = 0)"

lemma fill_payload_length: "fill_payload s origin cb b off = Some (r, b') \<Longrightarrow> length b' = length b"
  by (auto simp: fill_payload_def Let_def dest!: buf_put_length split: option.splits Option.bind_splits prod.splits)

lemma malloc_ok:
  "k_fail w SYS_malloc = [] \<Longrightarrow>
     malloc k w = (Some (replicate (nat k) (junk w)), w\<lparr>heap := heap w + 1\<rparr>)"
  by (simp add: malloc_def simple_call_ok)

lemma malloc_length: "malloc k w = (Some b, w') \<Longrightarrow> length b = nat k"
  by (auto dest!: mallocD)

lemma make_packet_length:
  assumes m: "tcp_make_packet n origin cb s w = Some (r, p, w')" and t: "template_ok n w" and cb: "0 < cb"
  shows "\<forall>b. p = Some b \<longrightarrow> int (length b) = cb + t_cb (template (tcp n))"
    and "\<exists>f e. w' = w\<lparr>k_fail := f, errno := e, heap := heap w + (if p = None then 0 else 1)\<rparr>"
    and "r \<le> 0" and "p = None \<longrightarrow> r < 0"
proof -
  let ?c = "t_cb (template (tcp n))"
  obtain k b w1 where k: "malloc k w = (b, w1)" "\<forall>q. p = Some q \<longrightarrow> length q = nat k"
    "p = None \<longleftrightarrow> b = None" "p = None \<longrightarrow> r < 0" "w' = w1"
    "k = cb \<and> (t_builder (template (tcp n)) = None \<or> attr n AND LINKATTR_TCP_NO_BUILD (env w) \<noteq> 0)
      \<or> k = cb + ?c" "r \<le> 0"
  proof (cases "\<exists>bld. t_builder (template (tcp n)) = Some bld \<and> attr n AND LINKATTR_TCP_NO_BUILD (env w) = 0")
    case True
    then obtain bld where bld: "t_builder (template (tcp n)) = Some bld"
      "attr n AND LINKATTR_TCP_NO_BUILD (env w) = 0" by blast
    obtain b w1 where a: "malloc (cb + ?c) w = (b, w1)" by fastforce
    show ?thesis
    proof (cases b)
      case None
      with m bld show ?thesis by (intro that [OF a]) (auto simp: tcp_make_packet_def a)
    next
      case (Some b0)
      obtain r0 hdr where h: "bld cb = (r0, hdr)" by fastforce
      obtain b1 where b1: "buf_put b0 0 hdr = Some b1"
        using m bld Some a by (auto simp: tcp_make_packet_def h split: Option.bind_splits)
      then have l: "length b1 = nat (cb + ?c)"
        using buf_put_length [OF b1] malloc_length [of "cb + ?c" w b0 w1] a Some by simp
      show ?thesis
        using m bld Some l
        by (intro that [OF a])
          (auto simp: tcp_make_packet_def a h b1 dest!: fill_payload_length split: Option.bind_splits if_splits)
    qed
  next
    case False
    obtain b w1 where a: "malloc cb w = (b, w1)" by fastforce
    show ?thesis
      using m False
      by (intro that [OF a])
        (auto simp: tcp_make_packet_def a Let_def dest!: fill_payload_length
          malloc_length [of cb w _ w1, unfolded a, simplified] split: option.splits Option.bind_splits prod.splits if_splits)
  qed
  show "\<forall>b. p = Some b \<longrightarrow> int (length b) = cb + ?c" using k t cb by (auto simp: template_ok_def)
  show "\<exists>f e. w' = w\<lparr>k_fail := f, errno := e, heap := heap w + (if p = None then 0 else 1)\<rparr>"
    using mallocD [OF k(1)] k(3,5) by (cases w) auto
  show "r \<le> 0" "p = None \<longrightarrow> r < 0" using k by blast+
qed

text \<open>Whatever happens inside, a write adds to the end of the stream: nothing or a front part of the
  packet where it fails, the whole packet where it reports success.\<close>

lemma write_body_stream:
  assumes w: "tcp_write_body origin cb s n w = Some (r, n', w')"
    and ok: "tx_ok n" "template_ok n w" and cb: "0 < cb"
  shows "tx_ok n' \<and> (\<exists>f. n' = n\<lparr>fifo := f\<rparr>) \<and> objs w' = objs w \<and> balanced w w'
    \<and> (\<exists>pkt k. out_stream n' w' = out_stream n w @ take k pkt
        \<and> int (length pkt) = cb + t_cb (template (tcp n)) \<and> (0 \<le> r \<longrightarrow> take k pkt = pkt))
    \<and> heap w' = heap w + (if r = 0 then 2 else 0)"
proof -
  let ?c = "t_cb (template (tcp n))"
  have c0: "0 \<le> ?c" using ok(2) by (simp add: template_ok_def)
  have idn: "\<exists>f. n = n\<lparr>fifo := f\<rparr>" by (rule exI [of _ "fifo n"]) simp
  define pad where "pad = replicate (nat (cb + ?c)) (0 :: byte)"
  have pad: "int (length pad) = cb + ?c" using cb c0 by (simp add: pad_def)
  have none: ?thesis if "r < 0" "n' = n" "trace w' = trace w" "objs w' = objs w" "heap w' = heap w"
    using that ok(1) idn pad
    by (auto simp: out_stream_def balanced_def intro!: exI [of _ pad] exI [of _ "0 :: nat"])
  show ?thesis
  proof (cases "ncb_write n = None \<or> ncb_read n = None")
    case True
    then show ?thesis using w by (intro none) (auto simp: tcp_write_body_def)
  next
    case rw: False
    obtain r1 st w1 where i: "tcp_save_info n w = Some (r1, st, w1)"
      using w rw by (auto simp: tcp_write_body_def split: Option.bind_splits)
    have w1: "\<exists>ks. w1 = w\<lparr>k_tcpinfo := ks\<rparr>" using i by (rule save_infoE) auto
    show ?thesis
    proof (cases "r1 \<ge> 0 \<and> st \<noteq> TCP_ESTABLISHED")
      case True
      then show ?thesis using w rw i w1 by (intro none) (auto simp: tcp_write_body_def)
    next
      case est: False
      obtain r2 p w2 where mp: "tcp_make_packet n origin cb s w1 = Some (r2, p, w2)"
        using w rw i est by (auto simp: tcp_write_body_def split: Option.bind_splits)
      have t1: "template_ok n w1" using ok(2) w1 by (auto simp: template_ok_def)
      note ml = make_packet_length [OF mp t1 cb]
      have w2: "trace w2 = trace w" "objs w2 = objs w" "heap w2 = heap w + (if p = None then 0 else 1)"
        using ml(2) w1 by auto
      show ?thesis
      proof (cases "p = None \<or> r2 < 0")
        case True
        then have "r2 < 0" using ml(4) by auto
        then have "r = r2 \<and> n' = n \<and> w' = (if p = None then w2 else free w2)"
          using w rw i est mp by (auto simp: tcp_write_body_def split: option.splits)
        with w2 \<open>r2 < 0\<close> show ?thesis by (intro none) (auto simp: free_def)
      next
        case False
        then obtain b where b: "p = Some b" "\<not> r2 < 0" by auto
        obtain m w3 where mal: "malloc sizeof_tx_node w2 = (m, w3)" by fastforce
        note md = mallocD [OF mal]
        show ?thesis
        proof (cases m)
          case None
          then have "r = - ENOMEM \<and> n' = n \<and> w' = free w3"
            using w rw i est mp b mal by (auto simp: tcp_write_body_def)
          with None md w2 b show ?thesis by (intro none) (auto simp: free_def)
        next
          case (Some mm)
          let ?x = "tx_node_zero\<lparr>data := b, wcb := cb + ?c, offset := 0\<rparr>"
          have wn: "write_node tcp_txn n ?x w3 = Some (r, n', w')"
            using w rw i est mp b mal Some by (auto simp: tcp_write_body_def)
          have lb: "int (length b) = cb + ?c" using ml(1) b by simp
          have x: "node_ok ?x" "node_rest ?x = b" "0 < wcb ?x"
            using lb cb c0 by (auto simp: node_ok_def node_rest_def tx_node_zero_def)
          have w3: "trace w3 = trace w" "objs w3 = objs w" "heap w3 = heap w + 2"
            using md Some w2 b by auto
          have tok: "fifo_ok n" "nodes_ok n" using ok(1) by (simp_all add: tx_ok_def)
          note bal = tcp_s.write_node_balanced [OF wn x(1)]
          from tcp_s.write_node_stream [OF wn tok x(1)] obtain k where
            k: "sent (sockfd n) (trace w') @ pend (fhead (fifo n')) = sent (sockfd n) (trace w3) @ pend (fhead (fifo n)) @ take k b"
              "0 \<le> r \<longrightarrow> take k b = b"
            and s: "fifo_ok n'" "nodes_ok n'" "sockfd n' = sockfd n" "objs w' = objs w3"
              "heap w' = (if r = 0 \<and> fhead (fifo n') \<noteq> [] then heap w3 else heap w3 - 2)"
              "r = 0 \<longrightarrow> fhead (fifo n') \<noteq> []"
            unfolding x(2) using x(3) by auto
          have "out_stream n' w' = out_stream n w @ take k b" using k(1) s(3) w3 by (auto simp: out_stream_def)
          moreover have "heap w' = heap w + (if r = 0 then 2 else 0)" using s(5,6) w3 by auto
          moreover have "balanced w w'" using bal(1) w3(1) by (simp add: balanced_def)
          ultimately show ?thesis using s k(2) w3 lb bal(2) by (auto simp: tx_ok_def)
        qed
      qed
    qed
  qed
qed

section \<open>The threads of a link\<close>

text \<open>A connected link, and its stream.\<close>

definition link_inv :: "objhld \<Rightarrow> world \<Rightarrow> bool" where
  "link_inv g w \<longleftrightarrow> 0 \<le> g \<and> (case objs w g of None \<Rightarrow> False | Some n \<Rightarrow>
     protocol n = IPPROTO_TCP \<and> hld n = g \<and> ncb_read n = Some R_tcp_rx
     \<and> ncb_write n = Some W_tcp_tx \<and> tx_ok n)"

definition link_out :: "objhld \<Rightarrow> world \<Rightarrow> byte list" where
  "link_out g w = (case objs w g of None \<Rightarrow> [] | Some n \<Rightarrow> out_stream n w)"

text \<open>One call of one thread that adds nothing to the stream: the user changes the template, the worker
  executes a task of the link, the epoll thread dispatches an event of the link, the kernel has new
  answers.\<close>

inductive quiet_step :: "objhld \<Rightarrow> world \<Rightarrow> world \<Rightarrow> bool" for g where
  settst: "tcp_settst g t w = Some (r, w') \<Longrightarrow> quiet_step g w w'"
| settst_r: "tcp_settst_r g t w = Some (r, w') \<Longrightarrow> quiet_step g w w'"
| work: "i_wp_exec t w = Some (r, w') \<Longrightarrow> task_hld t = g \<Longrightarrow> quiet_step g w w'"
| event: "i_iorun [(g, ev)] w = Some w' \<Longrightarrow> quiet_step g w w'"
| kernel: "quiet_step g w (w\<lparr>k_send := a, k_recv := b, k_tcpinfo := c, k_fail := d\<rparr>)"

text \<open>One call of any thread: such a call, or the user writes.\<close>

inductive link_step :: "objhld \<Rightarrow> world \<Rightarrow> world \<Rightarrow> bool" for g where
  user: "objs w g = Some n \<Longrightarrow> template_ok n w \<Longrightarrow> tcp_write g p cb s w = Some (r, w') \<Longrightarrow> link_step g w w'"
| quiet: "quiet_step g w w' \<Longrightarrow> link_step g w w'"

text \<open>What a step does, in the form the induction uses: the block stays a connected link with the
  same socket, and the stream gets longer by \<open>added\<close>.\<close>

definition adds :: "objhld \<Rightarrow> world \<Rightarrow> byte list \<Rightarrow> world \<Rightarrow> bool" where
  "adds g w added w' \<longleftrightarrow> link_inv g w' \<and> balanced w w' \<and> link_out g w' = link_out g w @ added"

definition grows :: "objhld \<Rightarrow> world \<Rightarrow> world \<Rightarrow> bool" where
  "grows g w w' \<longleftrightarrow> (\<exists>added. adds g w added w')"

lemma link_invE:
  assumes "link_inv g w"
  obtains n where "objs w g = Some n" "0 \<le> g" "protocol n = IPPROTO_TCP" "hld n = g"
    "ncb_read n = Some R_tcp_rx" "ncb_write n = Some W_tcp_tx" "tx_ok n" "link_out g w = out_stream n w"
  using assms by (auto simp: link_inv_def link_out_def split: option.splits)

lemma addsI:
  assumes "objs w' g = Some n'" "0 \<le> g" "protocol n' = IPPROTO_TCP" "hld n' = g"
    "ncb_read n' = Some R_tcp_rx" "ncb_write n' = Some W_tcp_tx" "tx_ok n'"
    "out_stream n' w' = link_out g w @ added" "balanced w w'"
  shows "adds g w added w'"
  using assms by (auto simp: adds_def link_inv_def link_out_def)

lemma entered_tcp:
  assumes "objs w g = Some n" "0 \<le> g" "protocol n = IPPROTO_TCP"
    "with_link i_tcprefr f body g w = Some (r, w')"
  obtains n' v where "body n (emit (Refr g) w) = Some (r, n', v)" "w' = emit (Defr g) (put_ncb g n' v)"
  using assms tcp_r.good [of g w n]
  by (auto simp: with_link_def objdefr_def split: Option.bind_splits)

lemma out_stream_refr [simp]:
  "out_stream n (emit (Refr h) w) = out_stream n w" "out_stream n (emit (Defr h) w) = out_stream n w"
  "out_stream n (put_ncb h m w) = out_stream n w" "out_stream n (emit (Clos h) w) = out_stream n w"
  "out_stream n (emit (Signal h) w) = out_stream n w"
  by (simp_all add: out_stream_def put_ncb_def)

lemma write_grows:
  assumes i: "link_inv g w" and n: "objs w g = Some n" "template_ok n w"
    and w: "tcp_write g (Some origin) cb s w = Some (r, w')" and cb: "0 < cb" "cb \<le> TCP_MAXIMUM_PACKET_SIZE"
  shows "grows g w w' \<and> (\<exists>pkt k. link_out g w' = link_out g w @ take k pkt
      \<and> int (length pkt) = cb + t_cb (template (tcp n)) \<and> (0 \<le> r \<longrightarrow> take k pkt = pkt))
    \<and> heap w' = heap w + (if r = 0 then 2 else 0)"
  using i
proof (rule link_invE)
  fix n0
  assume "objs w g = Some n0" and m: "0 \<le> g" "protocol n0 = IPPROTO_TCP" "hld n0 = g"
    "ncb_read n0 = Some R_tcp_rx" "ncb_write n0 = Some W_tcp_tx" "tx_ok n0" "link_out g w = out_stream n0 w"
  then have [simp]: "n0 = n" using n(1) by simp
  have wl: "with_link i_tcprefr id (tcp_write_body origin cb s) g w = Some (r, w')"
    using w m(1) cb by (simp add: tcp_write_def)
  obtain n' v where b: "tcp_write_body origin cb s n (emit (Refr g) w) = Some (r, n', v)"
    and w': "w' = emit (Defr g) (put_ncb g n' v)"
    by (rule entered_tcp [OF n(1) m(1) _ wl]) (use m(2) in simp)
  have t: "template_ok n (emit (Refr g) w)" using n(2) by (simp add: template_ok_def)
  from write_body_stream [OF b _ t cb(1)] m(6) obtain f pkt k where
    l: "tx_ok n'" "n' = n\<lparr>fifo := f\<rparr>" "balanced (emit (Refr g) w) v"
      "out_stream n' v = out_stream n w @ take k pkt" "int (length pkt) = cb + t_cb (template (tcp n))"
      "0 \<le> r \<longrightarrow> take k pkt = pkt" "heap v = heap w + (if r = 0 then 2 else 0)" by auto
  have "balanced (emit (Refr g) w) (put_ncb g n' v)" using l(3) balanced_put balanced_trans by blast
  then have bal: "balanced w w'" unfolding w' by (rule balanced_refr_defr)
  have o: "objs w' g = Some n'" by (simp add: w' put_ncb_def)
  have "adds g w (take k pkt) w'"
    by (rule addsI [OF o]) (use m l bal w' in auto)
  then have "grows g w w'" "link_out g w' = link_out g w @ take k pkt"
    by (auto simp: grows_def adds_def)
  then show ?thesis using l w' by (auto simp: put_ncb_def)
qed

lemma wp_queuedD:
  assumes "wp_queued n w = Some (r, w')"
  shows "objs w' = objs w" "sent fd (trace w') = sent fd (trace w)"
proof -
  have m: "objs v' = objs v \<and> trace v' = trace v" if "malloc k v = (b, v')" for k v b v'
    using mallocD [OF that] by auto
  have a: "objs v' = objs v \<and> trace v' = trace v" if "i_wp_add_task t v = Some v'" for t v v'
    using add_taskD [OF that] by auto
  show "objs w' = objs w" "sent fd (trace w') = sent fd (trace w)"
    using assms unfolding wp_queued_def Let_def pool_refr_def objdefr_def
    by (auto split: if_splits option.splits prod.splits Option.bind_splits dest!: m a)
qed

lemma event_adds:
  assumes i: "link_inv g w" and e: "i_iorun [(g, ev)] w = Some w'"
  shows "adds g w [] w'"
  using i
proof (rule link_invE)
  fix n
  assume n: "objs w g = Some n" "0 \<le> g" "protocol n = IPPROTO_TCP" "hld n = g"
    "ncb_read n = Some R_tcp_rx" "ncb_write n = Some W_tcp_tx" "tx_ok n" "link_out g w = out_stream n w"
  from e show "adds g w [] w'"
  proof (cases rule: iorun_eventE)
    case closed
    then have "w' = objclos g w" by simp
    then show ?thesis
      using n by (intro addsI [where n' = n]) (auto simp: objclos_def no_ref_def balanced_emit)
  next
    case gone
    then show ?thesis using n by simp
  next
    case (link m n1 w1 w2)
    then have m: "m = n" using n by simp
    have f: "fifo n1 = fifo n \<and> sockfd n1 = sockfd n \<and> hld n1 = hld n \<and> protocol n1 = protocol n
        \<and> ncb_read n1 = ncb_read n \<and> ncb_write n1 = ncb_write n \<and> sent (sockfd n) (trace w1) = sent (sockfd n) (trace w)"
      using link(2) m n(5) by (auto simp: call_read_def objclos_def dest!: tcp_rx_frame(1) dest: rx_frameD)
    have s2: "objs w2 = objs (put_ncb g n1 w1)" "sent (sockfd n) (trace w2) = sent (sockfd n) (trace (put_ncb g n1 w1))"
      using link(3) wp_queuedD by auto
    have w': "w' = objdefr g w2" using link(4) by simp
    have "tx_ok n1" using n(7) f by (simp add: tx_ok_def fifo_ok_def nodes_ok_def)
    moreover have "out_stream n1 w' = out_stream n w"
      using f s2 by (simp add: out_stream_def w' objdefr_def put_ncb_def)
    moreover have "objs w' g = Some n1" using s2 by (simp add: w' objdefr_def put_ncb_def)
    ultimately show ?thesis
      using n f iorun_balanced [OF e] by (intro addsI [where n' = n1]) auto
  qed
qed

lemma grows_refl: "link_inv g w \<Longrightarrow> grows g w w"
  by (auto simp: grows_def adds_def intro: exI [of _ "[]"])

lemma grows_trans: "grows g w w1 \<Longrightarrow> grows g w1 w2 \<Longrightarrow> grows g w w2"
  by (auto simp: grows_def adds_def intro: balanced_trans)

text \<open>An operation that changes the user's part of the block and nothing else.\<close>

lemma tcp_part_adds:
  assumes i: "link_inv g w"
    and x: "with_link i_tcprefr id (\<lambda>n w. Some (0, n\<lparr>tcp := f (tcp n)\<rparr>, w)) g w = Some (r, w')"
  shows "adds g w [] w'"
  using i
proof (rule link_invE)
  fix n assume n: "objs w g = Some n" "0 \<le> g" "protocol n = IPPROTO_TCP" "hld n = g"
    "ncb_read n = Some R_tcp_rx" "ncb_write n = Some W_tcp_tx" "tx_ok n" "link_out g w = out_stream n w"
  obtain n' v where "Some (0, n\<lparr>tcp := f (tcp n)\<rparr>, emit (Refr g) w) = Some (r, n', v)"
    and w': "w' = emit (Defr g) (put_ncb g n' v)"
    by (rule entered_tcp [OF n(1-3) x])
  then have nv: "n' = n\<lparr>tcp := f (tcp n)\<rparr>" "v = emit (Refr g) w" by auto
  have "balanced w w'" unfolding w' nv by (rule balanced_refr_defr) simp
  then show ?thesis
    using n by (intro addsI [where n' = n'])
      (auto simp: w' nv put_ncb_def out_stream_def tx_ok_def fifo_ok_def nodes_ok_def)
qed

lemma adds_refl: "link_inv g w \<Longrightarrow> adds g w [] w"
  by (simp add: adds_def)

lemma settst_adds:
  assumes i: "link_inv g w"
  shows "tcp_settst g t w = Some (r, w') \<Longrightarrow> adds g w [] w'"
    and "tcp_settst_r g t w = Some (r, w') \<Longrightarrow> adds g w [] w'"
  using adds_refl [OF i] tcp_part_adds [OF i, of "\<lambda>c. c\<lparr>template := the t\<rparr>"]
    tcp_part_adds [OF i, of "\<lambda>c. c\<lparr>prtemplate := template c, template := the t\<rparr>"]
  by (auto simp: tcp_settst_def tcp_settst_r_def split: option.splits if_splits)

lemma work_adds:
  assumes i: "link_inv g w" and e: "i_wp_exec t w = Some (r, w')" "task_hld t = g"
  shows "adds g w [] w'"
  using i
proof (rule link_invE)
  fix n assume n: "objs w g = Some n" "0 \<le> g" "protocol n = IPPROTO_TCP" "hld n = g"
    "ncb_read n = Some R_tcp_rx" "ncb_write n = Some W_tcp_tx" "tx_ok n" "link_out g w = out_stream n w"
  from tcp_exec [OF e(1)] n e(2) obtain n' f where
    "objs w' = (objs w)(g \<mapsto> n')" "tx_ok n'" "n' = n\<lparr>fifo := f\<rparr>" "out_stream n' w' = out_stream n w" "balanced w w'"
    by auto
  then show ?thesis using n by (intro addsI [where n' = n']) auto
qed

lemma quiet_adds: "quiet_step g w w' \<Longrightarrow> link_inv g w \<Longrightarrow> adds g w [] w'"
proof (induction rule: quiet_step.induct)
  case (kernel w a b c d)
  then show ?case
    by (auto simp: adds_def link_inv_def link_out_def out_stream_def balanced_def split: option.splits)
qed (auto intro: settst_adds work_adds event_adds)

lemma step_grows: "link_step g w w' \<Longrightarrow> link_inv g w \<Longrightarrow> grows g w w'"
proof (induction rule: link_step.induct)
  case (user w n p cb s r w')
  show ?case
  proof (cases "p = None \<or> g < 0 \<or> cb \<le> 0 \<or> cb > TCP_MAXIMUM_PACKET_SIZE")
    case True
    then have "w' = w" using user by (auto simp: tcp_write_def split: option.splits)
    then show ?thesis using grows_refl [OF user(4)] by simp
  next
    case False
    then obtain origin where "p = Some origin" by auto
    then show ?thesis using write_grows [OF user(4,1,2)] user(3) False by auto
  qed
qed (auto simp: grows_def dest: quiet_adds)

lemma steps_grow: "(link_step g)\<^sup>*\<^sup>* w w' \<Longrightarrow> link_inv g w \<Longrightarrow> grows g w w'"
proof (induction rule: rtranclp_induct)
  case base
  then show ?case by (rule grows_refl)
next
  case (step y z)
  then have g: "grows g w y" by blast
  then have "grows g y z" using step_grows [OF step(2)] by (auto simp: grows_def adds_def)
  with g show ?case by (rule grows_trans)
qed

text \<open>The packet a successful write adds is the builder's head and the payload.\<close>

lemma write_exact:
  assumes i: "link_inv g w" "may_write n w" and n: "objs w g = Some n" "0 \<le> t_cb (template (tcp n))"
    and b: "built_packet n w origin cb = Some pkt" "0 < cb" "cb \<le> int (length origin)" "cb \<le> TCP_MAXIMUM_PACKET_SIZE"
      "k_fail w SYS_malloc = []"
    and w: "tcp_write g (Some origin) cb None w = Some (r, w')"
  shows "\<exists>k. link_out g w' = link_out g w @ take k pkt \<and> (0 \<le> r \<longrightarrow> take k pkt = pkt)"
  using i(1)
proof (rule link_invE)
  fix n0
  assume "objs w g = Some n0" and m: "0 \<le> g" "protocol n0 = IPPROTO_TCP" "tx_ok n0" "link_out g w = out_stream n0 w"
  then have e: "n0 = n" using n(1) by simp
  have wl: "with_link i_tcprefr id (tcp_write_body origin cb None) g w = Some (r, w')"
    using w m(1) b by (simp add: tcp_write_def)
  obtain n' v where bd: "tcp_write_body origin cb None n (emit (Refr g) w) = Some (r, n', v)"
    and w': "w' = emit (Defr g) (put_ncb g n' v)"
    by (rule entered_tcp [OF n(1) m(1) _ wl]) (use m(2) e in simp)
  have "may_write n (emit (Refr g) w)" "built_packet n (emit (Refr g) w) origin cb = Some pkt"
    using i(2) b(1) built_packet_env [of "emit (Refr g) w" w n] by (auto simp: may_write_def)
  from tcp_write_body_stream [OF bd _ this b(2,3) _ n(2)] m(3) b(5) e
  obtain k where "out_stream n' v = out_stream n w @ take k pkt" "0 \<le> r \<longrightarrow> take k pkt = pkt"
    by auto
  moreover have "link_out g w' = out_stream n' v" by (simp add: link_out_def w' put_ncb_def out_stream_def)
  ultimately show ?thesis using m(4) e by auto
qed

section \<open>A writable link is drained\<close>

lemma wp_queued_task:
  assumes h: "wp_handle (protocol n) w = Some h" "0 \<le> h" "pools w h = Some p" and k: "k_fail w SYS_malloc = []"
  shows "wp_queued n w = Some (0, emit (Defr h) (emit (Signal h) (emit (Refr h) w
    \<lparr>heap := heap w + 1, pools := (pools w)(h \<mapsto> p\<lparr>tasks := tasks p @ [\<lparr>task_hld = hld n, task_thread = h\<rparr>],
       task_list_size := task_list_size p + 1\<rparr>)\<rparr>)))"
proof -
  have "malloc sizeof_wptask (emit (Refr h) w) = (Some (replicate (nat sizeof_wptask) (junk w)),
      (emit (Refr h) w)\<lparr>heap := heap w + 1\<rparr>)"
    using k by (simp add: malloc_def simple_call_ok)
  then show ?thesis
    using h by (simp add: wp_queued_def pool_refr_def i_wp_add_task_def objdefr_def)
qed

lemma writable_event:
  assumes n: "objs w g = Some n" "protocol n = IPPROTO_TCP"
    and h: "wp_tcphld w = h" "0 \<le> h" "pools w h = Some p" and k: "k_fail w SYS_malloc = []"
  shows "i_iorun [(g, EPOLLOUT)] w = Some (emit (Defr g) (emit (Defr h) (emit (Signal h) (emit (Refr h)
     (put_ncb g n (emit (Refr g) w))\<lparr>heap := heap w + 1,
       pools := (pools w)(h \<mapsto> p\<lparr>tasks := tasks p @ [\<lparr>task_hld = hld n, task_thread = h\<rparr>],
       task_list_size := task_list_size p + 1\<rparr>)\<rparr>))))"
proof -
  let ?v = "put_ncb g n (emit (Refr g) w)"
  have "wp_handle (protocol n) ?v = Some h" "pools ?v h = Some p" "k_fail ?v SYS_malloc = []" "heap ?v = heap w"
    "pools ?v = pools w"
    using n h k by (simp_all add: wp_handle_def put_ncb_def)
  note q = wp_queued_task [OF this(1) h(2) this(2,3), unfolded this(4,5)]
  show ?thesis using n by (simp add: objrefr_def objdefr_def q)
qed

section \<open>A concrete link\<close>

text \<open>The link of theory Tcp_rx, connected, with \<open>q\<close> waiting; the kernel answers \<open>ks\<close> to sends. The worker
  pool is the object 3.\<close>

definition link_ncb0 :: "tx_node list \<Rightarrow> ncb" where
  "link_ncb0 q = (rx_ncb0 1 [])\<lparr>ncb_read := Some R_tcp_rx, ncb_write := Some W_tcp_tx,
     fifo := \<lparr>blocking = (if q = [] then 0 else 1), fsize = int (length q), fhead = q\<rparr>\<rparr>"

definition link_world0 :: "tx_node list \<Rightarrow> kans list \<Rightarrow> world" where
  "link_world0 q ks = world0\<lparr>objs := [5 \<mapsto> link_ncb0 q], k_send := ks, k_tcpinfo := [Some 1, Some 1, Some 1],
     wp_tcphld := 3, pools := [3 \<mapsto> \<lparr>tasks = [], task_list_size = 0, wp_actived = True\<rparr>]\<rparr>"

definition node0 :: "byte list \<Rightarrow> tx_node" where
  "node0 bs = tx_node_zero\<lparr>data := bs, wcb := int (length bs)\<rparr>"

lemma link_ncb0_simps:
  "hld (link_ncb0 q) = 5" "sockfd (link_ncb0 q) = 9" "protocol (link_ncb0 q) = 6"
  "ncb_read (link_ncb0 q) = Some R_tcp_rx" "ncb_write (link_ncb0 q) = Some W_tcp_tx"
  "fhead (fifo (link_ncb0 q)) = q" "template (tcp (link_ncb0 q)) = tst0 1" "attr (link_ncb0 q) = 0"
  "nis_callback (link_ncb0 q) = Some 1"
  by (simp_all add: link_ncb0_def rx_ncb0_def ncb_zero_def)

lemma link_world0_simps:
  "objs (link_world0 q ks) = [5 \<mapsto> link_ncb0 q]" "k_send (link_world0 q ks) = ks"
  "k_tcpinfo (link_world0 q ks) = [Some 1, Some 1, Some 1]" "k_fail (link_world0 q ks) = (\<lambda>_. [])"
  "trace (link_world0 q ks) = []" "heap (link_world0 q ks) = 0" "env (link_world0 q ks) = env0"
  "wp_tcphld (link_world0 q ks) = 3" "junk (link_world0 q ks) = 0" "k_recv (link_world0 q ks) = []"
  "pools (link_world0 q ks) 3 = Some \<lparr>tasks = [], task_list_size = 0, wp_actived = True\<rparr>"
  by (simp_all add: link_world0_def world0_def)

lemma node0_simps: "node_ok (node0 bs)" "node_rest (node0 bs) = bs" "offset (node0 bs) = 0"
  "wcb (node0 bs) = int (length bs)"
  by (simp_all add: node0_def node_ok_def node_rest_def tx_node_zero_def)

lemma link_ncb0_ok: "length q \<le> 100 \<Longrightarrow> list_all node_ok q \<Longrightarrow> tx_ok (link_ncb0 q)"
  by (simp add: tx_ok_def nodes_ok_def fifo_ok_def link_ncb0_def MAXIMUM_FIFO_SIZE_def)

lemma link_world0_inv: "length q \<le> 100 \<Longrightarrow> list_all node_ok q \<Longrightarrow> link_inv 5 (link_world0 q ks)"
  by (simp add: link_inv_def link_world0_simps link_ncb0_simps link_ncb0_ok)

lemma link_world0_packet:
  "may_write (link_ncb0 q) (link_world0 q ks)" "template_ok (link_ncb0 q) (link_world0 q ks)"
  "built_packet (link_ncb0 q) (link_world0 q ks) [8] 1 = Some [0, 1, 8]"
  by (simp_all add: may_write_def template_ok_def built_packet_def link_ncb0_simps link_world0_simps tst0_def)

lemma link_world0_out: "link_out 5 (link_world0 q ks) = pend q"
  by (simp add: link_out_def out_stream_def link_world0_simps link_ncb0_simps)

text \<open>A node waits already: the write is queued.\<close>

lemma link_world0_write:
  "\<exists>w'. tcp_write 5 (Some [8]) 1 None (link_world0 [node0 [1, 2]] ks) = Some (0, w')"
proof -
  let ?n = "link_ncb0 [node0 [1, 2]]"
  have mp: "tcp_make_packet ?n [8] 1 None w = Some (0, Some [0, 1, 8], w\<lparr>heap := heap w + 1\<rparr>)"
    if "k_fail w = (\<lambda>_. [])" "env w = env0" for w
    using that make_packet [of ?n w "[8]" 1 "[0, 1, 8]"] link_world0_packet(3) [of "[node0 [1, 2]]" ks]
      built_packet_env [of w "link_world0 [node0 [1, 2]] ks" ?n] by (simp add: link_world0_simps)
  obtain n1 where q: "fifo_queue ?n x w = (2, n1 x, w)" for x w
    by (simp add: fifo_queue_def link_ncb0_def Let_def MAXIMUM_FIFO_SIZE_def)
  have b: "fifo_is_blocking ?n = 1" by (simp add: fifo_is_blocking_def link_ncb0_def)
  have r: "i_tcprefr 5 (link_world0 [node0 [1, 2]] ks)
      = (0, Some ?n, emit (Refr 5) (link_world0 [node0 [1, 2]] ks))"
    by (rule tcp_r.good) (simp_all add: link_world0_simps link_ncb0_simps)
  have c: "\<not> (1 :: int) > TCP_MAXIMUM_PACKET_SIZE" by (simp add: TCP_MAXIMUM_PACKET_SIZE_def)
  show ?thesis
    using c by (simp add: tcp_write_def with_link_def r tcp_write_body_def link_ncb0_simps tcp_save_info_def
        link_world0_simps mp malloc_ok write_node_def b q)
qed

section \<open>Properties\<close>

text \<open>C6: writing to a connected TCP link adds to the end of its output stream, that is, of the bytes
  the kernel has taken followed by the bytes that wait: the builder's head and the payload, whole
  and unbroken, where the call reports success, and a front part of them where it fails. It never
  overtakes or tears a packet that waits. The memory of the packet is kept exactly while it waits,
  and the reference is given back.\<close>

theorem tcp_write_appends:
  assumes "link_inv g w" and "objs w g = Some n" and "template_ok n w" and "may_write n w"
    and "built_packet n w origin cb = Some pkt"
    and "0 < cb" and "cb \<le> int (length origin)" and "cb \<le> TCP_MAXIMUM_PACKET_SIZE"
    and "k_fail w SYS_malloc = []" and "tcp_write g (Some origin) cb None w = Some (r, w')"
  shows "(\<exists>k. link_out g w' = link_out g w @ take k pkt \<and> (0 \<le> r \<longrightarrow> take k pkt = pkt))
    \<and> heap w' = heap w + (if r = 0 then 2 else 0) \<and> link_inv g w' \<and> balanced w w'"
proof -
  have "0 \<le> t_cb (template (tcp n))" using assms(3) by (simp add: template_ok_def)
  from write_exact [OF assms(1,4,2) this assms(5-10)] write_grows [OF assms(1-3,10,6,8)]
  show ?thesis by (auto simp: grows_def adds_def)
qed

theorem tcp_write_appends_witness:
  "\<exists>w'. tcp_write 5 (Some [8]) 1 None (link_world0 [node0 [1, 2]] []) = Some (0, w')
    \<and> link_out 5 w' = [1, 2, 0, 1, 8] \<and> heap w' = 2"
proof -
  obtain w' where w: "tcp_write 5 (Some [8]) 1 None (link_world0 [node0 [1, 2]] []) = Some (0, w')"
    using link_world0_write by blast
  have i: "link_inv 5 (link_world0 [node0 [1, 2]] [])" by (rule link_world0_inv) (simp_all add: node0_simps)
  from tcp_write_appends [OF i _ link_world0_packet(2,1,3) _ _ _ _ w]
  have "link_out 5 w' = [1, 2, 0, 1, 8]" "heap w' = 2"
    by (auto simp: link_world0_simps link_world0_out node0_simps TCP_MAXIMUM_PACKET_SIZE_def)
  with w show ?thesis by blast
qed





end
