(* ===== verification/Sending.thy ===== *)
theory Sending
  imports Stream
begin

text \<open>
  The queues and the worker threads: properties of the two queues, of the worker that empties them,
  and what it does to datagrams.
\<close>

section \<open>The queues\<close>

lemma link_ncb0_fifo:
  "fifo (link_ncb0 q) = \<lparr>blocking = (if q = [] then 0 else 1), fsize = int (length q), fhead = q\<rparr>"
  by (simp add: link_ncb0_def)

text \<open>C13: over any sequence of queueing and taking, the transmit queue of a link hands the nodes out in
  the order they were accepted, each once, and keeps the others; it never holds more than 100, its
  counter counts them, and the blocking flag is set exactly while some wait.\<close>

theorem transmit_queue_fifo:
  assumes "fifo_ok n" and "qrun fifo_enq fifo_deq ops (n, w) = (acc, del, n', w')"
  shows "fhead (fifo n) @ acc = del @ fhead (fifo n') \<and> fifo_ok n'
    \<and> fsize (fifo n') = int (length (fhead (fifo n'))) \<and> length (fhead (fifo n')) \<le> 100
    \<and> (blocking (fifo n') = 0 \<longleftrightarrow> fhead (fifo n') = [])"
proof -
  have i: "fifo_ok (fst (n, w))" using assms(1) by simp
  have o: "fifo_items (n, w) @ acc = del @ fifo_items (n', w') \<and> fifo_ok (fst (n', w'))"
    by (rule tq.fifo_order [OF i assms(2)])
  have "length (fifo_items (n', w')) \<le> 100" using o tq.bound by blast
  with o show ?thesis by (auto simp: fifo_items_def fifo_ok_def)
qed

theorem transmit_queue_fifo_witness:
  "\<exists>n' w'. qrun fifo_enq fifo_deq [Enq (node0 [2]), Deq] (link_ncb0 [node0 [1]], world0)
      = ([node0 [2]], [node0 [1]], n', w') \<and> fhead (fifo n') = [node0 [2]]"
proof -
  have ok: "fifo_ok (link_ncb0 [node0 [1]])"
    by (simp add: fifo_ok_def link_ncb0_def MAXIMUM_FIFO_SIZE_def)
  obtain n' w' where r: "qrun fifo_enq fifo_deq [Enq (node0 [2]), Deq] (link_ncb0 [node0 [1]], world0)
      = ([node0 [2]], [node0 [1]], n', w')"
    by (simp add: fifo_enq_def fifo_deq_def fifo_queue_def fifo_pop_def link_ncb0_def MAXIMUM_FIFO_SIZE_def Let_def)
  from transmit_queue_fifo [OF ok r] r show ?thesis by (simp add: link_ncb0_simps)
qed

text \<open>A full queue refuses a node with \<open>-EBUSY\<close> and changes nothing; a queue with room takes it
  unless the kernel refuses the registration for \<open>EPOLLOUT\<close>, and then it changes nothing either.\<close>

lemma transmit_queue_refuses:
  assumes "fifo_ok n" and "errors_negative w" and "fifo_queue n x w = (r, n', w')"
  shows "if length (fhead (fifo n)) = 100 then r = - EBUSY \<and> n' = n \<and> w' = w
    else (0 < r \<and> r = int (length (fhead (fifo n'))) \<and> fhead (fifo n') = fhead (fifo n) @ [x])
      \<or> (r < 0 \<and> n' = n \<and> fhead (fifo n) = [] \<and> interest n w' = interest n w)"
proof -
  have l: "fsize (fifo n) = int (length (fhead (fifo n)))" "fsize (fifo n) \<le> 100"
    "blocking (fifo n) = (if fhead (fifo n) = [] then 0 else 1)"
    using assms(1) by (simp_all add: fifo_ok_def MAXIMUM_FIFO_SIZE_def)
  show ?thesis
  proof (cases "length (fhead (fifo n)) = 100")
    case True
    with l assms(3) show ?thesis by (simp add: fifo_queue_def MAXIMUM_FIFO_SIZE_def)
  next
    case False
    from assms(3) show ?thesis
    proof (cases rule: fifo_queueE)
      case refused
      with False l assms(3) show ?thesis
        by (auto simp: fifo_queue_def MAXIMUM_FIFO_SIZE_def Let_def split: if_splits prod.splits)
    next
      case queued
      with False l show ?thesis by auto
    qed
  qed
qed



text \<open>The task list of a worker thread hands the tasks out in the order they were added.\<close>

lemma task_list_fifo:
  assumes "wp_ok h w" and "qrun (wp_enq h) (wp_deq h) ops w = (acc, del, w')"
  shows "wp_items h w @ acc = del @ wp_items h w' \<and> wp_ok h w'"
  by (rule wq.fifo_order [OF assms])

section \<open>The worker threads\<close>

text \<open>C9: an \<open>EPOLLOUT\<close> event on a connected TCP link and the worker thread that it wakes empty the
  queue of the link: with room in the kernel for each node, every waiting byte goes out in order,
  the nodes, their packets and the task are freed, and the thread finds its task list empty.\<close>

theorem writable_event_drains:
  assumes "objs w g = Some n" and "protocol n = IPPROTO_TCP" and "hld n = g"
    and "ncb_write n = Some W_tcp_tx" and "tx_ok n" and "list_all (\<lambda>x. offset x < wcb x) (fhead (fifo n))"
    and "wp_tcphld w = h" and "0 \<le> h" and "pools w h = Some p" and "tasks p = []" and "wp_actived p"
    and "k_fail w SYS_malloc = []"
    and "k_tcpinfo w = replicate (Suc (length (fhead (fifo n)))) (Some TCP_ESTABLISHED) @ is"
    and "k_send w = map (\<lambda>x. KRet (wcb x - offset x)) (fhead (fifo n)) @ ks"
  shows "\<exists>w1 w2 n' p'. i_iorun [(g, EPOLLOUT)] w = Some w1 \<and> wp_drain h w1 = Some w2
    \<and> objs w2 g = Some n' \<and> fhead (fifo n') = [] \<and> pools w2 h = Some p' \<and> tasks p' = []
    \<and> sent (sockfd n) (trace w2) = sent (sockfd n) (trace w) @ pend (fhead (fifo n))
    \<and> heap w2 = heap w - 2 * int (length (fhead (fifo n)))"
proof -
  note e = writable_event [OF assms(1,2,7,8,9,12)]
  let ?p1 = "p\<lparr>tasks := tasks p @ [\<lparr>task_hld = hld n, task_thread = h\<rparr>], task_list_size := task_list_size p + 1\<rparr>"
  define w1 where "w1 = emit (Defr g) (emit (Defr h) (emit (Signal h) (emit (Refr h)
     (put_ncb g n (emit (Refr g) w))\<lparr>heap := heap w + 1, pools := (pools w)(h \<mapsto> ?p1)\<rparr>)))"
  have 1: "objs w1 g = Some n" "pools w1 h = Some ?p1" "heap w1 = heap w + 1"
    "sent (sockfd n) (trace w1) = sent (sockfd n) (trace w)"
    "k_tcpinfo w1 = replicate (Suc (length (fhead (fifo n)))) (Some TCP_ESTABLISHED) @ is"
    "k_send w1 = map (\<lambda>x. KRet (wcb x - offset x)) (fhead (fifo n)) @ ks"
    using assms(13,14) by (simp_all add: w1_def put_ncb_def)
  have p1: "tasks ?p1 = [\<lparr>task_hld = g, task_thread = h\<rparr>]" "wp_actived ?p1" using assms(3,10,11) by simp_all
  from drain_tcp [OF 1(1) assms(4,3,5) refl assms(6) 1(5,6,2) p1] 1(3,4)
  show ?thesis unfolding e w1_def [symmetric] by auto
qed

theorem writable_event_drains_witness:
  "\<exists>w1 w2 n'. i_iorun [(5, EPOLLOUT)] (link_world0 [node0 [1, 2], node0 [3]] [KRet 2, KRet 1]) = Some w1
    \<and> wp_drain 3 w1 = Some w2 \<and> objs w2 5 = Some n' \<and> fhead (fifo n') = []
    \<and> sent 9 (trace w2) = [1, 2, 3] \<and> heap w2 = -4"
proof -
  let ?q = "[node0 [1, 2], node0 [3]]"
  have "tx_ok (link_ncb0 ?q)" by (rule link_ncb0_ok) (simp_all add: node0_simps)
  from writable_event_drains [of "link_world0 ?q [KRet 2, KRet 1]" 5 "link_ncb0 ?q" 3
      "\<lparr>tasks = [], task_list_size = 0, wp_actived = True\<rparr>" "[]" "[]", OF _ _ _ _ this]
  show ?thesis by (auto simp: link_world0_simps link_ncb0_simps node0_simps)
qed

text \<open>C14: one execution of a task on a TCP link, with any answers of the kernel, keeps the stream of
  the link, pops a node exactly when all of it has gone out, frees it then, puts the task back
  exactly then, and gives its reference back.\<close>

theorem worker_keeps_stream:
  assumes "i_wp_exec t w = Some (r, w')" and "objs w (task_hld t) = Some n"
    and "ncb_write n = Some W_tcp_tx" and "hld n = task_hld t" and "tx_ok n"
  shows "\<exists>n'. objs w' (task_hld t) = Some n' \<and> tx_ok n' \<and> out_stream n' w' = out_stream n w
    \<and> sockfd n' = sockfd n
    \<and> length (fhead (fifo n')) = length (fhead (fifo n)) - (if 0 < r then 1 else 0)
    \<and> heap w' = heap w - (if 0 < r then 2 else 0) \<and> balanced w w'"
proof -
  from tcp_exec [OF assms] obtain n' where n': "objs w' = (objs w)(task_hld t \<mapsto> n')" "tx_ok n'"
    "sockfd n' = sockfd n"
    "out_stream n' w' = out_stream n w" "balanced w w'" "heap w' = heap w - (if 0 < r then 2 else 0)"
    "(if 0 < r then Suc (length (fhead (fifo n'))) else length (fhead (fifo n'))) = length (fhead (fifo n))"
    by auto
  then show ?thesis by (intro exI [of _ n']) (auto split: if_splits)
qed

text \<open>The kernel takes one byte of two and is then full: the node stays, and nothing is freed.\<close>

theorem worker_keeps_stream_witness:
  "\<exists>w' n'. i_wp_exec \<lparr>task_hld = 5, task_thread = 3\<rparr> (link_world0 [node0 [1, 2]] [KRet 1, KErr EAGAIN])
      = Some (- EAGAIN, w') \<and> objs w' 5 = Some n' \<and> sent 9 (trace w') @ pend (fhead (fifo n')) = [1, 2]
    \<and> length (fhead (fifo n')) = 1"
proof -
  let ?w = "link_world0 [node0 [1, 2]] [KRet 1, KErr EAGAIN]"
  have ok: "tx_ok (link_ncb0 [node0 [1, 2]])" by (rule link_ncb0_ok) (simp_all add: node0_simps)
  obtain w' where e: "i_wp_exec \<lparr>task_hld = 5, task_thread = 3\<rparr> ?w = Some (- EAGAIN, w')"
    by (simp add: i_wp_exec_def objrefr_def call_write_def tcp_tx_def tcp_save_info_def fifo_top_def
        link_world0_simps link_ncb0_simps tcp_txn.simps send_call_def buf_get_def node0_def tx_node_zero_def)
  from worker_keeps_stream [OF e, of "link_ncb0 [node0 [1, 2]]"] ok
  obtain n' where "objs w' 5 = Some n'" "out_stream n' w' = out_stream (link_ncb0 [node0 [1, 2]]) ?w" "length (fhead (fifo n')) = 1" "sockfd n' = 9"
    by (auto simp: link_world0_simps link_ncb0_simps)
  then show ?thesis using e by (auto simp: out_stream_def link_ncb0_simps link_world0_simps node0_simps)
qed

section \<open>Datagrams\<close>

definition udp_world0 :: "tx_node list \<Rightarrow> kans list \<Rightarrow> world" where
  "udp_world0 q ks = (link_world0 [] ks)\<lparr>objs := [5 \<mapsto> (link_ncb0 q)\<lparr>protocol := IPPROTO_UDP,
     ncb_read := Some R_udp_rx, ncb_write := Some W_udp_tx\<rparr>]\<rparr>"

lemma udp_world0_simps:
  "objs (udp_world0 q ks) 5 = Some ((link_ncb0 q)\<lparr>protocol := IPPROTO_UDP, ncb_read := Some R_udp_rx,
     ncb_write := Some W_udp_tx\<rparr>)"
  "k_send (udp_world0 q ks) = ks" "heap (udp_world0 q ks) = 0" "trace (udp_world0 q ks) = []"
  "k_fail (udp_world0 q ks) = (\<lambda>_. [])"
  "pools (udp_world0 q ks) 3 = Some \<lparr>tasks = [], task_list_size = 0, wp_actived = True\<rparr>"
  by (simp_all add: udp_world0_def link_world0_simps)

text \<open>C24: executing a task on a UDP link with at least two datagrams waiting sends the first and throws
  the second away: \<open>udp_tx\<close> has popped the datagram that went out when \<open>__wp_exec\<close> pops once more.\<close>

theorem udp_task_drops_datagram:
  assumes "objs w g = Some n" and "ncb_write n = Some W_udp_tx" and "hld n = g" and "tx_ok n"
    and "fhead (fifo n) = x # y # zs" and "offset x < wcb x"
    and "k_send w = KRet m # ks" and "wcb x - offset x \<le> m"
    and "pools w h = Some p" and "t = \<lparr>task_hld = g, task_thread = h\<rparr>"
  shows "\<exists>n' w'. i_wp_exec t w = Some (wcb x, w') \<and> objs w' g = Some n' \<and> fhead (fifo n') = zs
    \<and> trace w' = trace w @ [Refr g, SendtoIn (sockfd n) (node_rest x) (udp_target x), Defr g]
    \<and> heap w' = heap w - 4"
  by (rule udp_exec_drops [OF assms])

theorem udp_task_drops_datagram_witness:
  "\<exists>n' w'. i_wp_exec \<lparr>task_hld = 5, task_thread = 3\<rparr>
      (udp_world0 [node0 [1, 2], node0 [3], node0 [4]] [KRet 1472]) = Some (2, w')
    \<and> objs w' 5 = Some n' \<and> fhead (fifo n') = [node0 [4]]
    \<and> trace w' = [Refr 5, SendtoIn 9 [1, 2] sockaddr_zero, Defr 5]"
proof -
  have ok: "tx_ok (link_ncb0 [node0 [1, 2], node0 [3], node0 [4]])"
    by (rule link_ncb0_ok) (simp_all add: node0_simps)
  have t: "udp_target (node0 bs) = sockaddr_zero" for bs by (simp add: node0_def tx_node_zero_def)
  let ?w = "udp_world0 [node0 [1, 2], node0 [3], node0 [4]] [KRet 1472]"
  from udp_task_drops_datagram [of ?w 5 _ "node0 [1, 2]" "node0 [3]" "[node0 [4]]" 1472 "[]" 3 _
      "\<lparr>task_hld = 5, task_thread = 3\<rparr>", OF udp_world0_simps(1) _ _ _ _ _ _ _ udp_world0_simps(6)]
  show ?thesis
    using ok by (auto simp: link_ncb0_simps node0_simps udp_world0_simps t tx_ok_def fifo_ok_def nodes_ok_def)
qed

text \<open>C25: where exactly one datagram waits, the second pop finds nothing, so the task is not put back;
  but the positive status keeps the worker from freeing it. The datagram and its node are freed,
  the task never is.\<close>

theorem udp_task_leaks:
  assumes "objs w g = Some n" and "ncb_write n = Some W_udp_tx" and "hld n = g" and "tx_ok n"
    and "fhead (fifo n) = [x]" and "offset x < wcb x"
    and "k_send w = KRet m # ks" and "wcb x - offset x \<le> m"
    and "pools w h = Some p" and "tasks p = [\<lparr>task_hld = g, task_thread = h\<rparr>]" and "wp_actived p"
  shows "\<exists>w' p'. wp_drain h w = Some w' \<and> pools w' h = Some p' \<and> tasks p' = []
    \<and> trace w' = trace w @ [Refr g, SendtoIn (sockfd n) (node_rest x) (udp_target x), Defr g]
    \<and> heap w' = heap w - 2"
proof -
  let ?t = "\<lparr>task_hld = g, task_thread = h\<rparr>"
  let ?p = "p\<lparr>tasks := [], task_list_size := task_list_size p - 1\<rparr>"
  let ?w0 = "w\<lparr>pools := (pools w)(h \<mapsto> ?p)\<rparr>"
  have g1: "i_wp_get_task h w = Some (Some ?t, ?w0)" using assms(9,10) by (simp add: i_wp_get_task_def)
  have xok: "node_ok x" using assms(4,5) by (simp add: tx_ok_def nodes_ok_def)
  have pos: "0 < wcb x" using xok assms(6) by (simp add: node_ok_def)
  define x1 where "x1 = x\<lparr>offset := wcb x\<rparr>"
  define n1 where "n1 = fifo_set_top x1 n"
  define w1 where "w1 = emit (SendtoIn (sockfd n) (node_rest x) (udp_target x)) (emit (Refr g) ?w0\<lparr>k_send := ks\<rparr>)"
  have n1h: "fhead (fifo n1) = [x1]" using assms(5) by (simp add: n1_def fifo_set_top_def)
  have n1f: "\<exists>f. n1 = n\<lparr>fifo := f\<rparr>" unfolding n1_def by (rule set_top_fifo)
  obtain r2 t2 n2 w2 where p1: "fifo_pop False n1 w1 = (r2, t2, n2, w2)" by (metis prod_cases4)
  note 2 = pop_front [OF p1 n1h]
  have txn: "udp_txn n x (emit (Refr g) ?w0) = Some (wcb x, x1, w1)"
    using assms(6-8) xok by (simp add: udp_txn_loop send_loop_once x1_def w1_def)
  have tx: "udp_tx n (emit (Refr g) ?w0) = Some (wcb x, n2, w2)"
    using assms(5) pos p1 by (simp add: udp_tx_def fifo_top_def txn Let_def n1_def)
  have e0: "fifo_pop False n2 w2 = (0, None, n2, w2)" using 2 by (simp add: fifo_pop_def)
  have "hld n2 = g" using 2 n1f assms(3) by auto
  then have e: "i_wp_exec ?t ?w0 = Some (wcb x, objdefr g (put_ncb g n2 w2))"
    using assms(1,2) tx pos by (simp add: i_wp_exec_def objrefr_def call_write_def e0)
  let ?w3 = "objdefr g (put_ncb g n2 w2)"
  have p3: "pools ?w3 h = Some ?p" using 2 by (simp add: objdefr_def put_ncb_def w1_def)
  then have g3: "i_wp_get_task h ?w3 = Some (None, ?w3)" by (simp add: i_wp_get_task_def)
  have "wp_drain h w = Some ?w3"
    using assms(11) pos
    by (subst wp_drain.simps, simp add: g1 e) (subst wp_drain.simps, simp add: g3)
  then show ?thesis using 2 p3 by (auto simp: objdefr_def put_ncb_def w1_def)
qed

theorem udp_task_leaks_witness:
  "\<exists>w' p'. wp_drain 3 ((udp_world0 [node0 [1, 2]] [KRet 1472])
      \<lparr>pools := [3 \<mapsto> \<lparr>tasks = [\<lparr>task_hld = 5, task_thread = 3\<rparr>], task_list_size = 1, wp_actived = True\<rparr>]\<rparr>)
    = Some w' \<and> pools w' 3 = Some p' \<and> tasks p' = [] \<and> heap w' = -2"
proof -
  have ok: "tx_ok (link_ncb0 [node0 [1, 2]])" by (rule link_ncb0_ok) (simp_all add: node0_simps)
  let ?p = "\<lparr>tasks = [\<lparr>task_hld = 5, task_thread = 3\<rparr>], task_list_size = 1, wp_actived = True\<rparr>"
  let ?w = "(udp_world0 [node0 [1, 2]] [KRet 1472])\<lparr>pools := [3 \<mapsto> ?p]\<rparr>"
  from udp_task_leaks [of ?w 5 "(link_ncb0 [node0 [1, 2]])\<lparr>protocol := IPPROTO_UDP, ncb_read := Some R_udp_rx,
     ncb_write := Some W_udp_tx\<rparr>" "node0 [1, 2]" 1472 "[]" 3 ?p] ok
  show ?thesis
    by (auto simp: link_ncb0_simps node0_simps udp_world0_simps tx_ok_def fifo_ok_def nodes_ok_def)
qed

end
