(* ===== verification/Datagrams.thy ===== *)
theory Datagrams
  imports Sending Arp Udp
begin

text \<open>
  Properties of UDP and ARP links: what their events deliver to the user, what a datagram without
  bytes does, and the frames that an ARP link sends and reads.
\<close>

section \<open>An event on a link\<close>

text \<open>One readable event, reduced to the read routine of the link.\<close>

lemma readable_event:
  assumes "objs w g = Some n" "ncb_read n = Some f" "call_read f n (emit (Refr g) w) = Some (r, n', w')"
  shows "i_iorun [(g, EPOLLIN)] w = Some (emit (Defr g) (put_ncb g n' (if r < 0 then objclos (hld n') w' else w')))"
  using assms by (simp add: objrefr_def objdefr_def)

lemma udp_rx_stop:
  assumes "udp_ready n w"
  shows "k_recv w = RxErr EAGAIN # ks \<Longrightarrow> \<exists>n' w'. udp_rx n w = Some (EAGAIN, n', w') \<and> trace w' = trace w
      \<and> hld n' = hld n"
    and "k_recv w = RxData [] a # ks \<Longrightarrow> \<exists>n' w'. udp_rx n w = Some (-1, n', w') \<and> trace w' = trace w
      \<and> hld n' = hld n"
proof -
  from assms obtain pk where pk: "packet n = Some pk" by (auto simp: udp_ready_def split: option.splits)
  show "\<exists>n' w'. udp_rx n w = Some (EAGAIN, n', w') \<and> trace w' = trace w \<and> hld n' = hld n"
    if "k_recv w = RxErr EAGAIN # ks"
    using that by (subst udp_rx.simps) (simp add: i_udp_rx_def pk recv_call_def buf_put_def)
  show "\<exists>n' w'. udp_rx n w = Some (-1, n', w') \<and> trace w' = trace w \<and> hld n' = hld n"
    if "k_recv w = RxData [] a # ks"
    using that by (subst udp_rx.simps) (simp add: i_udp_rx_def pk recv_call_def buf_put_def)
qed

lemma udp_event_run:
  assumes "objs w g = Some n" "ncb_read n = Some R_udp_rx" "hld n = g" "udp_ready n w"
    and "k_recv w = map (\<lambda>(d, a). RxData d a) ds @ ks" "\<forall>(d, a) \<in> set ds. d \<noteq> []"
    and stop: "\<And>n v. udp_ready n v \<Longrightarrow> k_recv v = ks \<Longrightarrow>
       \<exists>n' v'. udp_rx n v = Some (r, n', v') \<and> trace v' = trace v \<and> hld n' = hld n"
  shows "\<exists>w'. i_iorun [(g, EPOLLIN)] w = Some w'
    \<and> trace w' = trace w @ [Refr g] @ concat (map (udp_event n w) ds) @ (if r < 0 then [Clos g] else []) @ [Defr g]"
proof -
  let ?w = "emit (Refr g) w"
  have "udp_ready n ?w" "k_recv ?w = map (\<lambda>(d, a). RxData d a) ds @ ks" using assms(4,5)
    by (simp_all add: udp_ready_def split: option.splits)
  from udp_rx_all [OF this assms(6)] obtain n1 w1 where 1: "udp_rx n ?w = udp_rx n1 w1"
    "udp_pending n ?w ks (n1, w1) []" "trace w1 = trace ?w @ concat (map (udp_event n ?w) ds)" by blast
  have ev: "udp_event n ?w = udp_event n w" by (simp add: udp_event_def fun_eq_iff split: option.split)
  from 1(2) have p: "udp_ready n1 w1" "k_recv w1 = ks" "n1 = n\<lparr>packet := packet n1\<rparr>"
    by (auto simp: udp_pending_def)
  have "hld n1 = g" using assms(3) by (subst p(3)) simp
  with stop [OF p(1,2)] 1(1) obtain n2 w2 where 2: "udp_rx n ?w = Some (r, n2, w2)" "trace w2 = trace w1" "hld n2 = g"
    by auto
  then have "call_read R_udp_rx n ?w = Some (r, n2, w2)" by (simp add: call_read_def)
  from readable_event [OF assms(1,2) this] show ?thesis
    using 1(3) 2 unfolding ev by (simp add: objclos_def put_ncb_def)
qed

section \<open>Datagrams\<close>

text \<open>C17: a readable event on a UDP link posts one event for each datagram the kernel has, in their
  order, with the sender's address and port, and cut to the size of the receive buffer.\<close>

theorem udp_event_delivers:
  assumes "objs w g = Some n" and "ncb_read n = Some R_udp_rx" and "hld n = g" and "udp_ready n w"
    and "k_recv w = map (\<lambda>(d, a). RxData d a) ds @ RxErr EAGAIN # ks" and "\<forall>(d, a) \<in> set ds. d \<noteq> []"
  shows "\<exists>w'. i_iorun [(g, EPOLLIN)] w = Some w'
    \<and> trace w' = trace w @ [Refr g] @ concat (map (udp_event n w) ds) @ [Defr g]"
  using udp_event_run [OF assms(1-6), of EAGAIN] udp_rx_stop(1) by auto

definition udp_reader :: "rxans list \<Rightarrow> world" where
  "udp_reader ks = (udp_world0 [] [])\<lparr>objs := [5 \<mapsto> (link_ncb0 [])\<lparr>protocol := IPPROTO_UDP,
     ncb_read := Some R_udp_rx, ncb_write := Some W_udp_tx, packet := Some (replicate 1472 0)\<rparr>], k_recv := ks\<rparr>"

lemma udp_reader_simps:
  "objs (udp_reader ks) 5 = Some ((link_ncb0 [])\<lparr>protocol := IPPROTO_UDP, ncb_read := Some R_udp_rx,
     ncb_write := Some W_udp_tx, packet := Some (replicate 1472 0)\<rparr>)"
  "k_recv (udp_reader ks) = ks" "trace (udp_reader ks) = []" "env (udp_reader ks) = env0"
  by (simp_all add: udp_reader_def udp_world0_def link_world0_simps)

theorem udp_event_delivers_witness:
  "\<exists>w'. i_iorun [(5, EPOLLIN)] (udp_reader [RxData [1, 2] \<lparr>sin_addr = 7, sin_port = 256\<rparr>,
        RxData [3] \<lparr>sin_addr = 8, sin_port = 512\<rparr>, RxErr EAGAIN]) = Some w'
    \<and> trace w' = [Refr 5, Post 1 (EVT_UDP_RECEIVEDATA 5 [1, 2] 7 (htons 256)),
        Post 1 (EVT_UDP_RECEIVEDATA 5 [3] 8 (htons 512)), Defr 5]"
proof -
  let ?a = "\<lparr>sin_addr = 7, sin_port = 256\<rparr>" and ?b = "\<lparr>sin_addr = 8, sin_port = 512\<rparr>"
  let ?w = "udp_reader [RxData [1, 2] ?a, RxData [3] ?b, RxErr EAGAIN]"
  from udp_event_delivers [of ?w 5 _ "[([1, 2], ?a), ([3], ?b)]" "[]", OF udp_reader_simps(1)]
  show ?thesis
    by (simp add: udp_reader_simps link_ncb0_simps udp_ready_def env0_def udp_event_def)
qed

text \<open>C28: a datagram without bytes closes the link: the zero that \<open>recvfrom\<close> answers is taken for the
  end of a stream. The datagrams before it are delivered; those behind it are not read.\<close>

theorem udp_empty_closes:
  assumes "objs w g = Some n" and "ncb_read n = Some R_udp_rx" and "hld n = g" and "udp_ready n w"
    and "k_recv w = map (\<lambda>(d, a). RxData d a) ds @ RxData [] a # ks" and "\<forall>(d, a) \<in> set ds. d \<noteq> []"
  shows "\<exists>w'. i_iorun [(g, EPOLLIN)] w = Some w'
    \<and> trace w' = trace w @ [Refr g] @ concat (map (udp_event n w) ds) @ [Clos g, Defr g]"
  using udp_event_run [OF assms(1-6), of "-1"] udp_rx_stop(2) by auto

theorem udp_empty_closes_witness:
  "\<exists>w'. i_iorun [(5, EPOLLIN)] (udp_reader [RxData [] \<lparr>sin_addr = 7, sin_port = 256\<rparr>,
        RxData [3] \<lparr>sin_addr = 8, sin_port = 512\<rparr>]) = Some w' \<and> trace w' = [Refr 5, Clos 5, Defr 5]"
proof -
  let ?a = "\<lparr>sin_addr = 7, sin_port = 256\<rparr>" and ?b = "\<lparr>sin_addr = 8, sin_port = 512\<rparr>"
  let ?w = "udp_reader [RxData [] ?a, RxData [3] ?b]"
  from udp_empty_closes [of ?w 5 _ "[]" ?a "[RxData [3] ?b]", OF udp_reader_simps(1)]
  show ?thesis
    by (simp add: udp_reader_simps link_ncb0_simps udp_ready_def env0_def)
qed

section \<open>Frames\<close>

text \<open>C18: a readable event on an ARP link posts one event for each reply among the frames that the
  kernel has, in their order, with the two addresses in host order. Frames that are shorter than
  the smallest frame, of another type, or requests, are passed over.\<close>

theorem arp_event_delivers:
  assumes "objs w g = Some n" and "ncb_read n = Some R_arp_rx" and "hld n = g" and "arp_ready n"
    and "k_recv w = map (\<lambda>(d, a). RxData d a) fs @ RxErr EAGAIN # ks" and "\<forall>(d, a) \<in> set fs. d \<noteq> []"
  shows "\<exists>w'. i_iorun [(g, EPOLLIN)] w = Some w'
    \<and> trace w' = trace w @ [Refr g] @ concat (map (arp_event n o fst) fs) @ [Defr g]"
proof -
  let ?w = "emit (Refr g) w"
  have "k_recv ?w = map (\<lambda>(d, a). RxData d a) fs @ RxErr EAGAIN # ks" using assms(5) by simp
  from arp_rx_all [OF assms(4) this assms(6)] obtain n1 w1 where 1: "arp_rx n ?w = arp_rx n1 w1"
    "arp_pending n (RxErr EAGAIN # ks) (n1, w1) []" "trace w1 = trace ?w @ concat (map (arp_event n o fst) fs)"
    by blast
  from 1(2) obtain pk where pk: "packet n1 = Some pk" "k_recv w1 = RxErr EAGAIN # ks"
    by (auto simp: arp_pending_def arp_ready_def split: option.splits)
  have "\<exists>n2 w2. arp_rx n1 w1 = Some (EAGAIN, n2, w2) \<and> trace w2 = trace w1"
    by (subst arp_rx.simps) (simp add: pk i_arp_rx_def recv_call_def buf_put_def)
  then obtain n2 w2 where 2: "arp_rx n1 w1 = Some (EAGAIN, n2, w2)" "trace w2 = trace w1" by blast
  with 1(1) have "call_read R_arp_rx n ?w = Some (EAGAIN, n2, w2)" by (simp add: call_read_def)
  from readable_event [OF assms(1,2) this] show ?thesis
    using 1(3) 2 by (simp add: put_ncb_def)
qed

text \<open>A request and then a reply, as they lie on the wire.\<close>

definition arp_reply0 :: Address_Resolution_Protocol where
  "arp_reply0 = \<lparr>Arp_Hardware_Type = htons 1, Arp_Protocol_Type = htons 0x0800, Arp_Hardware_Size = 6,
     Arp_Protocol_Size = 4, Arp_Op_Code = htons ARP_OP_REPLY, Arp_Sender_Mac = replicate 6 1, Arp_Sender_Ip = htonl 9,
     Arp_Target_Mac = replicate 6 2, Arp_Target_Ip = htonl 8\<rparr>"

definition arp_eth0 :: Ethernet_Head where
  "arp_eth0 = \<lparr>Eth_Dest_Mac = replicate 6 2, Eth_Srce_Mac = replicate 6 1, Eth_Layer_Type = htons ETHERTYPE_ARP\<rparr>"

definition arp_link0 :: "rxans list \<Rightarrow> world" where
  "arp_link0 ks = (udp_reader ks)\<lparr>objs := [5 \<mapsto> (link_ncb0 [])\<lparr>protocol := ETH_P_ARP, ncb_read := Some R_arp_rx,
     ncb_write := Some W_arp_tx, packet := Some (replicate 60 0), arp_source_phyaddr := replicate 6 3,
     arp_source := 4, arp_ifindex := 2\<rparr>]\<rparr>"

lemma arp_link0_simps:
  "objs (arp_link0 ks) 5 = Some ((link_ncb0 [])\<lparr>protocol := ETH_P_ARP, ncb_read := Some R_arp_rx,
     ncb_write := Some W_arp_tx, packet := Some (replicate 60 0), arp_source_phyaddr := replicate 6 3,
     arp_source := 4, arp_ifindex := 2\<rparr>)"
  "k_recv (arp_link0 ks) = ks" "trace (arp_link0 ks) = []" "k_fail (arp_link0 ks) = (\<lambda>_. [])" "heap (arp_link0 ks) = 0"
  by (simp_all add: arp_link0_def udp_reader_simps)
    (simp_all add: udp_reader_def udp_world0_simps)

theorem arp_event_delivers_witness:
  "\<exists>w'. i_iorun [(5, EPOLLIN)] (arp_link0
        [RxData (frame_of arp_eth0 (arp_reply0\<lparr>Arp_Op_Code := htons ARP_OP_REQ\<rparr>) (replicate 18 0)) sockaddr_zero,
         RxData (frame_of arp_eth0 arp_reply0 (replicate 18 0)) sockaddr_zero, RxErr EAGAIN]) = Some w'
    \<and> trace w' = [Refr 5, Post 1 (EVT_ARP_RECEIVEDATA 5
        (arp_reply0\<lparr>Arp_Sender_Ip := htonl (htonl 9), Arp_Target_Ip := htonl (htonl 8)\<rparr>)), Defr 5]"
proof -
  let ?q = "arp_reply0\<lparr>Arp_Op_Code := htons ARP_OP_REQ\<rparr>"
  let ?f = "\<lambda>a. frame_of arp_eth0 a (replicate 18 0)"
  have ok: "frame_ok arp_eth0 ?q (replicate 18 0)" "frame_ok arp_eth0 arp_reply0 (replicate 18 0)"
    by (simp_all add: frame_ok_def macs_ok_def arp_eth0_def arp_reply0_def)
  have ne: "?f ?q \<noteq> []" "?f arp_reply0 \<noteq> []" by (simp_all add: frame_of_def eth_bytes_def arp_eth0_def)
  have op: "htons 1 \<noteq> htons 2" by (simp add: htons_def)
  have rep: "arp_reply (?f ?q) = None" "arp_reply (?f arp_reply0)
      = Some (arp_reply0\<lparr>Arp_Sender_Ip := htonl (htonl 9), Arp_Target_Ip := htonl (htonl 8)\<rparr>)"
    using op by (simp_all add: arp_reply_frame [OF ok(1)] arp_reply_frame [OF ok(2)])
      (simp_all add: arp_reply0_def arp_eth0_def)
  let ?w = "arp_link0 [RxData (?f ?q) sockaddr_zero, RxData (?f arp_reply0) sockaddr_zero, RxErr EAGAIN]"
  from arp_event_delivers [of ?w 5 _ "[(?f ?q, sockaddr_zero), (?f arp_reply0, sockaddr_zero)]" "[]", OF arp_link0_simps(1)]
  show ?thesis
    using ne by (simp add: arp_link0_simps link_ncb0_simps arp_ready_def NIS_P_ARP_SIZE_def arp_event_def rep)
qed

text \<open>Reading a packed structure and writing it again gives the bytes back.\<close>

lemma bit_byte [simp]: "\<not> bit (x :: byte) (8 + n)" "\<not> bit (x :: byte) (16 + n)" "\<not> bit (x :: byte) (24 + n)"
  by (auto dest!: bit_imp_le_length)

lemma bytes16_word16: "2 \<le> length b \<Longrightarrow> bytes16 (word16_of b) = take 2 b"
proof -
  have "bytes16 (word16_of (x # y # r)) = [x, y]" for x y r
    unfolding word16_of_def bytes16_def
    by (auto intro!: bit_word_eqI simp: bit_simps)
  then show "2 \<le> length b \<Longrightarrow> bytes16 (word16_of b) = take 2 b"
    by (cases b; cases "tl b") auto
qed

lemma bytes32_word32: "4 \<le> length b \<Longrightarrow> bytes32 (word32_of b) = take 4 b"
proof -
  have w: "bytes32 (word32_of (x # y # z # v # r)) = [x, y, z, v]" for x y z v r
    unfolding word32_of_def bytes32_def
    by (auto intro!: bit_word_eqI simp: bit_simps)
  assume "4 \<le> length b"
  then obtain x y z v r where "b = x # y # z # v # r"
    by (auto simp: numeral_eq_Suc Suc_le_length_iff)
  with w show ?thesis by simp
qed

lemma arp_bytes_of:
  assumes "length b = 28"
  shows "arp_bytes (arp_of b) = b"
proof -
  have c: "X = drop j b \<Longrightarrow> j = m + k \<Longrightarrow> take k (drop m b) @ X = drop m b" for m k j X
    by (metis append_take_drop_id drop_drop add.commute)
  have s: "[b ! 4, b ! 5] = take 2 (drop 4 b)"
    using assms by (simp add: take_Suc_conv_app_nth numeral_eq_Suc)
  have "arp_bytes (arp_of b) = take 2 (drop 0 b) @ take 2 (drop 2 b) @ take 2 (drop 4 b) @ take 2 (drop 6 b)
      @ take 6 (drop 8 b) @ take 4 (drop 14 b) @ take 6 (drop 18 b) @ take 4 (drop 24 b)"
    using assms by (simp add: arp_bytes_def arp_of_def bytes16_word16 bytes32_word32 s [symmetric])
  also have "\<dots> = drop 0 b"
    by (rule c, rule c, rule c, rule c, rule c, rule c, rule c) (use assms in simp_all)
  finally show ?thesis by simp
qed



text \<open>C32: a request on an idle ARP link is one frame to every host of the interface, with the addresses
  of the link as sender and the wanted address as target; the user gets the size of the frame and
  everything allocated is freed. The 18 bytes behind the structures are sent as the allocator left them.\<close>

theorem arp_request_frame:
  assumes "0 \<le> g" and "objs w g = Some n" and "protocol n = ETH_P_ARP" and "fifo_ok n" and "fhead (fifo n) = []"
    and "length (arp_source_phyaddr n) = 6" and "k_fail w SYS_malloc = []"
    and "k_send w = KRet m # ks" and "60 \<le> m"
  shows "\<exists>w'. arp_nrequest g target w = Some (60, w') \<and> heap w' = heap w
    \<and> trace w' = trace w @ [Refr g, SendtoLl (sockfd n)
        (frame_of (request_eth n) (request_arp n target) (replicate 18 (junk w)))
        \<lparr>sll_family = PF_PACKET, sll_ifindex = arp_ifindex n\<rparr>, Defr g]"
proof -
  let ?f = "frame_of (request_eth n) (request_arp n target) (replicate 18 (junk w))"
  let ?x = "tx_node_zero\<lparr>data := ?f, wcb := 60, offset := 0,
     arp_target := \<lparr>sll_family = PF_PACKET, sll_ifindex = arp_ifindex n\<rparr>\<rparr>"
  let ?w = "(emit (Refr g) w)\<lparr>heap := heap w + 1\<rparr>"
  have ok: "frame_ok (request_eth n) (request_arp n target) (replicate 18 (junk w))"
    using assms(6) by (simp add: frame_ok_def macs_ok_def request_eth_def request_arp_def BOARDCAST_PHYADDR_def)
  note l = length_frame [OF ok]
  have le: "length (eth_bytes (request_eth n)) = 14" "length (arp_bytes (request_arp n target)) = 28"
    using ok by (simp_all add: frame_ok_def length_arp_bytes eth_bytes_def)
  have node: "node_ok ?x" "node_rest ?x = ?f" "offset ?x < wcb ?x" "arp_target ?x = \<lparr>sll_family = PF_PACKET, sll_ifindex = arp_ifindex n\<rparr>"
    using l by (simp_all add: node_ok_def node_rest_def tx_node_zero_def)
  have idle: "fifo_is_blocking n = 0" using assms(4,5) by (simp add: fifo_is_blocking_def fifo_ok_def)
  let ?b = "eth_bytes (request_eth n) @ replicate 46 (junk w)"
  have put: "buf_put (replicate 60 (junk w)) 0 (eth_bytes (request_eth n)) = Some ?b"
    "buf_put ?b 14 (arp_bytes (request_arp n target)) = Some ?f"
    using le by (simp_all add: buf_put_def frame_of_def)
  have m: "malloc k v = (Some (replicate (nat k) (junk v)), v\<lparr>heap := heap v + 1\<rparr>)" if "k_fail v SYS_malloc = []" for k v
    using that by (simp add: malloc_def simple_call_ok)
  have "arp_txn n ?x (?w\<lparr>heap := 2 + heap w\<rparr>) = Some (60, ?x\<lparr>offset := 60\<rparr>,
      emit (SendtoLl (sockfd n) ?f (arp_target ?x)) (?w\<lparr>heap := 2 + heap w, k_send := ks\<rparr>))"
    using send_loop_once [OF node(1,3), of "?w\<lparr>heap := 2 + heap w\<rparr>" m ks "\<lambda>bs. SendtoLl (sockfd n) bs (arp_target ?x)"] assms(8,9) node(2)
    by (simp add: arp_txn_loop)
  then have "arp_nrequest_body target n (emit (Refr g) w) = Some (60, n,
      emit (SendtoLl (sockfd n) ?f (arp_target ?x)) (emit (Refr g) w\<lparr>k_send := ks\<rparr>))"
    using assms(7) idle put by (simp add: arp_nrequest_body_def m NIS_P_ARP_SIZE_def write_node_def free_def)
  from arp_r.entered [where body = "arp_nrequest_body target", OF assms(1-3) this] show ?thesis
    by (auto simp: arp_nrequest_def put_ncb_def)
qed

theorem arp_request_frame_witness:
  "\<exists>w'. arp_nrequest 5 9 ((arp_link0 [])\<lparr>k_send := [KRet 60], junk := 77\<rparr>) = Some (60, w')
    \<and> trace w' = [Refr 5, SendtoLl 9 (replicate 6 255 @ replicate 6 3 @ [8, 6] @ [0, 1, 8, 0, 6, 4, 0, 1]
         @ replicate 6 3 @ [4, 0, 0, 0] @ replicate 6 255 @ [9, 0, 0, 0] @ replicate 18 77)
         \<lparr>sll_family = 17, sll_ifindex = 2\<rparr>, Defr 5]"
proof -
  let ?w = "(arp_link0 [])\<lparr>k_send := [KRet 60], junk := 77\<rparr>"
  have n: "objs ?w 5 = Some ((link_ncb0 [])\<lparr>protocol := ETH_P_ARP, ncb_read := Some R_arp_rx,
     ncb_write := Some W_arp_tx, packet := Some (replicate 60 0), arp_source_phyaddr := replicate 6 3,
     arp_source := 4, arp_ifindex := 2\<rparr>)" (is "_ = Some ?n") by (simp add: arp_link0_simps)
  have f: "fifo_ok ?n" using link_ncb0_ok [of "[]"] by (simp add: tx_ok_def fifo_ok_def)
  have "frame_of (request_eth ?n) (request_arp ?n 9) p = replicate 6 255 @ replicate 6 3 @ [8, 6] @ [0, 1, 8, 0, 6, 4, 0, 1]
         @ replicate 6 3 @ [4, 0, 0, 0] @ replicate 6 255 @ [9, 0, 0, 0] @ p" for p
    by (simp add: frame_of_def request_eth_def request_arp_def eth_bytes_def arp_bytes_def BOARDCAST_PHYADDR_def
        bytes16_def bytes32_def htons_def)
  with arp_request_frame [OF _ n _ f, of 60 "[]" 9] show ?thesis
    by (auto simp add: arp_link0_simps link_ncb0_simps)
qed

end
