(* ===== verification/Endtoend.thy ===== *)
theory Endtoend
  imports Datagrams
begin

text \<open>
  Two TCP links that are the ends of one connection: one program writes, the other receives, each
  in its own world, and the network carries the bytes that the kernel of the sender has taken to
  the kernel of the receiver, whole or in part, in any pieces. The packets the writer was told are
  accepted are the packets the receiver's callback gets, in order.
\<close>

section \<open>The contract of a template\<close>

text \<open>What the code expects of the two functions the user supplies: the builder writes a head of
  \<open>t_cb\<close> bytes, and the parser reads from it the size that was built in, for all sizes up to
  \<open>M\<close>.\<close>

definition framing :: "int \<Rightarrow> tst \<Rightarrow> bool" where
  "framing M t \<longleftrightarrow> 0 < t_cb t \<and> head_parser t \<and> M \<le> TCP_MAXIMUM_PACKET_SIZE
     \<and> (case (t_builder t, t_parser t) of
          (Some b, Some p) \<Rightarrow> \<forall>cb. 0 < cb \<and> cb \<le> M \<longrightarrow> (\<exists>r hd. b cb = (r, hd) \<and> 0 \<le> r
            \<and> int (length hd) = t_cb t \<and> (\<exists>s. p hd (t_cb t) = (s, cb) \<and> 0 \<le> s))
        | _ \<Rightarrow> False)"

lemma framing_packet:
  assumes f: "framing M (template (tcp n))" and cb: "0 < cb" "cb \<le> M" "cb \<le> int (length origin)"
    and b: "built_packet n w origin cb = Some pkt"
  shows "packet_ok (hlen n) (hsize n) pkt" "template_ok n w"
proof -
  let ?t = "template (tcp n)"
  from f obtain bd p where bp: "t_builder ?t = Some bd" "t_parser ?t = Some p"
    by (auto simp: framing_def split: option.splits)
  with f cb obtain r hd s where h: "bd cb = (r, hd)" "int (length hd) = t_cb ?t" "p hd (t_cb ?t) = (s, cb)" "0 \<le> s"
    by (auto simp: framing_def)
  have m: "0 < t_cb ?t" "cb \<le> TCP_MAXIMUM_PACKET_SIZE" using f cb by (auto simp: framing_def)
  have pkt: "pkt = hd @ take (nat cb) origin" "attr n AND LINKATTR_TCP_NO_BUILD (env w) = 0"
    using b h(1) bp by (auto simp: built_packet_def split: if_splits)
  have l: "tst_len ?t = length hd" using h(2) by (simp add: tst_len_def flip: h(2))
  show "packet_ok (hlen n) (hsize n) pkt"
    using h m cb bp l by (auto simp: packet_ok_def tst_size_def pkt(1))
  show "template_ok n w" using m bp pkt(2) by (simp add: template_ok_def)
qed

section \<open>An event on the receiving link\<close>

text \<open>What the user is told.\<close>

definition posted :: "world \<Rightarrow> effect list" where
  "posted w = filter is_post (trace w)"

lemma posted_simps [simp]:
  "posted (emit (Refr h) w) = posted w" "posted (emit (Defr h) w) = posted w"
  "posted (put_ncb h n w) = posted w"
  by (simp_all add: posted_def is_post_def emit_def put_ncb_def)

lemma delivered_posted [simp]: "filter is_post (delivered n w f) = delivered n w f"
  by (simp add: delivered_def is_post_def split: option.split)

lemma delivered_concat: "filter is_post (concat (map (delivered n w) fs)) = concat (map (delivered n w) fs)"
  by (induction fs) auto

text \<open>A link that receives: the invariant of the runs below.\<close>

definition receiving :: "objhld \<Rightarrow> tst \<Rightarrow> (byte list \<Rightarrow> effect list) \<Rightarrow> byte list \<Rightarrow> world \<Rightarrow> bool" where
  "receiving h t d held v \<longleftrightarrow> (case objs v h of None \<Rightarrow> False | Some m \<Rightarrow>
     ncb_read m = Some R_tcp_rx \<and> rx_ready m v \<and> template (tcp m) = t \<and> delivered m v = d
     \<and> rx_pending m = held)"

lemma receiving_recv: "receiving h t d held v \<Longrightarrow> receiving h t d held (v\<lparr>k_recv := ks\<rparr>)"
  using delivered_env [of "v\<lparr>k_recv := ks\<rparr>" v]
  by (auto simp: receiving_def rx_ready_def split: option.splits)

lemma receive_event:
  assumes v: "receiving h t d held v" and a: "arriving cs (k_recv v)"
    and wh: "whole_heads (tst_len t) (tst_size t) held cs"
    and df: "deframe (tst_len t) (tst_size t) (held @ concat cs) = (fs, rest, True)"
  shows "\<exists>v'. i_iorun [(h, EPOLLIN)] v = Some v' \<and> receiving h t d rest v'
    \<and> posted v' = posted v @ concat (map d fs)"
proof -
  from v obtain m where m: "objs v h = Some m" "ncb_read m = Some R_tcp_rx" "rx_ready m v"
    "template (tcp m) = t" "delivered m v = d" "rx_pending m = held"
    by (auto simp: receiving_def split: option.splits)
  let ?v = "emit (Refr h) v"
  have r: "rx_ready m ?v" "arriving cs (k_recv ?v)" "delivered m ?v = d"
    using m(3,5) a delivered_env [of ?v v m] by (simp_all add: rx_ready_def)
  from rx_stream [OF r(1,2)] m(4,6) wh df obtain m' v' where
    x: "tcp_rx m ?v = Some (EAGAIN, m', v')" "trace v' = trace ?v @ concat (map d fs)"
      "rx_pending m' = rest" "rx_ready m' v'" "template (tcp m') = t"
    using r(3) by auto
  note f = rx_frameD [OF tcp_rx_frame(1) [OF x(1)]]
  have "m'\<lparr>packet := packet m, tcp := tcp m\<rparr> = m"
    using tcp_rx_frame(1) [OF x(1)] by (simp add: rx_frame_def)
  then have "attr m' = attr m \<and> nis_callback m' = nis_callback m" by (cases m; cases m'; simp)
  with f(3) x(5) m(4) have "delivered m' v = delivered m v"
    by (simp add: delivered_def fully_receive_def fun_eq_iff split: option.split)
  with m(5) delivered_env [of v' v m'] f(13) have d: "delivered m' v' = d" by simp
  let ?e = "emit (Defr h) (put_ncb h m' v')"
  have "call_read R_tcp_rx m ?v = Some (EAGAIN, m', v')" using x(1) by (simp add: call_read_def)
  from readable_event [OF m(1,2) this] have e: "i_iorun [(h, EPOLLIN)] v = Some ?e" by simp
  have "delivered m' ?e = d" using d delivered_env [of ?e v' m'] by (simp add: put_ncb_def)
  then have "receiving h t d rest ?e"
    using x m(2) f(5) by (simp add: receiving_def put_ncb_def rx_ready_def)
  moreover have "posted ?e = posted v @ concat (map d fs)"
    using x(2) by (simp add: posted_def put_ncb_def delivered_concat flip: r(3)) (simp add: is_post_def)
  ultimately show ?thesis using e by blast
qed

section \<open>Runs of a connection\<close>

text \<open>The bytes the kernel has taken from a link.\<close>

definition taken :: "objhld \<Rightarrow> world \<Rightarrow> byte list" where
  "taken g w = (case objs w g of None \<Rightarrow> [] | Some n \<Rightarrow> sent (sockfd n) (trace w))"

lemma taken_out: "\<exists>wait. link_out g w = taken g w @ wait"
  by (simp add: taken_def link_out_def out_stream_def split: option.split)

text \<open>A run of both ends from \<open>w\<close> and \<open>v\<close>, one call at a time: the user of \<open>g\<close> writes, a thread of
  \<open>g\<close> works, or the epoll thread of \<open>h\<close> dispatches a readable event. \<open>ps\<close> are the packets whose
  writes reported success, \<open>got\<close> the bytes that have arrived. The network hands over what the kernel
  of the sender has taken, in order and as far as it likes. A write that fails may leave the front
  part of a packet behind; after it the run ends.\<close>

inductive connection :: "objhld \<Rightarrow> objhld \<Rightarrow> int \<Rightarrow> tst \<Rightarrow> world \<Rightarrow> world
    \<Rightarrow> byte list list \<Rightarrow> byte list \<Rightarrow> world \<Rightarrow> world \<Rightarrow> bool" for g h M t w v where
  start: "connection g h M t w v [] [] w v"
| user: "connection g h M t w v ps got w1 v1 \<Longrightarrow> objs w1 g = Some n \<Longrightarrow> template (tcp n) = t \<Longrightarrow>
     may_write n w1 \<Longrightarrow> k_fail w1 SYS_malloc = [] \<Longrightarrow> 0 < cb \<Longrightarrow> cb \<le> M \<Longrightarrow> cb \<le> int (length origin) \<Longrightarrow>
     built_packet n w1 origin cb = Some pkt \<Longrightarrow>
     tcp_write g (Some origin) cb None w1 = Some (r, w2) \<Longrightarrow> 0 \<le> r \<Longrightarrow>
     connection g h M t w v (ps @ [pkt]) got w2 v1"
| thread: "connection g h M t w v ps got w1 v1 \<Longrightarrow> quiet_step g w1 w2 \<Longrightarrow>
     connection g h M t w v ps got w2 v1"
| receive: "connection g h M t w v ps got w1 v1 \<Longrightarrow> taken g w1 = got @ concat cs @ later \<Longrightarrow>
     arriving cs ks \<Longrightarrow> objs v1 h = Some m \<Longrightarrow> whole_heads (hlen m) (hsize m) (rx_pending m) cs \<Longrightarrow>
     i_iorun [(h, EPOLLIN)] (v1\<lparr>k_recv := ks\<rparr>) = Some v2 \<Longrightarrow>
     connection g h M t w v ps (got @ concat cs) w1 v2"

text \<open>The bytes that arrived are the front of the packets accepted, so cutting them gives the front
  of these packets.\<close>

lemma deframe_front_packets:
  assumes "0 < c" "list_all (packet_ok c sz) ps" "concat ps = got @ later"
  shows "\<exists>fs fs' rest. deframe c sz got = (fs, rest, True) \<and> ps = fs @ fs'"
proof -
  have d: "deframe c sz (concat ps @ []) = (ps, [], True)" by (rule deframe_packets [OF assms(1,2)]) (simp add: assms(1))
  obtain fs rest ok where g: "deframe c sz got = (fs, rest, ok)" by (metis prod_cases3)
  have ok
  proof (rule ccontr)
    assume "\<not> ok"
    with deframe_append_bad [of c sz got fs rest later] g d assms(3) show False by simp
  qed
  moreover obtain fs' r' ok' where "deframe c sz (rest @ later) = (fs', r', ok')" by (metis prod_cases3)
  ultimately show ?thesis using deframe_append [of c sz got fs rest later] g d assms(3) by auto
qed

lemma connection_invariant:
  assumes f: "framing M t" and c: "connection g h M t w v ps got w' v'"
    and i: "link_inv g w" "link_out g w = []" and rx: "receiving h t d [] v"
  shows "link_inv g w' \<and> link_out g w' = concat ps \<and> list_all (packet_ok (tst_len t) (tst_size t)) ps
    \<and> (\<exists>later. concat ps = got @ later)
    \<and> (\<exists>fs rest. deframe (tst_len t) (tst_size t) got = (fs, rest, True) \<and> receiving h t d rest v'
         \<and> posted v' = posted v @ concat (map d fs))"
  using c
proof induction
  case start
  have "0 < tst_len t" using f by (simp add: framing_def tst_len_def)
  then have "deframe (tst_len t) (tst_size t) [] = ([], [], True)"
    by (simp add: deframe_front front_of_def)
  with i rx show ?case by simp
next
  case (user ps got w1 v1 n cb origin pkt r w2)
  have l: "link_inv g w1" and s: "link_out g w1 = concat ps"
    and po: "list_all (packet_ok (tst_len t) (tst_size t)) ps" and "\<exists>later. concat ps = got @ later"
    using user.IH by auto
  have p: "packet_ok (tst_len t) (tst_size t) pkt" "template_ok n w1"
    using framing_packet [of M n cb origin w1 pkt] f user.hyps by simp_all
  have c: "cb \<le> TCP_MAXIMUM_PACKET_SIZE" "0 \<le> t_cb (template (tcp n))"
    using f user.hyps by (auto simp: framing_def)
  from write_exact [OF l user.hyps(4,2) c(2) user.hyps(9,6,8) c(1) user.hyps(5,10)] user.hyps(11) s
  have "link_out g w2 = concat ps @ pkt" by auto
  moreover have "link_inv g w2"
    using write_grows [OF l user.hyps(2) p(2) user.hyps(10,6) c(1)] by (auto simp: grows_def adds_def)
  ultimately show ?case using user.IH p(1) by auto
next
  case (thread ps got w1 v1 w2)
  then show ?case using quiet_adds [of g w1 w2] by (auto simp: adds_def)
next
  case (receive ps got w1 v1 cs rest0 ks m v2)
  let ?v = "v1\<lparr>k_recv := ks\<rparr>"
  have h: "0 < tst_len t" using f by (simp add: framing_def tst_len_def)
  from receive.IH obtain fs rest where l: "link_inv g w1" "link_out g w1 = concat ps"
    and po: "list_all (packet_ok (tst_len t) (tst_size t)) ps"
    and g: "deframe (tst_len t) (tst_size t) got = (fs, rest, True)" "receiving h t d rest v1"
      "posted v1 = posted v @ concat (map d fs)" by auto
  obtain wait where "link_out g w1 = taken g w1 @ wait" using taken_out by blast
  then have more: "concat ps = (got @ concat cs) @ rest0 @ wait" using l(2) receive.hyps(2) by simp
  from deframe_front_packets [OF h po more] obtain fs1 rest1 where
    d1: "deframe (tst_len t) (tst_size t) (got @ concat cs) = (fs1, rest1, True)" by blast
  obtain fs2 where d2: "deframe (tst_len t) (tst_size t) (rest @ concat cs) = (fs2, rest1, True)" "fs1 = fs @ fs2"
    using deframe_append [OF g(1), of "concat cs"] d1 by (auto split: prod.splits)
  have v: "receiving h t d rest ?v" by (rule receiving_recv [OF g(2)])
  have "hlen m = tst_len t" "hsize m = tst_size t" "rx_pending m = rest"
    using g(2) receive.hyps(4) by (auto simp: receiving_def)
  with receive.hyps(3,5) have "arriving cs (k_recv ?v)" "whole_heads (tst_len t) (tst_size t) rest cs" by simp_all
  from receive_event [OF v this d2(1)] receive.hyps(6)
  have "receiving h t d rest1 v2" "posted v2 = posted ?v @ concat (map d fs2)" by auto
  then have "posted v2 = posted v @ concat (map d fs1)" using g(3) d2(2) by (simp add: posted_def)
  with l po more d1 \<open>receiving h t d rest1 v2\<close> show ?case by auto
qed

lemma connection_delivers:
  assumes "framing M t" and "link_inv g w" and "link_out g w = []"
    and "receiving h t d [] v" and "connection g h M t w v ps got w' v'"
  shows "\<exists>fs later. ps = fs @ later \<and> posted v' = posted v @ concat (map d fs)
    \<and> (got = concat ps \<longrightarrow> later = []) \<and> receiving h t d (drop (length (concat fs)) got) v'"
proof -
  let ?c = "tst_len t" and ?z = "tst_size t"
  have h: "0 < ?c" using assms(1) by (simp add: framing_def tst_len_def)
  from connection_invariant [OF assms(1,5,2,3,4)] obtain more fs rest where
    po: "list_all (packet_ok ?c ?z) ps" "concat ps = got @ more"
    and g: "deframe ?c ?z got = (fs, rest, True)" "receiving h t d rest v'"
      "posted v' = posted v @ concat (map d fs)" by auto
  from deframe_front_packets [OF h po] g(1) obtain fs' where ps: "ps = fs @ fs'" by auto
  have "fs' = []" if "got = concat ps"
    using that deframe_packets [OF h po(1), of "[]"] h g(1) ps by simp
  moreover have "drop (length (concat fs)) got = rest"
    using deframe_concat [OF g(1)] by (metis append_eq_conv_conj)
  ultimately show ?thesis using ps g(2,3) by blast
qed

text \<open>A write that nothing stands against comes to \<open>write_node\<close> with the whole packet. On an idle link
  whose kernel has room it sends the packet at once; where the kernel is full the packet waits.\<close>

lemma write_reaches_node:
  assumes i: "link_inv g w" and n: "objs w g = Some n"
    and b: "built_packet n w origin cb = Some pkt" "0 < cb" "cb \<le> int (length origin)" "cb \<le> TCP_MAXIMUM_PACKET_SIZE"
    and k: "k_fail w SYS_malloc = []" "k_tcpinfo w = Some TCP_ESTABLISHED # is"
  shows "tcp_write g (Some origin) cb None w =
    Option.bind (write_node tcp_txn n (tx_node_zero\<lparr>data := pkt, wcb := int (length pkt), offset := 0\<rparr>)
        ((emit (Refr g) w)\<lparr>k_tcpinfo := is, heap := heap w + 2\<rparr>))
      (\<lambda>(r, n, w). Some (r, objdefr g (put_ncb g n w)))"
  using i
proof (rule link_invE)
  fix n0
  assume "objs w g = Some n0" and l0: "0 \<le> g" "protocol n0 = IPPROTO_TCP" "ncb_read n0 = Some R_tcp_rx" "ncb_write n0 = Some W_tcp_tx"
  then have l: "0 \<le> g" "protocol n = IPPROTO_TCP" "ncb_read n = Some R_tcp_rx" "ncb_write n = Some W_tcp_tx"
    using n by simp_all
  let ?w1 = "(emit (Refr g) w)\<lparr>k_tcpinfo := is\<rparr>"
  have b1: "built_packet n ?w1 origin cb = Some pkt" "k_fail ?w1 SYS_malloc = []"
    using b(1) k(1) built_packet_env [of ?w1 w n] by simp_all
  have mp: "tcp_make_packet n origin cb None ?w1 = Some (0, Some pkt, ?w1\<lparr>heap := heap ?w1 + 1\<rparr>)"
    and len: "cb + t_cb (template (tcp n)) = int (length pkt)"
    using make_packet [OF b1(1) b(2,3) b1(2)] by simp_all
  have r: "i_tcprefr g w = (0, Some n, emit (Refr g) w)" by (rule tcp_r.good [OF l(1) n l(2)])
  show ?thesis
    using l(1,3,4) b(2,4) k(2)
    by (simp add: tcp_write_def with_link_def r tcp_write_body_def tcp_save_info_def mp malloc_ok k(1) len add.assoc)
qed

text \<open>The node of a packet that is not empty.\<close>

lemma packet_node:
  assumes "pkt \<noteq> []" and "x = tx_node_zero\<lparr>data := pkt, wcb := int (length pkt), offset := 0\<rparr>"
  shows "node_ok x" "node_rest x = pkt" "offset x < wcb x" "wcb x = int (length pkt)" "wcb x - offset x = int (length pkt)"
  using assms by (simp_all add: node_ok_def node_rest_def tx_node_zero_def)

lemma idle_not_blocking: "tx_ok n \<Longrightarrow> fhead (fifo n) = [] \<Longrightarrow> fifo_is_blocking n = 0"
  by (simp add: fifo_is_blocking_def tx_ok_def fifo_ok_def)

lemma link_inv_tx: "link_inv g w \<Longrightarrow> objs w g = Some n \<Longrightarrow> tx_ok n"
  by (simp add: link_inv_def)

lemma write_direct:
  assumes i: "link_inv g w" and n: "objs w g = Some n" "fhead (fifo n) = []" and p: "pkt \<noteq> []"
    and b: "built_packet n w origin cb = Some pkt" "0 < cb" "cb \<le> int (length origin)" "cb \<le> TCP_MAXIMUM_PACKET_SIZE"
    and k: "k_fail w SYS_malloc = []" "k_tcpinfo w = Some TCP_ESTABLISHED # is" "k_send w = KRet m # ks" "int (length pkt) \<le> m"
  shows "\<exists>w'. tcp_write g (Some origin) cb None w = Some (int (length pkt), w') \<and> taken g w' = taken g w @ pkt"
proof -
  let ?x = "tx_node_zero\<lparr>data := pkt, wcb := int (length pkt), offset := 0\<rparr>"
    and ?w = "(emit (Refr g) w)\<lparr>k_tcpinfo := is, heap := heap w + 2\<rparr>"
  note x = packet_node [OF p refl]
  have t: "tcp_txn n ?x ?w = Some (int (length pkt), ?x\<lparr>offset := wcb ?x\<rparr>, emit (Send (sockfd n) pkt) (?w\<lparr>k_send := ks\<rparr>))"
    using send_loop_once [OF x(1,3), of ?w m ks "Send (sockfd n)"] k(3,4) x(2,4,5) by (simp add: tcp_txn_loop)
  have "int (length pkt) \<noteq> - EAGAIN" using p by simp
  then show ?thesis
    using idle_not_blocking [OF link_inv_tx [OF i n(1)] n(2)]
    by (simp add: write_reaches_node [OF i n(1) b k(1,2)] write_node_def t taken_def put_ncb_def objdefr_def free_def n(1))
qed

lemma write_waits:
  assumes i: "link_inv g w" and n: "objs w g = Some n" "fhead (fifo n) = []" and p: "pkt \<noteq> []"
    and b: "built_packet n w origin cb = Some pkt" "0 < cb" "cb \<le> int (length origin)" "cb \<le> TCP_MAXIMUM_PACKET_SIZE"
    and k: "k_fail w = (\<lambda>_. [])" "k_tcpinfo w = Some TCP_ESTABLISHED # is" "k_send w = KErr EAGAIN # ks" "interest n w \<noteq> None"
  shows "\<exists>w' f. tcp_write g (Some origin) cb None w = Some (0, w') \<and> objs w' g = Some (n\<lparr>fifo := f\<rparr>) \<and> pend (fhead f) = pkt
    \<and> (\<forall>fd. sent fd (trace w') = sent fd (trace w))"
proof -
  let ?x = "tx_node_zero\<lparr>data := pkt, wcb := int (length pkt), offset := 0\<rparr>"
    and ?w = "(emit (Refr g) w)\<lparr>k_tcpinfo := is, heap := heap w + 2\<rparr>"
  note x = packet_node [OF p refl]
  let ?v = "?w\<lparr>k_send := ks, errno := EAGAIN\<rparr>"
  have t: "tcp_txn n ?x ?w = Some (- EAGAIN, ?x, ?v)"
    using x(1,3)
  proof (cases rule: send_call_cases [of ?x "Send (sockfd n)" ?w])
    case (err e ks')
    then show ?thesis using k(3) x(3) by (simp add: tcp_txn_loop) (subst send_loop.simps, simp)
  qed (use k(3) in auto)
  have f: "k_fail ?v SYS_epoll_ctl = []" "interest n ?v \<noteq> None" using k(1,4) by (simp_all add: interest_def)
  have q: "fsize (fifo n) = 0" "blocking (fifo n) = 0" using link_inv_tx [OF i n(1)] n(2) by (simp_all add: tx_ok_def fifo_ok_def)
  show ?thesis
    using idle_not_blocking [OF link_inv_tx [OF i n(1)] n(2)] k(1) x(2)
    by (simp add: write_reaches_node [OF i n(1) b _ k(2)] write_node_def t fifo_queue_def q n MAXIMUM_FIFO_SIZE_def
        io_modify_ok [OF f] put_ncb_def objdefr_def Let_def) (rule exI, rule conjI, rule refl, simp)
qed

section \<open>A concrete connection\<close>

lemma framing_tst0: "framing 255 (tst0 1)"
proof -
  have "(of_int cb :: byte) = of_int cb \<and> uint (of_int cb :: byte) = cb" if "0 < cb" "cb \<le> 255" for cb
    using that by (simp add: unsigned_of_int take_bit_int_eq_self)
  then show ?thesis
    using tst0_simps(3) [of 1] by (auto simp: framing_def tst0_def TCP_MAXIMUM_PACKET_SIZE_def)
qed

lemma link_receiving:
  "receiving 5 (tst0 1) (\<lambda>f. [Post 1 (EVT_RECEIVEDATA 5 (drop 2 f))]) [] (link_world0 [] [])"
proof -
  have "rx_ready (rx_ncb0 1 []) (world0\<lparr>k_recv := []\<rparr>)" by (rule rx_ncb0_ready) simp
  moreover have e: "tcp (link_ncb0 []) = tcp (rx_ncb0 1 [])" "packet (link_ncb0 []) = packet (rx_ncb0 1 [])"
    by (simp_all add: link_ncb0_def)
  moreover have p: "ncb_lb_marked (link_ncb0 []) = ncb_lb_marked (rx_ncb0 1 [])"
    "rx_pending (link_ncb0 []) = rx_pending (rx_ncb0 1 [])"
    by (simp_all only: ncb_lb_marked_def rx_pending_def e)
  moreover have "rx_ok (link_ncb0 []) = rx_ok (rx_ncb0 1 [])" by (simp only: rx_ok_def e p)
  ultimately have "rx_ready (link_ncb0 []) (link_world0 [] [])" "rx_pending (link_ncb0 []) = []"
    using rx_ncb0_ready(2) [of "[]" 1] by (simp_all add: rx_ready_def link_world0_simps world0_def)
  then show ?thesis
    by (simp add: receiving_def link_world0_simps link_ncb0_simps delivered_def fully_receive_def
        fun_eq_iff tst0_simps)
qed

text \<open>The sender's kernel takes the packet whole.\<close>

lemma link_world0_direct:
  "\<exists>w'. tcp_write 5 (Some [8]) 1 None (link_world0 [] [KRet 3]) = Some (3, w') \<and> taken 5 w' = [0, 1, 8]"
  using write_direct [of 5 "link_world0 [] [KRet 3]" "link_ncb0 []" "[0, 1, 8]" "[8]" 1 "[Some 1, Some 1]" 3 "[]"]
    link_world0_packet(3) [of "[]" "[KRet 3]"]
  by (simp add: link_world0_inv link_world0_simps link_ncb0_simps TCP_MAXIMUM_PACKET_SIZE_def taken_def tst0_def)

section \<open>The property\<close>



end
