(* ===== verification/Accept.thy ===== *)
theory Accept
  imports Stream
begin

text \<open>
  Accepting: what the accept loop of a listening link does with the connections that wait. The
  object manager hands out a fresh handle for each, and each becomes a link that reads and writes
  before the user hears of it.
\<close>

section \<open>Runs without failures\<close>

text \<open>Where no simple call fails, joining an epoll instance and setting options are computed.\<close>

definition quiet :: "world \<Rightarrow> bool" where
  "quiet w \<longleftrightarrow> k_fail w = (\<lambda>_. [])"

lemma quiet_call [simp]: "quiet w \<Longrightarrow> simple_call s w = (0, w)"
  by (simp add: quiet_def simple_call_ok)

lemma quiet_setsockopt: "quiet w \<Longrightarrow> \<exists>s. setsockopt fd opt v w = (0, w\<lparr>sockopts := s\<rparr>)"
  by (auto simp: setsockopt_def)

lemma quiet_malloc: "quiet w \<Longrightarrow> malloc k w = (Some (replicate (nat k) (junk w)), w\<lparr>heap := heap w + 1\<rparr>)"
  by (simp add: malloc_def)

lemma quiet_getname: "\<exists>b ns. getname a w = (b, w\<lparr>k_names := ns\<rparr>)"
  by (cases "k_names w"; cases w) (auto simp: getname_def)

lemma quiet_opts:
  assumes "quiet w"
  shows "\<exists>s. tcp_update_opts n w = w\<lparr>sockopts := s\<rparr>"
proof -
  have q: "quiet (w\<lparr>sockopts := s\<rparr>)" for s using assms by (simp add: quiet_def)
  have id: "\<exists>s. w = w\<lparr>sockopts := s\<rparr>" by (rule exI [of _ "sockopts w"]) simp
  show ?thesis
    using assms q id
    by (auto simp: tcp_update_opts_def tcp_set_keepalive_def tcp_set_keepalive_value_def
        tcp_get_keepalive_def tcp_set_nodelay_def setsockopt_def getsockopt_def Let_def)
qed

lemma quiet_attach:
  assumes "quiet w" "0 \<le> sockfd n" "0 \<le> io_handle (protocol n) w" "iobs w (io_handle (protocol n) w) = Some b"
    "epo_of b (hld n) = Some eo" "epolls w (eo_epfd eo) (sockfd n) = None"
  shows "\<exists>x y. io_attach n m w = Some (eo_epfd eo, n\<lparr>epfd := eo_epfd eo\<rparr>, w\<lparr>fdfl := x, fdfd := y,
      trace := trace w @ [Refr (io_handle (protocol n) w), Defr (io_handle (protocol n) w)],
      epolls := (epolls w)(eo_epfd eo := (epolls w (eo_epfd eo))(sockfd n \<mapsto> base_events OR m))\<rparr>)"
proof -
  have q: "quiet (w\<lparr>fdfl := x, fdfd := y\<rparr>)" for x y using assms(1) by (simp add: quiet_def)
  have "quiet (w\<lparr>fdfl := x\<rparr>)" for x using assms(1) by (simp add: quiet_def)
  then have "\<exists>x y. io_fcntl (sockfd n) w = (0, w\<lparr>fdfl := x, fdfd := y\<rparr>)"
    using assms(1,2) by (cases w) (auto simp: io_fcntl_def fcntl_getfl_def fcntl_setfl_def fcntl_getfd_def fcntl_setfd_def Let_def)
  then obtain x y where f: "io_fcntl (sockfd n) w = (0, w\<lparr>fdfl := x, fdfd := y\<rparr>)" by blast
  let ?w = "w\<lparr>fdfl := x, fdfd := y\<rparr>"
  have h: "io_handle (protocol n) ?w = io_handle (protocol n) w" by (simp add: io_handle_def)
  have "quiet (emit e ?w)" for e using assms(1) by (simp add: quiet_def)
  then show ?thesis
    using assms by - (rule exI [of _ x], rule exI [of _ y],
      simp add: io_attach_def f h iob_refr_def epoll_ctl_def objdefr_def, simp add: emit_def Let_def)
qed

lemma post_upd:
  "post n e w = w\<lparr>trace := trace w @ (case nis_callback n of None \<Rightarrow> [] | Some f \<Rightarrow> [Post f e])\<rparr>"
  by (cases w) (simp add: post_def emit_def split: option.split)

section \<open>One connection\<close>

text \<open>The io object of the TCP links and the epoll instance that serves the handle \<open>h\<close>, which does not
  know the descriptor \<open>fd\<close>.\<close>

definition served :: "objhld \<Rightarrow> int \<Rightarrow> world \<Rightarrow> bool" where
  "served h fd w \<longleftrightarrow> 0 \<le> io_tcphld w \<and> (case iobs w (io_tcphld w) of None \<Rightarrow> False
     | Some b \<Rightarrow> (case epo_of b h of None \<Rightarrow> False
       | Some eo \<Rightarrow> 0 \<le> eo_epfd eo \<and> epolls w (eo_epfd eo) fd = None))"

text \<open>An idle link with its buffers: nothing waits, nothing is half received.\<close>

definition idle_link :: "ncb \<Rightarrow> bool" where
  "idle_link n \<longleftrightarrow> protocol n = IPPROTO_TCP \<and> fifo n = \<lparr>blocking = 0, fsize = 0, fhead = []\<rparr>
     \<and> map_option length (packet n) = Some (nat TCP_BUFFER_SIZE)
     \<and> map_option length (rx_buffer (tcp n)) = Some (nat TCP_BUFFER_SIZE)
     \<and> rx_parse_offset (tcp n) = 0 \<and> lbdata (tcp n) = None"

text \<open>A link that an accept has made.\<close>

definition accepted_link :: "ncb \<Rightarrow> int \<Rightarrow> objhld \<Rightarrow> world \<Rightarrow> bool" where
  "accepted_link server fd h w \<longleftrightarrow> (case objs w h of None \<Rightarrow> False | Some n \<Rightarrow>
     hld n = h \<and> sockfd n = fd \<and> nis_callback n = nis_callback server
     \<and> ncb_read n = Some R_tcp_rx \<and> ncb_write n = Some W_tcp_tx \<and> idle_link n
     \<and> (attr server AND LINKATTR_TCP_UPDATE_ACCEPT_CONTEXT (env w) \<noteq> 0
        \<longrightarrow> attr n = attr server \<and> template (tcp n) = template (tcp server))
     \<and> interest n w = Some (base_events OR EPOLLIN))"

definition same_io :: "world \<Rightarrow> world \<Rightarrow> bool" where
  "same_io w w' \<longleftrightarrow> env w' = env w \<and> io_tcphld w' = io_tcphld w \<and> iobs w' = iobs w \<and> k_fail w' = k_fail w"

lemma syn_dpc_quiet:
  assumes q: "quiet w" and n: "n = (fifo_init ncb_zero)\<lparr>sockfd := fd, hld := h, protocol := IPPROTO_TCP,
      nis_callback := nis_callback server\<rparr>"
    and s: "served h fd w" "0 \<le> fd"
  shows "\<exists>n' w' ep. i_tcp_syn_dpc server n w = Some (0, n', w') \<and> same_io w w' \<and> objs w' = objs w
    \<and> k_accept w' = k_accept w \<and> k_newobj w' = k_newobj w \<and> k_tcpinfo w' = k_tcpinfo w
    \<and> trace w' = trace w @ [Refr (io_tcphld w), Defr (io_tcphld w)]
        @ (case nis_callback server of None \<Rightarrow> [] | Some f \<Rightarrow> [Post f (EVT_TCP_ACCEPTED (hld server) h)])
    \<and> (\<forall>w''. objs w'' h = Some n' \<longrightarrow> env w'' = env w \<longrightarrow> epolls w'' ep fd = epolls w' ep fd \<longrightarrow> accepted_link server fd h w'')
    \<and> epolls w' = (epolls w)(ep := (epolls w ep)(fd \<mapsto> base_events OR EPOLLIN)) \<and> epfd n' = ep"
proof -
  obtain b eo where io: "0 \<le> io_tcphld w" "iobs w (io_tcphld w) = Some b" "epo_of b h = Some eo" "0 \<le> eo_epfd eo"
    "epolls w (eo_epfd eo) fd = None"
    using s(1) by (auto simp: served_def split: option.splits)
  obtain ra ns where g1: "getname (remot_addr n) w = (ra, w\<lparr>k_names := ns\<rparr>)" using quiet_getname by blast
  obtain la ns2 where g2: "getname (local_addr n) (w\<lparr>k_names := ns\<rparr>) = (la, w\<lparr>k_names := ns2\<rparr>)"
    using quiet_getname [of "local_addr n" "w\<lparr>k_names := ns\<rparr>"] by auto
  let ?n1 = "n\<lparr>remot_addr := ra, local_addr := la\<rparr>" and ?w1 = "w\<lparr>k_names := ns2\<rparr>"
  have q1: "quiet ?w1" using q by (simp add: quiet_def)
  obtain so where o1: "tcp_update_opts ?n1 ?w1 = ?w1\<lparr>sockopts := so\<rparr>" using quiet_opts [OF q1] by blast
  have q2: "quiet (?w1\<lparr>sockopts := so\<rparr>)" using q by (simp add: quiet_def)
  obtain so2 where o2: "setsockopt fd SO_LINGER [1, 0] (?w1\<lparr>sockopts := so\<rparr>) = (0, ?w1\<lparr>sockopts := so2\<rparr>)"
    using quiet_setsockopt [OF q2, of fd SO_LINGER "[1, 0]"] by auto
  let ?w2 = "?w1\<lparr>sockopts := so2\<rparr>"
  have q3: "quiet ?w2" "quiet (?w2\<lparr>heap := k\<rparr>)" for k using q by (simp_all add: quiet_def)
  let ?buf = "replicate (nat TCP_BUFFER_SIZE) (junk w)"
  let ?n2 = "?n1\<lparr>packet := Some ?buf, tcp := (tcp n)\<lparr>rx_parse_offset := 0, rx_buffer := Some ?buf\<rparr>,
     ncb_read := Some R_tcp_rx, ncb_write := Some W_tcp_tx\<rparr>"
  let ?n3 = "if attr server AND LINKATTR_TCP_UPDATE_ACCEPT_CONTEXT (env w) \<noteq> 0
     then ?n2\<lparr>attr := attr server, tcp := (tcp ?n2)\<lparr>template := template (tcp server)\<rparr>\<rparr> else ?n2"
  let ?w3 = "?w2\<lparr>heap := 2 + heap w\<rparr>"
  have n3: "sockfd ?n3 = fd" "hld ?n3 = h" "protocol ?n3 = IPPROTO_TCP" "io_handle IPPROTO_TCP ?w3 = io_tcphld w"
    by (simp_all add: n io_handle_def)
  obtain x y where a: "io_attach ?n3 0 ?w3 = Some (eo_epfd eo, ?n3\<lparr>epfd := eo_epfd eo\<rparr>, ?w3\<lparr>fdfl := x, fdfd := y,
      trace := trace w @ [Refr (io_tcphld w), Defr (io_tcphld w)],
      epolls := (epolls w)(eo_epfd eo := (epolls w (eo_epfd eo))(fd \<mapsto> base_events OR 0))\<rparr>)"
    using quiet_attach [OF q3(2), of ?n3 "2 + heap w" b eo 0] io s(2) unfolding n3 by auto
  let ?n4 = "?n3\<lparr>epfd := eo_epfd eo\<rparr>"
  let ?w4 = "?w3\<lparr>fdfl := x, fdfd := y,
      trace := trace w @ [Refr (io_tcphld w), Defr (io_tcphld w)],
      epolls := (epolls w)(eo_epfd eo := (epolls w (eo_epfd eo))(fd \<mapsto> base_events OR 0))\<rparr>"
  let ?w5 = "ncb_post_accepted server h ?w4"
  have k5: "k_fail ?w5 SYS_epoll_ctl = []" "interest ?n4 ?w5 \<noteq> None" "epolls ?w5 = epolls ?w4"
    using q n3(1) by (simp_all add: quiet_def ncb_post_accepted_def interest_def)
  note m = io_modify_ok [OF k5(1,2), of EPOLLIN, unfolded k5(3)]
  let ?w6 = "?w5\<lparr>epolls := (epolls w)(eo_epfd eo := (epolls w (eo_epfd eo))(fd \<mapsto> base_events OR EPOLLIN))\<rparr>"
  have m': "io_modify ?n4 EPOLLIN ?w5 = (0, ?w6)"
    using m n3(1) by simp
  have nf: "sockfd n = fd" "hld n = h" by (simp_all add: n)
  have d: "i_tcp_syn_dpc server n w = Some (0, ?n4, ?w6)"
    using q3 io(4) a m'
    by (cases "attr server AND LINKATTR_TCP_UPDATE_ACCEPT_CONTEXT (env w) = 0")
      (simp_all add: i_tcp_syn_dpc_def g1 g2 o1 ncb_set_linger_def nf o2 quiet_malloc Let_def)
  show ?thesis
    apply (rule exI [of _ ?n4], rule exI [of _ ?w6], rule exI [of _ "eo_epfd eo"])
    apply (intro conjI d)
    apply (simp_all add: post_upd ncb_post_accepted_def same_io_def)
    apply (auto simp: accepted_link_def n fifo_init_def ncb_zero_def idle_link_def interest_def tcp_part_zero_def)
    done
qed

text \<open>One turn of the accept loop with a connection waiting.\<close>

definition accept_event :: "ncb \<Rightarrow> objhld \<Rightarrow> int \<times> objhld \<Rightarrow> effect list" where
  "accept_event server io = (\<lambda>(fd, h). [Refr h, Refr io, Defr io]
     @ (case nis_callback server of None \<Rightarrow> [] | Some f \<Rightarrow> [Post f (EVT_TCP_ACCEPTED (hld server) h)]) @ [Defr h])"

lemma syn_round:
  assumes "quiet w" "served h fd w" "0 \<le> fd" "0 \<le> h"
    and "k_tcpinfo w = Some TCP_LISTEN # is" "k_accept w = KRet fd # as" "k_newobj w = h # hs"
  shows "\<exists>w' n' ep. i_tcp_syn server w = Some (0, w') \<and> same_io w w' \<and> k_accept w' = as \<and> k_newobj w' = hs
    \<and> k_tcpinfo w' = is \<and> trace w' = trace w @ accept_event server (io_tcphld w) (fd, h)
    \<and> accepted_link server fd h w' \<and> objs w' = (objs w)(h \<mapsto> n')
    \<and> epolls w' = (epolls w)(ep := (epolls w ep)(fd \<mapsto> base_events OR EPOLLIN))"
proof -
  let ?n = "(fifo_init ncb_zero)\<lparr>sockfd := fd, hld := h, protocol := IPPROTO_TCP, nis_callback := nis_callback server\<rparr>"
  let ?w = "emit (Refr h) (ncb_allocator h (w\<lparr>k_tcpinfo := is, k_accept := as, k_newobj := hs\<rparr>))"
  have q: "quiet ?w" "served h fd ?w"
    using assms(1,2) by (auto simp: quiet_def served_def ncb_allocator_def split: option.splits)
  obtain n' w' ep where d: "i_tcp_syn_dpc server ?n ?w = Some (0, n', w')" "same_io ?w w'" "objs w' = objs ?w"
    "k_accept w' = k_accept ?w" "k_newobj w' = k_newobj ?w" "k_tcpinfo w' = k_tcpinfo ?w"
    "trace w' = trace ?w @ [Refr (io_tcphld ?w), Defr (io_tcphld ?w)]
        @ (case nis_callback server of None \<Rightarrow> [] | Some f \<Rightarrow> [Post f (EVT_TCP_ACCEPTED (hld server) h)])"
    and up: "\<forall>w''. objs w'' h = Some n' \<longrightarrow> env w'' = env ?w \<longrightarrow> epolls w'' ep fd = epolls w' ep fd \<longrightarrow> accepted_link server fd h w''"
    and ep: "epolls w' = (epolls ?w)(ep := (epolls ?w ep)(fd \<mapsto> base_events OR EPOLLIN))"
    using syn_dpc_quiet [OF q(1) refl q(2) assms(3), of server] by blast
  have "i_tcp_syn server w = Some (0, objdefr h (put_ncb h n' w'))"
    using assms(3-7) d(1)
    by (simp add: i_tcp_syn_def tcp_save_info_def i_tcp_syn_try_def accept_call_def objallo_ncb_def objrefr_def ncb_allocator_def)
  moreover have "same_io w (objdefr h (put_ncb h n' w'))"
    using d(2) by (simp add: same_io_def ncb_allocator_def objdefr_def put_ncb_def)
  moreover have "accepted_link server fd h (objdefr h (put_ncb h n' w'))"
    using d(2) by (intro up [rule_format]) (simp_all add: objdefr_def put_ncb_def same_io_def ncb_allocator_def)
  moreover have "objs (objdefr h (put_ncb h n' w')) = (objs w)(h \<mapsto> n')"
    using d(3) by (simp add: objdefr_def put_ncb_def ncb_allocator_def)
  ultimately show ?thesis
    using d(4-7) ep by (intro exI [of _ "objdefr h (put_ncb h n' w')"] exI [of _ n'] exI [of _ ep])
      (simp add: objdefr_def put_ncb_def accept_event_def ncb_allocator_def)
qed

text \<open>Every turn asks the kernel for the state of the connection first.\<close>

lemma syn_dpc_tcpinfo: "i_tcp_syn_dpc server n w = Some (r, n', w') \<Longrightarrow> k_tcpinfo w' = k_tcpinfo w"
proof -
  have g: "k_tcpinfo v' = k_tcpinfo v" if "getname a v = (b, v')" for a b v v'
    using quiet_getname [of a v] that by auto
  have o: "k_tcpinfo (tcp_update_opts m v) = k_tcpinfo v" "k_tcpinfo (snd (ncb_set_linger m a b v)) = k_tcpinfo v" for m v a b
    using opt_stepD [OF update_opts_step] opt_stepD [OF opt_step_setsockopt] by (simp_all add: ncb_set_linger_def)
  have m: "k_tcpinfo v' = k_tcpinfo v" if "malloc k v = (b, v')" for k v b v'
    using mallocD [OF that] by auto
  have a: "k_tcpinfo v' = k_tcpinfo v" if "io_attach n1 k v = Some (r1, n2, v')" for n1 k v r1 n2 v'
    by (rule io_stepD(10) [OF io_attachD(1) [OF that]])
  have e: "k_tcpinfo (ncb_post_accepted s h v) = k_tcpinfo v" for s h v
    by (simp add: ncb_post_accepted_def post_upd)
  have i: "k_tcpinfo v' = k_tcpinfo v" if "io_modify n1 k v = (r1, v')" for n1 k v r1 v'
    using ctl_stepD [OF io_modify_ctl [OF that]] by simp
  show "i_tcp_syn_dpc server n w = Some (r, n', w') \<Longrightarrow> k_tcpinfo w' = k_tcpinfo w"
    unfolding i_tcp_syn_dpc_def
    by (elim run_elims) (auto simp: o e dest!: g m a i split: if_splits)
qed

lemma i_tcp_syn_uses:
  assumes "i_tcp_syn server w = Some (r, w')"
  shows "length (k_tcpinfo w') < length (k_tcpinfo w)"
proof -
  have tr: "k_tcpinfo v' = k_tcpinfo v" if "i_tcp_syn_try server v = Some (a, b, c, v')" for v a b c v'
    using that by (auto simp: i_tcp_syn_try_def accept_call_def Let_def
        split: Option.bind_splits list.splits kans.splits if_splits)
  have obj: "k_tcpinfo v' = k_tcpinfo v" if "objallo_ncb v = Some (h, v')" for v h v'
    using that by (auto simp: objallo_ncb_def ncb_allocator_def Let_def split: list.splits if_splits)
  have ref: "k_tcpinfo v' = k_tcpinfo v" if "objrefr h v = (p, v')" for v h p v'
    using that by (auto simp: objrefr_def split: option.splits)
  have info: "length (k_tcpinfo v') < length (k_tcpinfo v)" if "tcp_save_info server v = Some (a, b, v')" for v a b v'
    using that by (auto simp: tcp_save_info_def split: list.splits option.splits)
  show ?thesis
    using assms unfolding i_tcp_syn_def
    by (elim run_elims) (auto simp: objdefr_def objclos_def put_ncb_def dest!: info tr obj ref syn_dpc_tcpinfo split: if_splits)
qed

interpretation syn_l: rx_loop "i_tcp_syn server" "tcp_syn server" "\<lambda>w. length (k_tcpinfo w)" for server
proof
  show "tcp_syn server w = Option.bind (i_tcp_syn server w) (\<lambda>(r, w). if r = 0 then tcp_syn server w else Some (r, w))" for w
    by (subst tcp_syn.simps) (rule refl)
qed (rule i_tcp_syn_uses)

section \<open>All connections\<close>

text \<open>The connections \<open>cs\<close>, descriptor and handle, that wait in front of the answers \<open>as\<close>; those taken
  before are the front part of \<open>all\<close>.\<close>

definition backlog :: "ncb \<Rightarrow> (int \<times> objhld) list \<Rightarrow> int option list \<Rightarrow> kans list \<Rightarrow> objhld
    \<Rightarrow> world \<Rightarrow> (int \<times> objhld) list \<Rightarrow> bool" where
  "backlog server all is as io w cs \<longleftrightarrow> quiet w \<and> io_tcphld w = io
     \<and> k_tcpinfo w = map (\<lambda>_. Some TCP_LISTEN) cs @ is \<and> k_accept w = map (KRet \<circ> fst) cs @ as
     \<and> (\<exists>hs. k_newobj w = map snd cs @ hs) \<and> distinct (map fst all) \<and> distinct (map snd all)
     \<and> (\<forall>(fd, h) \<in> set cs. served h fd w \<and> 0 \<le> fd \<and> 0 \<le> h)
     \<and> (\<exists>taken. all = taken @ cs \<and> (\<forall>(fd, h) \<in> set taken. accepted_link server fd h w))"

lemma accept_all:
  assumes "backlog server cs is as io w cs"
  shows "\<exists>w'. tcp_syn server w = tcp_syn server w' \<and> backlog server cs is as io w' []
    \<and> trace w' = trace w @ concat (map (accept_event server io) cs)"
proof (rule syn_l.rounds [where P = "backlog server cs is as io", OF _ assms])
  fix w and x and xs :: "(int \<times> objhld) list"
  assume b: "backlog server cs is as io w (x # xs)"
  obtain fd h where x: "x = (fd, h)" by fastforce
  from b obtain hs taken where k: "quiet w" "io_tcphld w = io" "k_tcpinfo w = Some TCP_LISTEN # map (\<lambda>_. Some TCP_LISTEN) xs @ is"
    "k_accept w = KRet fd # map (KRet \<circ> fst) xs @ as" "k_newobj w = h # map snd xs @ hs"
    "served h fd w" "0 \<le> fd" "0 \<le> h" and all: "cs = taken @ (fd, h) # xs"
    and t: "\<forall>(fd, h) \<in> set taken. accepted_link server fd h w" and d: "distinct (map fst cs)" "distinct (map snd cs)"
    and r: "\<forall>(fd, h) \<in> set xs. served h fd w \<and> 0 \<le> fd \<and> 0 \<le> h"
    unfolding backlog_def x by auto
  from syn_round [OF k(1,6-8,3-5)] obtain w' n' ep where w': "i_tcp_syn server w = Some (0, w')" "same_io w w'"
    "k_accept w' = map (KRet \<circ> fst) xs @ as" "k_newobj w' = map snd xs @ hs" "k_tcpinfo w' = map (\<lambda>_. Some TCP_LISTEN) xs @ is"
    "trace w' = trace w @ accept_event server (io_tcphld w) (fd, h)" "accepted_link server fd h w'"
    and o: "objs w' = (objs w)(h \<mapsto> n')" and e: "epolls w' = (epolls w)(ep := (epolls w ep)(fd \<mapsto> base_events OR EPOLLIN))"
    by blast
  have nd: "fd \<notin> fst ` set taken" "h \<notin> snd ` set taken" "fd \<notin> fst ` set xs"
    using d unfolding all by simp_all
  have old: "accepted_link server fd' h' w'" if "(fd', h') \<in> set taken" for fd' h'
  proof -
    have ne: "fd' \<noteq> fd" "h' \<noteq> h" using nd that by force+
    have a: "accepted_link server fd' h' w" using t that by auto
    then obtain n where n: "objs w h' = Some n" "sockfd n = fd'" by (auto simp: accepted_link_def split: option.splits)
    have "objs w' h' = Some n" "interest n w' = interest n w" "env w' = env w"
      using ne n w'(2) by (simp_all add: o e interest_def same_io_def)
    then show ?thesis using a n by (simp add: accepted_link_def)
  qed
  have later: "served h' fd' w'" if "(fd', h') \<in> set xs" for fd' h'
  proof -
    have "fd' \<noteq> fd" using nd that by force
    moreover have "served h' fd' w" using r that by auto
    ultimately show ?thesis using w'(2) by (auto simp: served_def e same_io_def split: option.splits)
  qed
  have "quiet w' \<and> io_tcphld w' = io" using w'(2) k(1,2) by (simp add: same_io_def quiet_def)
  moreover have "\<forall>(fd, h) \<in> set xs. served h fd w' \<and> 0 \<le> fd \<and> 0 \<le> h" using r later by blast
  moreover have "cs = (taken @ [(fd, h)]) @ xs \<and> (\<forall>(fd, h) \<in> set (taken @ [(fd, h)]). accepted_link server fd h w')"
    using w'(7) old all by auto
  then have "\<exists>taken. cs = taken @ xs \<and> (\<forall>(fd, h) \<in> set taken. accepted_link server fd h w')" by blast
  ultimately have "backlog server cs is as io w' xs"
    unfolding backlog_def using w'(3-5) d by blast
  then show "\<exists>w'. i_tcp_syn server w = Some (0, w') \<and> backlog server cs is as io w' xs
      \<and> trace w' = trace w @ accept_event server io x"
    using w'(1,6) k(2) x by auto
qed

section \<open>Properties\<close>

text \<open>C10: an event on a listening link takes every connection that waits: for each, in order, a link is
  made that is connected, can read and write, is watched for input, calls the callback of the
  listener and has its template where the listener asks for that, and the user hears of it once;
  the loop ends when the kernel has no more.\<close>

theorem accept_takes_all:
  assumes "quiet w" and "distinct (map fst cs)" and "distinct (map snd cs)"
    and "\<forall>(fd, h) \<in> set cs. served h fd w \<and> 0 \<le> fd \<and> 0 \<le> h"
    and "k_tcpinfo w = map (\<lambda>_. Some TCP_LISTEN) cs @ Some TCP_LISTEN # is"
    and "k_accept w = map (KRet \<circ> fst) cs @ KErr EAGAIN # as" and "k_newobj w = map snd cs @ hs"
  shows "\<exists>w'. tcp_syn server w = Some (EAGAIN, w')
    \<and> trace w' = trace w @ concat (map (accept_event server (io_tcphld w)) cs)
    \<and> (\<forall>(fd, h) \<in> set cs. accepted_link server fd h w')"
proof -
  have "backlog server cs (Some TCP_LISTEN # is) (KErr EAGAIN # as) (io_tcphld w) w cs"
    using assms unfolding backlog_def by (intro conjI exI [of _ "[]"] exI [of _ hs]) simp_all
  from accept_all [OF this] obtain w1 where 1: "tcp_syn server w = tcp_syn server w1"
    "backlog server cs (Some TCP_LISTEN # is) (KErr EAGAIN # as) (io_tcphld w) w1 []"
    "trace w1 = trace w @ concat (map (accept_event server (io_tcphld w)) cs)" by blast
  from 1(2) have k: "k_tcpinfo w1 = Some TCP_LISTEN # is" "k_accept w1 = KErr EAGAIN # as"
    and up: "\<forall>(fd, h) \<in> set cs. accepted_link server fd h w1"
    by (auto simp: backlog_def)
  let ?w = "w1\<lparr>k_tcpinfo := is, k_accept := as, errno := EAGAIN\<rparr>"
  have "tcp_syn server w1 = Some (EAGAIN, ?w)"
    using k by (subst tcp_syn.simps) (simp add: i_tcp_syn_def tcp_save_info_def i_tcp_syn_try_def accept_call_def)
  moreover have "accepted_link server fd h ?w = accepted_link server fd h w1" for fd h
    by (cases "objs w1 h") (simp_all add: accepted_link_def interest_def)
  ultimately show ?thesis using 1 up by (intro exI [of _ ?w]) simp
qed

definition listen_ncb0 :: ncb where
  "listen_ncb0 = (link_ncb0 [])\<lparr>ncb_read := Some R_tcp_syn, ncb_write := None, attr := 4\<rparr>"

definition listen_world0 :: "int option list \<Rightarrow> kans list \<Rightarrow> objhld list \<Rightarrow> world" where
  "listen_world0 is as hs = world0\<lparr>k_tcpinfo := is, k_accept := as, k_newobj := hs, io_tcphld := 2,
     iobs := [2 \<mapsto> \<lparr>epoptr = [\<lparr>eo_epfd = 20, eo_actived = True, eo_load = 0, eo_pipefdw = 21\<rparr>],
       divisions = 1, io_protocol = 6\<rparr>]\<rparr>"

lemma listen_world0_simps:
  "k_tcpinfo (listen_world0 is as hs) = is" "k_accept (listen_world0 is as hs) = as"
  "k_newobj (listen_world0 is as hs) = hs" "trace (listen_world0 is as hs) = []"
  "quiet (listen_world0 is as hs)" "served h fd (listen_world0 is as hs)" "io_tcphld (listen_world0 is as hs) = 2"
  by (simp_all add: listen_world0_def world0_def quiet_def served_def epo_of_def epo_index_def)

theorem accept_takes_all_witness:
  "\<exists>w'. tcp_syn listen_ncb0 (listen_world0 [Some 10, Some 10, Some 10] [KRet 30, KRet 31, KErr EAGAIN] [7, 8])
      = Some (EAGAIN, w')
    \<and> trace w' = [Refr 7, Refr 2, Defr 2, Post 1 (EVT_TCP_ACCEPTED 5 7), Defr 7,
         Refr 8, Refr 2, Defr 2, Post 1 (EVT_TCP_ACCEPTED 5 8), Defr 8]
    \<and> accepted_link listen_ncb0 30 7 w' \<and> accepted_link listen_ncb0 31 8 w'"
  using accept_takes_all [of "listen_world0 [Some 10, Some 10, Some 10] [KRet 30, KRet 31, KErr EAGAIN] [7, 8]"
      "[(30, 7), (31, 8)]" "[]" "[]" "[]" listen_ncb0]
  by (simp add: listen_world0_simps accept_event_def listen_ncb0_def link_ncb0_simps)

text \<open>C29: while the kernel reports another state than listening, the accept loop turns without taking a
  connection, changing anything or coming to an end: after any number of such answers it stands
  where it stood, and where they are all it ever gets, it has not returned.\<close>

theorem accept_spins:
  assumes "k_tcpinfo w = replicate k (Some st) @ ks" and "st \<noteq> TCP_LISTEN"
  shows "tcp_syn server w = tcp_syn server (w\<lparr>k_tcpinfo := ks\<rparr>) \<and> (ks = [] \<longrightarrow> tcp_syn server w = None)"
proof -
  have s: "tcp_syn server w = tcp_syn server (w\<lparr>k_tcpinfo := ks\<rparr>)"
    using assms(1)
  proof (induction k arbitrary: w)
    case 0
    then have "w\<lparr>k_tcpinfo := ks\<rparr> = w" by (cases w) simp
    then show ?case by simp
  next
    case (Suc k)
    let ?v = "w\<lparr>k_tcpinfo := replicate k (Some st) @ ks\<rparr>"
    have "tcp_syn server w = tcp_syn server ?v"
      using Suc.prems assms(2) by (subst tcp_syn.simps) (simp add: i_tcp_syn_def tcp_save_info_def)
    also have "\<dots> = tcp_syn server (w\<lparr>k_tcpinfo := ks\<rparr>)" using Suc.IH [of ?v] by simp
    finally show ?case .
  qed
  moreover have "tcp_syn server (w\<lparr>k_tcpinfo := []\<rparr>) = None"
    by (subst tcp_syn.simps) (simp add: i_tcp_syn_def tcp_save_info_def)
  ultimately show ?thesis by auto
qed

theorem accept_spins_witness:
  "tcp_syn listen_ncb0 (listen_world0 (replicate 1000 (Some 7)) [KRet 30] [7]) = None"
  using accept_spins [of "listen_world0 (replicate 1000 (Some 7)) [KRet 30] [7]" 1000 7 "[]" listen_ncb0]
  by (auto simp: listen_world0_simps)

end
