(* ===== verification/Life.thy ===== *)
theory Life
  imports Accept Sending
begin

text \<open>
  The life of a link: the registry of control blocks, connecting and listening, refusal of handles
  that are no link, waking by a pipe, and destruction.
\<close>

section \<open>References\<close>

lemma epoll_proc_balanced: "epoll_proc ws w = Some w' \<Longrightarrow> balanced w w'"
proof (induction ws w rule: epoll_proc.induct)
  case (3 evts ws w)
  show ?case
  proof (cases "evts = []")
    case False
    with "3.prems" obtain v where v: "i_iorun evts w = Some v" "epoll_proc ws v = Some w'"
      by (auto split: Option.bind_splits)
    with "3.IH"(2) [OF False v(1)] iorun_balanced [OF v(1)] show ?thesis by (blast intro: balanced_trans)
  qed (use "3" in simp)
qed (auto split: if_splits)

text \<open>C11: an epoll thread gives back every reference it takes, for any events, any links and any
  answers of the kernel, through any number of waits.\<close>

theorem events_keep_references:
  assumes "epoll_proc ws w = Some w'"
  shows "ref_balance g (trace w') = ref_balance g (trace w)"
  using epoll_proc_balanced [OF assms] by (simp add: balanced_def)

theorem events_keep_references_witness:
  "\<exists>w'. epoll_proc [EvErr EINTR, EvList [(5, EPOLLOUT)], EvList [(5, EPOLLRDHUP)], EvErr EBADF] (link_world0 [] []) = Some w'
    \<and> ref_balance 5 (trace w') = 0 \<and> trace w' = [Refr 5, Refr 3, Signal 3, Defr 3, Defr 5, Clos 5]"
proof -
  have "i_iorun [(5, EPOLLOUT)] (link_world0 [] []) \<noteq> None"
    "the (i_iorun [(5, EPOLLOUT)] (link_world0 [] [])) \<in> {v. trace v = [Refr 5, Refr 3, Signal 3, Defr 3, Defr 5]}"
    using writable_event [of "link_world0 [] []" 5 "link_ncb0 []" 3] by (simp_all add: link_world0_simps link_ncb0_simps put_ncb_def)
  then obtain w' where w': "epoll_proc [EvErr EINTR, EvList [(5, EPOLLOUT)], EvList [(5, EPOLLRDHUP)], EvErr EBADF] (link_world0 [] [])
      = Some w'" "trace w' = [Refr 5, Refr 3, Signal 3, Defr 3, Defr 5, Clos 5]"
    by (auto simp: objclos_def simp del: i_iorun.simps(2)) (simp add: objclos_def)
  from events_keep_references [OF w'(1), of 5] w' show ?thesis by (auto simp: link_world0_simps)
qed

section \<open>Handles\<close>




section \<open>The registry\<close>

text \<open>Blocks come and go: allocation under a handle that is not in use, destruction by the object
  manager, and the closing of a protocol. \<open>L\<close> are the handles of the blocks that live.\<close>

inductive reg_step :: "objhld set \<times> world \<Rightarrow> objhld set \<times> world \<Rightarrow> bool" where
  alloc: "objallo_ncb w = Some (h, w') \<Longrightarrow> 0 \<le> h \<Longrightarrow> h \<notin> L \<Longrightarrow> reg_step (L, w) (insert h L, w')"
| alloc_fail: "objallo_ncb w = Some (h, w') \<Longrightarrow> h < 0 \<Longrightarrow> reg_step (L, w) (L, w')"
| destroy: "h \<in> L \<Longrightarrow> ncb_deconstruct h w = Some w' \<Longrightarrow> reg_step (L, w) (L - {h}, w')"
| uninit: "ncb_uninit proto w = Some w' \<Longrightarrow> reg_step (L, w) (L, w')"

inductive_cases reg_stepE: "reg_step (L, w) (L', w')"

lemma reg_step_ok: "reg_step (L, w) (L', w') \<Longrightarrow> nl_ok L w \<Longrightarrow> nl_ok L' w'"
proof (elim reg_stepE, goal_cases)
  case (1 h)
  let ?v = "w\<lparr>k_newobj := tl (k_newobj w)\<rparr>"
  have "w' = ncb_allocator h ?v" using 1 by (auto simp: objallo_ncb_def Let_def split: list.splits if_splits)
  moreover have "nl_ok L ?v" using 1(1) by (simp add: nl_ok_def)
  ultimately show ?case using nl_ok_allocator [of L ?v h] 1 by simp
next
  case (2 h)
  then show ?case by (auto simp: objallo_ncb_def nl_ok_def Let_def split: list.splits if_splits)
next
  case (3 h)
  with nl_ok_deconstruct [of L w h] show ?case by auto
next
  case (4 proto)
  with ncb_uninit_spec [of L w proto] show ?case by auto
qed



section \<open>Destruction\<close>

text \<open>C19: a link that the user destroys and the object manager then takes apart is closed exactly once.
  The socket is shut down and closed at once; when the last reference is gone the user hears
  \<open>EVT_PRE_CLOSE\<close> with his context and, last of all, \<open>EVT_CLOSED\<close>, and everything the link owned
  is freed: its buffers, a packet half received, and the nodes that waited.\<close>

theorem destroy_closes_once:
  assumes "objs w g = Some n" and "0 < sockfd n" and "0 < nl_count w" and "nis_callback n = Some f"
  shows "\<exists>w'. ncb_deconstruct g (tcp_destroy g w) = Some w'
    \<and> trace w' = trace w @ [Reff g, Shutdown (sockfd n), Close (sockfd n), Defr g,
         Post f (EVT_PRE_CLOSE (hld n) (user_context n)), Post f (EVT_CLOSED (hld n))]
    \<and> heap w' = heap w - ncb_owned n \<and> nl_count w' = nl_count w - 1 \<and> g \<notin> set (nl_head w')"
proof -
  obtain n1 w1 where c: "io_close n (emit (Reff g) w) = (n1, w1)" by fastforce
  obtain w0 where w0: "ctl_step (emit (Reff g) w) w0" "n1 = n\<lparr>sockfd := -1, epfd := (if epfd n > 0 then -1 else epfd n)\<rparr>"
    "w1 = emit (Close (sockfd n)) (emit (Shutdown (sockfd n)) w0)"
    using c assms(2) by (auto elim: io_closeE)
  let ?w = "tcp_destroy g w"
  have d: "?w = emit (Defr g) (put_ncb g n1 w1)" using assms(1) c by (simp add: tcp_destroy_def objreff_def objdefr_def)
  have o: "objs ?w g = Some n1" by (simp add: d put_ncb_def)
  have nl: "nl_count ?w = nl_count w" "heap ?w = heap w"
    "trace ?w = trace w @ [Reff g, Shutdown (sockfd n), Close (sockfd n), Defr g]"
    using ctl_stepD [OF w0(1)] by (simp_all add: d put_ncb_def w0(3))
  have "0 < nl_count ?w" using nl(1) assms(3) by simp
  from ncb_deconstruct_spec [OF o this] obtain n' w' where
    w': "ncb_deconstruct g ?w = Some w'"
    "trace w' = trace (ncb_post_preclose n1 ?w) @ close_effects n1
       @ (case nis_callback n1 of None \<Rightarrow> [] | Some f \<Rightarrow> [Post f (EVT_CLOSED (hld n1))])"
    "heap w' = heap ?w - ncb_owned n1" "nl_count w' = nl_count ?w - 1" "nl_head w' = filter (\<lambda>h. h \<noteq> g) (nl_head ?w)"
    by blast
  then show ?thesis
    using nl assms(4) by (simp add: w0(2) close_effects_def ncb_post_preclose_def post_trace ncb_owned_def ncb_lb_marked_def)
qed

theorem destroy_closes_once_witness:
  "\<exists>w'. ncb_deconstruct 5 (tcp_destroy 5 ((link_world0 [node0 [1, 2]] [])\<lparr>nl_head := [5], nl_count := 1\<rparr>)) = Some w'
    \<and> trace w' = [Reff 5, Shutdown 9, Close 9, Defr 5, Post 1 (EVT_PRE_CLOSE 5 None), Post 1 (EVT_CLOSED 5)] \<and> heap w' = -4"
proof -
  let ?w = "(link_world0 [node0 [1, 2]] [])\<lparr>nl_head := [5], nl_count := 1\<rparr>"
  have n: "objs ?w 5 = Some (link_ncb0 [node0 [1, 2]])" by (simp add: link_world0_simps)
  have "ncb_owned (link_ncb0 [node0 [1, 2]]) = 4" "user_context (link_ncb0 q) = None" for q
    by (simp_all add: ncb_owned_def link_ncb0_def rx_ncb0_def ncb_zero_def ncb_lb_marked_def tcp_part_zero_def)
  then show ?thesis using destroy_closes_once [OF n, of 1] by (auto simp: link_ncb0_simps link_world0_simps)
qed

section \<open>Connecting and listening\<close>

text \<open>A connect that the kernel grants, at once or after any number of interruptions.\<close>

lemma connect_run:
  assumes "quiet w" and "0 \<le> g" and "objs w g = Some n" and "protocol n = IPPROTO_TCP" and "hld n = g"
    and "0 \<le> sockfd n" and "served g (sockfd n) w" and "port \<noteq> 0"
    and "k_tcpinfo w = Some TCP_CLOSE # is" and "k_connect w = replicate k (KErr EINTR) @ KRet c # cs" and "k_names w = [ra, la]"
  shows "\<exists>r n' w'. tcp_connect g (Some ip) port w = Some (r, w') \<and> 0 \<le> r
    \<and> n' = n\<lparr>epfd := r, remot_addr := ra, local_addr := la, ncb_read := Some R_tcp_rx, ncb_write := Some W_tcp_tx\<rparr>
    \<and> objs w' = (objs w)(g \<mapsto> n') \<and> interest n' w' = Some (base_events OR EPOLLIN)
    \<and> trace w' = trace w @ [Refr g]
        @ replicate (Suc k) (Connect (sockfd n) \<lparr>sin_addr = inet_addr (env w) ip, sin_port = htons port\<rparr>)
        @ [Refr (io_tcphld w), Defr (io_tcphld w)]
        @ (case nis_callback n of None \<Rightarrow> [] | Some f \<Rightarrow> [Post f (EVT_TCP_CONNECTED g)]) @ [Defr g]
    \<and> env w' = env w \<and> k_fail w' = k_fail w \<and> k_send w' = k_send w \<and> k_tcpinfo w' = is"
proof -
  obtain b eo where io: "0 \<le> io_tcphld w" "iobs w (io_tcphld w) = Some b" "epo_of b g = Some eo" "0 \<le> eo_epfd eo"
    "epolls w (eo_epfd eo) (sockfd n) = None"
    using assms(7) by (auto simp: served_def split: option.splits)
  let ?w1 = "(emit (Refr g) w)\<lparr>k_tcpinfo := is\<rparr>"
  have q1: "quiet ?w1" using assms(1) by (simp add: quiet_def)
  obtain s1 where s1: "setsockopt (sockfd n) TCP_SYNCNT [3] ?w1 = (0, ?w1\<lparr>sockopts := s1\<rparr>)"
    using quiet_setsockopt [OF q1] by blast
  have q2: "quiet (?w1\<lparr>sockopts := s1\<rparr>)" using assms(1) by (simp add: quiet_def)
  obtain s2 where s2: "tcp_update_opts n (?w1\<lparr>sockopts := s1\<rparr>) = ?w1\<lparr>sockopts := s2\<rparr>"
    using quiet_opts [OF q2, of n] by auto
  let ?a = "\<lparr>sin_addr = inet_addr (env w) ip, sin_port = htons port\<rparr>"
  obtain t where t: "t = trace w @ [Refr g] @ replicate (Suc k) (Connect (sockfd n) ?a)" by blast
  obtain e where "connect_retry (sockfd n) ?a (?w1\<lparr>sockopts := s2\<rparr>)
      = Some (0, ?w1\<lparr>sockopts := s2, k_connect := cs, errno := e, trace := t\<rparr>)"
    using connect_retry_granted [of "?w1\<lparr>sockopts := s2\<rparr>" k c cs "sockfd n" ?a] assms(10) t by auto
  note c = this
  let ?w2 = "?w1\<lparr>sockopts := s2, k_connect := cs, errno := e, trace := t\<rparr>"
  have q3: "quiet ?w2" using assms(1) by (simp add: quiet_def)
  obtain x y where a: "io_attach n EPOLLIN ?w2 = Some (eo_epfd eo, n\<lparr>epfd := eo_epfd eo\<rparr>, ?w2\<lparr>fdfl := x, fdfd := y,
      trace := t @ [Refr (io_tcphld w), Defr (io_tcphld w)],
      epolls := (epolls w)(eo_epfd eo := (epolls w (eo_epfd eo))(sockfd n \<mapsto> base_events OR EPOLLIN))\<rparr>)"
    using quiet_attach [OF q3 assms(6), of b eo EPOLLIN] io assms(4,5) by (auto simp: io_handle_def)
  let ?w3 = "?w2\<lparr>fdfl := x, fdfd := y, trace := t @ [Refr (io_tcphld w), Defr (io_tcphld w)],
      epolls := (epolls w)(eo_epfd eo := (epolls w (eo_epfd eo))(sockfd n \<mapsto> base_events OR EPOLLIN))\<rparr>"
  have r: "i_tcprefr g w = (0, Some n, emit (Refr g) w)" by (rule tcp_r.good [OF assms(2-4)])
  let ?n' = "n\<lparr>epfd := eo_epfd eo, remot_addr := ra, local_addr := la, ncb_read := Some R_tcp_rx, ncb_write := Some W_tcp_tx\<rparr>"
  let ?w' = "objdefr g (put_ncb g ?n' (ncb_post_connected (n\<lparr>epfd := eo_epfd eo, remot_addr := ra, local_addr := la\<rparr>) (?w3\<lparr>k_names := []\<rparr>)))"
  have "tcp_connect g (Some ip) port w = Some (eo_epfd eo, ?w')"
    using assms(2,8,9) io(4) by (simp add: tcp_connect_def with_link_def r tcp_save_info_def s1 s2 c a getname_def assms(11) Let_def)
  then show ?thesis
    using io(4) assms(5) by (intro exI [of _ "eo_epfd eo"] exI [of _ ?n'] exI [of _ ?w'])
      (simp add: objdefr_def put_ncb_def ncb_post_connected_def post_upd interest_def t)
qed

text \<open>C20: a connect that the kernel grants, at once or after any number of interruptions, names the
  address it was given each time and makes the link usable: it is watched for input, can
  read and write, knows its addresses, and the user hears of it before the call returns, with the
  number of the epoll instance rather than zero.\<close>

theorem connect_establishes:
  assumes "quiet w" and "0 \<le> g" and "objs w g = Some n" and "protocol n = IPPROTO_TCP" and "hld n = g"
    and "0 \<le> sockfd n" and "served g (sockfd n) w" and "port \<noteq> 0"
    and "k_tcpinfo w = Some TCP_CLOSE # is" and "k_connect w = replicate k (KErr EINTR) @ KRet c # cs" and "k_names w = [ra, la]"
  shows "\<exists>r n' w'. tcp_connect g (Some ip) port w = Some (r, w') \<and> 0 \<le> r \<and> epfd n' = r
    \<and> objs w' g = Some n' \<and> ncb_read n' = Some R_tcp_rx \<and> ncb_write n' = Some W_tcp_tx
    \<and> remot_addr n' = ra \<and> local_addr n' = la \<and> interest n' w' = Some (base_events OR EPOLLIN)
    \<and> trace w' = trace w @ [Refr g]
        @ replicate (Suc k) (Connect (sockfd n) \<lparr>sin_addr = inet_addr (env w) ip, sin_port = htons port\<rparr>)
        @ [Refr (io_tcphld w), Defr (io_tcphld w)]
        @ (case nis_callback n of None \<Rightarrow> [] | Some f \<Rightarrow> [Post f (EVT_TCP_CONNECTED g)]) @ [Defr g]"
proof -
  from connect_run [OF assms] obtain r n' w' where
    w': "tcp_connect g (Some ip) port w = Some (r, w')" "0 \<le> r"
    "n' = n\<lparr>epfd := r, remot_addr := ra, local_addr := la, ncb_read := Some R_tcp_rx, ncb_write := Some W_tcp_tx\<rparr>"
    "objs w' = (objs w)(g \<mapsto> n')" "interest n' w' = Some (base_events OR EPOLLIN)"
    and t: "trace w' = trace w @ [Refr g]
        @ replicate (Suc k) (Connect (sockfd n) \<lparr>sin_addr = inet_addr (env w) ip, sin_port = htons port\<rparr>)
        @ [Refr (io_tcphld w), Defr (io_tcphld w)]
        @ (case nis_callback n of None \<Rightarrow> [] | Some f \<Rightarrow> [Post f (EVT_TCP_CONNECTED g)]) @ [Defr g]" by blast
  show ?thesis
    by (intro exI [of _ r] exI [of _ n'] exI [of _ w'] conjI w'(1,2,5) t) (simp_all add: w'(3,4))
qed

text \<open>A link that is fresh from \<open>tcp_create\<close>, in a world whose TCP threads run.\<close>

definition fresh_ncb0 :: ncb where
  "fresh_ncb0 = (link_ncb0 [])\<lparr>ncb_read := None, ncb_write := None\<rparr>"

definition fresh_world0 :: world where
  "fresh_world0 = (listen_world0 [Some 7] [] [])\<lparr>objs := [5 \<mapsto> fresh_ncb0], k_connect := [KRet 0],
     k_soerror := [KRet 0], k_names := [\<lparr>sin_addr = 1, sin_port = 2\<rparr>, \<lparr>sin_addr = 3, sin_port = 4\<rparr>]\<rparr>"

lemma fresh_simps:
  "sockfd fresh_ncb0 = 9" "hld fresh_ncb0 = 5" "protocol fresh_ncb0 = 6" "nis_callback fresh_ncb0 = Some 1"
  "ncb_read fresh_ncb0 = None" "ncb_write fresh_ncb0 = None"
  "objs fresh_world0 = [5 \<mapsto> fresh_ncb0]" "quiet fresh_world0" "served h fd fresh_world0"
  "k_tcpinfo fresh_world0 = [Some 7]" "k_connect fresh_world0 = [KRet 0]" "k_soerror fresh_world0 = [KRet 0]"
  "k_names fresh_world0 = [\<lparr>sin_addr = 1, sin_port = 2\<rparr>, \<lparr>sin_addr = 3, sin_port = 4\<rparr>]"
  "trace fresh_world0 = []" "io_tcphld fresh_world0 = 2" "epolls fresh_world0 = (\<lambda>_ _. None)" "env fresh_world0 = env0"
  by (simp_all add: fresh_ncb0_def fresh_world0_def link_ncb0_simps listen_world0_def world0_def quiet_def
      served_def epo_of_def epo_index_def)

theorem connect_establishes_witness:
  "\<exists>r n' w'. tcp_connect 5 (Some ''10.0.0.1'') 80 fresh_world0 = Some (r, w') \<and> objs w' 5 = Some n'
    \<and> ncb_write n' = Some W_tcp_tx \<and> sin_port (remot_addr n') = 2
    \<and> trace w' = [Refr 5, Connect 9 \<lparr>sin_addr = 8, sin_port = htons 80\<rparr>, Refr 2, Defr 2,
        Post 1 (EVT_TCP_CONNECTED 5), Defr 5]"
  using connect_establishes [of fresh_world0 5 fresh_ncb0 80 "[]" 0 0 "[]" "\<lparr>sin_addr = 1, sin_port = 2\<rparr>"
      "\<lparr>sin_addr = 3, sin_port = 4\<rparr>" "''10.0.0.1''"]
  by (auto simp: fresh_simps env0_def)

text \<open>C30: where the kernel grants an asynchronous connect at once, the call reports success and has given
  the link up: the socket was never joined to an epoll instance, so changing its interest fails
  and the link is closed; the user never hears of the connection.\<close>

theorem connect2_immediate_lost:
  assumes "quiet w" and "errors_negative w" and "0 \<le> g" and "objs w g = Some n" and "protocol n = IPPROTO_TCP" and "hld n = g"
    and "0 \<le> sockfd n" and "ncb_write n = None" and "epolls w (epfd n) (sockfd n) = None" and "port \<noteq> 0"
    and "k_tcpinfo w = Some TCP_CLOSE # is" and "k_connect w = KRet c # cs" and "k_soerror w = KRet 0 # es"
  shows "\<exists>w'. tcp_connect2 g (Some ip) port w = Some (0, w') \<and> trace w' = trace w @ [Refr g,
    Connect (sockfd n) \<lparr>sin_addr = inet_addr (env w) ip, sin_port = htons port\<rparr>, Clos g, Defr g]"
proof -
  let ?w0 = "emit (Refr g) w"
  have q0: "quiet ?w0" "quiet (?w0\<lparr>fdfl := x\<rparr>)" for x using assms(1) by (simp_all add: quiet_def)
  have "\<exists>x y. io_fcntl (sockfd n) ?w0 = (0, ?w0\<lparr>fdfl := x, fdfd := y\<rparr>)"
    using q0 assms(7) by (cases w) (auto simp: io_fcntl_def fcntl_getfl_def fcntl_setfl_def fcntl_getfd_def fcntl_setfd_def
       Let_def emit_def)
  then obtain x y where f: "io_fcntl (sockfd n) ?w0 = (0, ?w0\<lparr>fdfl := x, fdfd := y\<rparr>)" by blast
  let ?w1 = "?w0\<lparr>fdfl := x, fdfd := y, k_tcpinfo := is\<rparr>"
  have q1: "quiet ?w1" using assms(1) by (simp add: quiet_def)
  obtain s1 where s1: "setsockopt (sockfd n) TCP_SYNCNT [3] ?w1 = (0, ?w1\<lparr>sockopts := s1\<rparr>)"
    using quiet_setsockopt [OF q1] by blast
  let ?a = "\<lparr>sin_addr = inet_addr (env w) ip, sin_port = htons port\<rparr>"
  let ?w2 = "(emit (Connect (sockfd n) ?a) ?w1)\<lparr>sockopts := s1, k_connect := cs\<rparr>"
  have c: "connect_retry (sockfd n) ?a (?w1\<lparr>sockopts := s1\<rparr>) = Some (0, ?w2)"
    using assms(12) by (subst connect_retry.simps) (simp add: connect_call_def emit_def)
  let ?n1 = "n\<lparr>ncb_write := Some W_tcp_tx_syn, remot_addr := ?a\<rparr>"
  let ?w3 = "?w2\<lparr>k_soerror := es\<rparr>"
  have q3: "quiet ?w3" using assms(1) by (simp add: quiet_def)
  obtain s2 where s2: "tcp_update_opts ?n1 ?w3 = ?w3\<lparr>sockopts := s2\<rparr>" using quiet_opts [OF q3] by blast
  let ?w4 = "(emit (Connect (sockfd n) ?a) ?w1)\<lparr>k_connect := cs, k_soerror := es, sockopts := s2\<rparr>"
  obtain ra ns where g1: "getname ?a ?w4 = (ra, ?w4\<lparr>k_names := ns\<rparr>)" using quiet_getname by blast
  obtain la ns2 where g2: "getname (local_addr n) (?w4\<lparr>k_names := ns\<rparr>) = (la, ?w4\<lparr>k_names := ns2\<rparr>)"
    using quiet_getname [of "local_addr n" "?w4\<lparr>k_names := ns\<rparr>"] by auto
  let ?n2 = "?n1\<lparr>remot_addr := ra, local_addr := la\<rparr>" and ?w5 = "?w4\<lparr>k_names := ns2\<rparr>"
  have q5: "quiet ?w5" using assms(1) by (simp add: quiet_def)
  obtain m where m: "io_modify ?n2 EPOLLIN ?w5 = (m, ?w5\<lparr>errno := ENOENT\<rparr>)" "m < 0"
    using q5 assms(2,9) by (auto simp: io_modify_def epoll_ctl_def errors_negative_def)
  have t: "tcp_tx_syn ?n1 ?w2 = Some (-1, ?n2, objclos g (?w5\<lparr>errno := ENOENT\<rparr>))"
    using assms(6,13) m by (subst tcp_tx_syn.simps)
      (simp add: i_tcp_check_syn_result_def soerror_call_def s2 g1 g2)
  have r: "i_tcprefr g w = (0, Some n, emit (Refr g) w)" by (rule tcp_r.good [OF assms(3-5)])
  show ?thesis
    using assms(3,8,10,11) by (simp add: tcp_connect2_def with_link_def r f tcp_save_info_def s1 c t)
      (simp add: objclos_def objdefr_def put_ncb_def)
qed


theorem connect2_immediate_lost_witness:
  "\<exists>w'. tcp_connect2 5 (Some ''10.0.0.1'') 80 fresh_world0 = Some (0, w') \<and> trace w'
    = [Refr 5, Connect 9 \<lparr>sin_addr = 8, sin_port = htons 80\<rparr>, Clos 5, Defr 5]"
proof -
  have "errors_negative fresh_world0" by (simp add: errors_negative_def fresh_simps env0_def)
  from connect2_immediate_lost [OF fresh_simps(8) this, of 5 fresh_ncb0 80 "[]" 0 "[]" "[]" "''10.0.0.1''"]
  show ?thesis by (simp add: fresh_simps env0_def)
qed

text \<open>C31: a listen that cannot join the epoll instance, because the protocol was not initialised,
  reports success and closes the link behind the user's back.\<close>

theorem listen_fails_silently:
  assumes "quiet w" and "0 \<le> g" and "objs w g = Some n" and "protocol n = IPPROTO_TCP"
    and "ncb_read n = None" and "io_tcphld w < 0" and "0 \<le> blk" and "blk < 0x7FFF"
    and "k_tcpinfo w = Some TCP_CLOSE # is"
  shows "\<exists>w' q. tcp_listen g blk w = Some (0, w') \<and> trace w' = trace w @ [Refr g, Listen (sockfd n) q, Clos g, Defr g]"
proof -
  have r: "i_tcprefr g w = (0, Some n, emit (Refr g) w)" by (rule tcp_r.good [OF assms(2-4)])
  let ?q = "if blk = 0 \<or> SOMAXCONN (env w) < blk then SOMAXCONN (env w) else blk"
  let ?w1 = "emit (Listen (sockfd n) ?q) ((emit (Refr g) w)\<lparr>k_tcpinfo := is\<rparr>)"
  let ?n1 = "n\<lparr>ncb_read := Some R_tcp_syn, ncb_write := None\<rparr>"
  have q1: "quiet ((emit (Refr g) w)\<lparr>k_tcpinfo := is\<rparr>)" using assms(1) by (simp add: quiet_def)
  obtain r1 w2 where f: "io_fcntl (sockfd n) ?w1 = (r1, w2)" by fastforce
  obtain e1 e2 e3 e4 where w2: "w2 = ?w1\<lparr>k_fail := e1, errno := e2, fdfl := e3, fdfd := e4\<rparr>" using io_fcntlD [OF f] by blast
  have "\<exists>r2. io_attach ?n1 EPOLLIN ?w1 = Some (r2, ?n1, w2) \<and> r2 < 0"
    using assms(4,6) by (simp add: io_attach_def f w2 io_handle_def)
  then obtain r2 where a: "io_attach ?n1 EPOLLIN ?w1 = Some (r2, ?n1, w2)" "r2 < 0" by blast
  have "tcp_listen g blk w = Some (0, objdefr g (put_ncb g ?n1 (objclos g w2)))"
    using assms(5,7-9) q1 a
    by (cases "blk = 0"; cases "SOMAXCONN (env w) < blk"; simp add: tcp_listen_def with_link_def r tcp_save_info_def)
  then show ?thesis by (intro exI [of _ "objdefr g (put_ncb g ?n1 (objclos g w2))"] exI [of _ ?q])
      (simp add: objclos_def objdefr_def put_ncb_def w2)
qed

theorem listen_fails_silently_witness:
  "\<exists>w' q. tcp_listen 5 16 (fresh_world0\<lparr>io_tcphld := -1\<rparr>) = Some (0, w') \<and> trace w' = [Refr 5, Listen 9 q, Clos 5, Defr 5]"
proof -
  have "quiet (fresh_world0\<lparr>io_tcphld := -1\<rparr>)" using fresh_simps(8) by (simp add: quiet_def)
  from listen_fails_silently [OF this, of 5 fresh_ncb0 16 "[]"] show ?thesis by (simp add: fresh_simps)
qed

section \<open>Writing without a builder\<close>

text \<open>C27: with \<open>LINKATTR_TCP_NO_BUILD\<close> set and a template whose head has a length, a write reads behind
  its buffer: the buffer holds the payload alone, the node counts the head too, so there is no
  defined run.\<close>

theorem no_build_overreads:
  assumes "0 \<le> g" and "objs w g = Some n" and "protocol n = IPPROTO_TCP" and "ncb_read n \<noteq> None" and "ncb_write n \<noteq> None"
    and "attr n AND LINKATTR_TCP_NO_BUILD (env w) \<noteq> 0" and "0 < t_cb (template (tcp n))"
    and "fifo_ok n" and "fhead (fifo n) = []" and "k_fail w SYS_malloc = []"
    and "k_tcpinfo w = Some TCP_ESTABLISHED # is" and "0 < cb" and "cb \<le> TCP_MAXIMUM_PACKET_SIZE" and "cb \<le> int (length origin)"
  shows "tcp_write g (Some origin) cb None w = None"
proof -
  have r: "i_tcprefr g w = (0, Some n, emit (Refr g) w)" by (rule tcp_r.good [OF assms(1-3)])
  let ?w1 = "(emit (Refr g) w)\<lparr>k_tcpinfo := is\<rparr>"
  have m: "malloc k v = (Some (replicate (nat k) (junk v)), v\<lparr>heap := heap v + 1\<rparr>)" if "k_fail v SYS_malloc = []" for k v
    using that by (simp add: malloc_def simple_call_ok)
  let ?b = "take (nat cb) origin"
  have f: "fill_payload None origin cb (replicate (nat cb) (junk w)) 0 = Some (0, ?b)"
    using assms(12,14) by (simp add: fill_payload_def buf_get_def buf_put_def)
  have p: "tcp_make_packet n origin cb None ?w1 = Some (0, Some ?b, ?w1\<lparr>heap := heap w + 1\<rparr>)"
    using assms(6,10) f by (simp add: tcp_make_packet_def m Let_def split: option.split)
  let ?x = "tx_node_zero\<lparr>data := ?b, wcb := cb + t_cb (template (tcp n)), offset := 0\<rparr>"
  have "send_call eff ?b 0 (cb + t_cb (template (tcp n))) v = None" for eff v
    using assms(7,12,14) by (simp add: send_call_def buf_get_def)
  then have t: "tcp_txn n ?x v = None" for v
    using assms(7,12) by (subst tcp_txn.simps) simp
  have i: "fifo_is_blocking n = 0" using assms(8,9) by (simp add: fifo_is_blocking_def fifo_ok_def)
  have "tcp_write_body origin cb None n (emit (Refr g) w) = None"
    using assms(4,5,10,11) by (simp add: tcp_write_body_def tcp_save_info_def p m write_node_def i t)
  then show ?thesis using assms(1,12,13) by (simp add: tcp_write_def with_link_def r)
qed

theorem no_build_overreads_witness:
  "tcp_write 5 (Some [8]) 1 None ((link_world0 [] [KRet 9])\<lparr>objs := [5 \<mapsto> (link_ncb0 [])\<lparr>attr := 2\<rparr>]\<rparr>) = None"
proof -
  let ?n = "(link_ncb0 [])\<lparr>attr := 2\<rparr>"
  have f: "fifo_ok ?n" using link_ncb0_ok [of "[]"] by (simp add: tx_ok_def fifo_ok_def)
  show ?thesis
    by (rule no_build_overreads [OF _ _ _ _ _ _ _ f])
      (simp_all add: link_world0_simps link_ncb0_simps tst0_def env0_def TCP_MAXIMUM_PACKET_SIZE_def)
qed

section \<open>Waking a link\<close>

text \<open>C21: what one thread sends to a link through the pipe is what the epoll thread of that link posts
  to its callback, and to no other link, whatever the bytes are, up to the room of one atomic write. The
  sender keeps one block that is never freed.\<close>

theorem awaken_roundtrip:
  assumes "0 \<le> g" and "objs w g = Some n" and "protocol n = IPPROTO_TCP" and "hld n = g" and "handle_ok g"
    and "io_pipefd n (emit (Refr g) w) = Some (fd, w1)" and "0 < fd" and "0 \<le> cb" and "cb < 4080" and "cb \<le> int (length d)"
    and "k_fail w1 SYS_malloc = []" and "k_send w1 = KRet m # ks" and "16 + cb \<le> m" and "nis_callback n = Some f"
  shows "\<exists>msg w2. tcp_awaken g d cb w = Some (16 + cb, w2) \<and> heap w2 = heap w1 + 1
    \<and> trace w2 = trace w1 @ [WritePipe fd msg, Defr g]
    \<and> (\<forall>v p a as. objs v g = Some n \<longrightarrow> k_recv v = RxData msg a # RxErr EAGAIN # as \<longrightarrow>
         (\<exists>v'. pipe_rx p v = Some (0, p, v') \<and> trace v' = trace v @ [Refr g, Post f (EVT_PIPEDATA g (take (nat cb) d)), Defr g]))"
proof -
  obtain pad w2 where s: "length pad = 4" "pipe_write_message n d cb (emit (Refr g) w) = Some (16 + cb, w2)"
    "trace w2 = trace w1 @ [WritePipe fd (pipe_message cb (hld n) pad (take (nat cb) d))]" "heap w2 = heap w1 + 1"
    using pipe_write_sends [OF assms(8-10,6,7,11-13)] by blast
  have l: "int (length (take (nat cb) d)) = cb" using assms(8,10) by simp
  have rx: "\<exists>v'. pipe_rx p v = Some (0, p, v') \<and> trace v' = trace v @ [Refr g, Post f (EVT_PIPEDATA g (take (nat cb) d)), Defr g]"
    if "objs v g = Some n" "k_recv v = RxData (pipe_message cb g pad (take (nat cb) d)) a # RxErr EAGAIN # as" for v p a as
    using pipe_rx_message [OF refl assms(8,9) s(1) assms(5) l that, of p] assms(4,14) by simp
  have r: "i_tcprefr g w = (0, Some n, emit (Refr g) w)" by (rule tcp_r.good [OF assms(1-3)])
  have "tcp_awaken g d cb w = Some (16 + cb, objdefr g (put_ncb g n w2))"
    using assms(1) s(2) by (simp add: tcp_awaken_def with_link_def r)
  then show ?thesis
    using s(3,4) rx assms(4)
    by (intro exI [of _ "pipe_message cb g pad (take (nat cb) d)"] exI [of _ "objdefr g (put_ncb g n w2)"])
      (simp add: objdefr_def put_ncb_def)
qed

theorem awaken_roundtrip_witness:
  "\<exists>msg w2 v'. tcp_awaken 5 [7, 8, 9] 2 (fresh_world0\<lparr>k_send := [KRet 100]\<rparr>) = Some (18, w2)
    \<and> trace w2 = [Refr 5, Refr 2, Defr 2, WritePipe 21 msg, Defr 5]
    \<and> pipe_rx ncb_zero (fresh_world0\<lparr>k_recv := [RxData msg sockaddr_zero, RxErr EAGAIN]\<rparr>) = Some (0, ncb_zero, v')
    \<and> trace v' = [Refr 5, Post 1 (EVT_PIPEDATA 5 [7, 8]), Defr 5]"
proof -
  let ?w = "fresh_world0\<lparr>k_send := [KRet 100]\<rparr>"
  have p: "io_pipefd fresh_ncb0 (emit (Refr 5) ?w) = Some (21, objdefr 2 (emit (Refr 2) (emit (Refr 5) ?w)))"
    by (simp add: io_pipefd_def io_handle_def fresh_simps iob_refr_def)
      (simp add: fresh_world0_def listen_world0_def epo_of_def epo_index_def)
  have k: "k_fail fresh_world0 SYS_malloc = []" using fresh_simps(8) by (simp add: quiet_def)
  from awaken_roundtrip [where g = 5 and w = ?w and cb = 2 and d = "[7, 8, 9]" and f = 1, OF _ _ _ _ _ p]
  obtain msg w2 where w2: "tcp_awaken 5 [7, 8, 9] 2 ?w = Some (18, w2)"
    "trace w2 = [Refr 5, Refr 2, Defr 2, WritePipe 21 msg, Defr 5]"
    "\<forall>v p a as. objs v 5 = Some fresh_ncb0 \<longrightarrow> k_recv v = RxData msg a # RxErr EAGAIN # as \<longrightarrow>
         (\<exists>v'. pipe_rx p v = Some (0, p, v') \<and> trace v' = trace v @ [Refr 5, Post 1 (EVT_PIPEDATA 5 [7, 8]), Defr 5])"
    using k by (auto simp: fresh_simps handle_ok_def objdefr_def)
  let ?v = "fresh_world0\<lparr>k_recv := [RxData msg sockaddr_zero, RxErr EAGAIN]\<rparr>"
  from w2(3) [rule_format, of ?v sockaddr_zero "[]" ncb_zero] w2(1,2) show ?thesis by (auto simp: fresh_simps)
qed

end
