(* ===== verification/Memory.thy ===== *)
theory Memory
  imports Life
begin

text \<open>
  Who owns the memory. Every block on the heap that the TCP part allocates belongs to a link, as its
  buffers, its large packet or a node of its queue, or is a task of the worker. What the heap holds
  beyond that is \<open>stray\<close>; no operation adds to it or takes from it, so nothing leaks and nothing is
  freed twice.
\<close>

section \<open>Steps that move no memory\<close>

definition still :: "world \<Rightarrow> world \<Rightarrow> bool" where
  "still w w' \<longleftrightarrow> objs w' = objs w \<and> pools w' = pools w \<and> wp_tcphld w' = wp_tcphld w
     \<and> k_newobj w' = k_newobj w \<and> heap w' = heap w"

lemma still_refl [simp, intro]: "still w w"
  by (simp add: still_def)

lemma still_trans [trans]: "still w w' \<Longrightarrow> still w' w'' \<Longrightarrow> still w w''"
  by (simp add: still_def)

lemma still_emit [simp]: "still w (emit e w)" "still w (post n ev w)"
  by (simp_all add: still_def post_upd)

lemma still_ctl: "ctl_step w w' \<Longrightarrow> still w w'"
  by (auto simp: ctl_step_def still_def)

lemma still_opt: "opt_step w w' \<Longrightarrow> still w w'"
  by (auto simp: opt_step_def still_def)

lemma still_io: "io_step w w' \<Longrightarrow> still w w'"
  by (auto simp: io_step_def still_def)

lemma still_fcntl: "io_fcntl fd w = (r, w') \<Longrightarrow> still w w'"
  by (auto dest!: io_fcntlD simp: still_def)

lemma still_simple: "simple_call s w = (r, w') \<Longrightarrow> still w w'"
  by (auto dest!: simple_callD simp: still_def)

lemma still_modify: "io_modify n m w = (r, w') \<Longrightarrow> still w w'"
  by (rule still_ctl) (rule io_modify_ctl)

lemma still_setsockopt: "setsockopt fd opt v w = (r, w') \<Longrightarrow> still w w'"
  by (rule still_opt) (rule setsockopt_step)

lemma still_options [simp]: "still w (tcp_update_opts n w)" "still w (snd (ncb_set_linger n a b w))"
  by (simp_all add: still_opt update_opts_step ncb_set_linger_def opt_step_setsockopt)

lemma still_getname: "getname a w = (b, w') \<Longrightarrow> still w w'"
  by (auto simp: getname_def still_def split: list.splits)

lemma still_info: "tcp_save_info n w = Some (r, st, w') \<Longrightarrow> still w w'"
  by (erule save_infoE) (auto simp: still_def)

lemma still_attach: "io_attach n m w = Some (r, n', w') \<Longrightarrow> still w w' \<and> (\<exists>ep. n' = n\<lparr>epfd := ep\<rparr>)"
  using io_attachD [of n m w r n' w'] still_io by blast

lemma still_connect: "connect_retry fd a w = Some (r, w') \<Longrightarrow> still w w'"
proof (induction fd a w rule: connect_retry.induct)
  case (1 fd a w)
  obtain q v where c: "connect_call fd a w = Some (q, v)"
    using "1.prems" by (subst (asm) connect_retry.simps) (auto split: option.splits)
  have "still w v" using c by (auto simp: connect_call_def still_def split: list.splits kans.splits)
  moreover have "still v w'"
    using "1.prems" "1.IH" [OF c refl] by (subst (asm) connect_retry.simps) (auto simp: c split: if_splits)
  ultimately show ?case by (rule still_trans)
qed

lemma still_malloc:
  "malloc k w = (b, w') \<Longrightarrow> still (w\<lparr>heap := heap w + (if b = None then 0 else 1)\<rparr>) w'"
  by (drule mallocD) (auto simp: still_def)

section \<open>Operations on one link\<close>

text \<open>A TCP link as the code builds it: the routines it may have, and a well-formed queue.\<close>

definition tcp_link :: "ncb \<Rightarrow> bool" where
  "tcp_link n \<longleftrightarrow> protocol n = IPPROTO_TCP \<and> tx_ok n
     \<and> ncb_read n \<in> {None, Some R_tcp_rx, Some R_tcp_syn}
     \<and> ncb_write n \<in> {None, Some W_tcp_tx, Some W_tcp_tx_syn}"

text \<open>Working on a link, the heap changes by what the link owns more or less, and by \<open>d\<close>.\<close>

definition accounts :: "int \<Rightarrow> ncb \<Rightarrow> world \<Rightarrow> ncb \<Rightarrow> world \<Rightarrow> bool" where
  "accounts d n w n' w' \<longleftrightarrow> tcp_link n' \<and> hld n' = hld n \<and> objs w' = objs w \<and> pools w' = pools w
     \<and> wp_tcphld w' = wp_tcphld w \<and> k_newobj w' = k_newobj w
     \<and> heap w' - ncb_owned n' = heap w - ncb_owned n + d"

lemma accounts_still: "tcp_link n \<Longrightarrow> still w w' \<Longrightarrow> accounts 0 n w n w'"
  by (simp add: accounts_def still_def)

lemma accounts_trans:
  "accounts d n w n' w' \<Longrightarrow> accounts e n' w' n'' w'' \<Longrightarrow> accounts (d + e) n w n'' w''"
  by (simp add: accounts_def)

lemma accounts_then_still: "accounts d n w n' w' \<Longrightarrow> still w' w'' \<Longrightarrow> accounts d n w n' w''"
  by (simp add: accounts_def still_def)

lemma still_then_accounts: "still w w' \<Longrightarrow> accounts d n w' n' w'' \<Longrightarrow> accounts d n w n' w''"
  by (simp add: accounts_def still_def)

text \<open>Fields that own nothing.\<close>

lemma owned_simps [simp]:
  "ncb_owned (n\<lparr>epfd := a\<rparr>) = ncb_owned n" "ncb_owned (n\<lparr>sockfd := d\<rparr>) = ncb_owned n"
  "ncb_owned (n\<lparr>remot_addr := b\<rparr>) = ncb_owned n" "ncb_owned (n\<lparr>local_addr := b\<rparr>) = ncb_owned n"
  "ncb_owned (n\<lparr>ncb_read := r\<rparr>) = ncb_owned n" "ncb_owned (n\<lparr>ncb_write := r\<rparr>) = ncb_owned n"
  "ncb_owned (n\<lparr>attr := at\<rparr>) = ncb_owned n" "ncb_owned (n\<lparr>hld := h\<rparr>) = ncb_owned n"
  "ncb_owned (n\<lparr>nis_callback := c\<rparr>) = ncb_owned n"
  "ncb_owned (n\<lparr>tcp := (tcp n)\<lparr>template := t\<rparr>\<rparr>) = ncb_owned n"
  "ncb_owned (n\<lparr>tcp := (tcp n)\<lparr>prtemplate := p, template := t\<rparr>\<rparr>) = ncb_owned n"
  "ncb_owned (n\<lparr>tcp := (tcp n)\<lparr>rx_parse_offset := k\<rparr>\<rparr>) = ncb_owned n"
  by (simp_all add: ncb_owned_def ncb_lb_marked_def)

lemma tcp_link_simps [simp]:
  "tcp_link (n\<lparr>epfd := a\<rparr>) = tcp_link n" "tcp_link (n\<lparr>sockfd := d\<rparr>) = tcp_link n"
  "tcp_link (n\<lparr>remot_addr := b\<rparr>) = tcp_link n" "tcp_link (n\<lparr>local_addr := b\<rparr>) = tcp_link n"
  "tcp_link (n\<lparr>attr := at\<rparr>) = tcp_link n" "tcp_link (n\<lparr>hld := h\<rparr>) = tcp_link n"
  "tcp_link (n\<lparr>nis_callback := c\<rparr>) = tcp_link n" "tcp_link (n\<lparr>packet := p\<rparr>) = tcp_link n"
  "tcp_link (n\<lparr>tcp := t\<rparr>) = tcp_link n"
  by (simp_all add: tcp_link_def tx_ok_def fifo_ok_def nodes_ok_def)

lemma tcp_linkD:
  "tcp_link n \<Longrightarrow> protocol n = IPPROTO_TCP" "tcp_link n \<Longrightarrow> tx_ok n"
  by (simp_all add: tcp_link_def)

lemma tcp_link_routines:
  "tcp_link n \<Longrightarrow> r \<in> {None, Some R_tcp_rx, Some R_tcp_syn} \<Longrightarrow> tcp_link (n\<lparr>ncb_read := r\<rparr>)"
  "tcp_link n \<Longrightarrow> x \<in> {None, Some W_tcp_tx, Some W_tcp_tx_syn} \<Longrightarrow> tcp_link (n\<lparr>ncb_write := x\<rparr>)"
  by (simp_all add: tcp_link_def tx_ok_def fifo_ok_def nodes_ok_def)

section \<open>Receiving\<close>

lemma still_recvdata: "ncb_post_recvdata m b off len w = Some w' \<Longrightarrow> still w w'"
  by (auto simp: ncb_post_recvdata_def split: Option.bind_splits)

lemma accounts_rx:
  assumes "tcp_link n" "rx_buffer (tcp n) \<noteq> None" "rx_buffer t \<noteq> None" "(p = None) = (packet n = None)"
    and "still (w\<lparr>heap := heap w + (if lbdata t \<noteq> None \<and> 0 < lbsize t then 1 else 0) - (if ncb_lb_marked n then 1 else 0)\<rparr>) w'"
  shows "accounts 0 n w (n\<lparr>packet := p, tcp := t\<rparr>) w' \<and> rx_buffer (tcp (n\<lparr>packet := p, tcp := t\<rparr>)) \<noteq> None"
  using assms tcp_linkD [OF assms(1)]
  by (auto simp: accounts_def still_def ncb_owned_def ncb_lb_marked_def split: if_splits)

lemma accounts_rx_tcp:
  assumes "tcp_link n" "rx_buffer (tcp n) \<noteq> None" "rx_buffer t \<noteq> None"
    and "still (w\<lparr>heap := heap w + (if lbdata t \<noteq> None \<and> 0 < lbsize t then 1 else 0) - (if ncb_lb_marked n then 1 else 0)\<rparr>) w'"
  shows "accounts 0 n w (n\<lparr>tcp := t\<rparr>) w' \<and> rx_buffer (tcp (n\<lparr>tcp := t\<rparr>)) \<noteq> None"
  using accounts_rx [OF assms(1-3), of "packet n"] assms(4) by simp

lemma case_optE:
  assumes "(case t of None \<Rightarrow> a | Some x \<Rightarrow> f x) = r"
  obtains (none) "t = None" "a = r" | (some) x where "t = Some x" "f x = r"
  using assms by (cases t) auto

lemma marked_done:
  assumes "still w v" "tcp_link n" "rx_buffer (tcp n) \<noteq> None" "ncb_lb_marked n"
  shows "accounts 0 n w (n\<lparr>tcp := (tcp n)\<lparr>lbdata := None, lboffset := 0, lbsize := 0\<rparr>\<rparr>) (free v) \<and> rx_buffer (tcp n) \<noteq> None"
  using accounts_rx_tcp [OF assms(2,3), of "(tcp n)\<lparr>lbdata := None, lboffset := 0, lbsize := 0\<rparr>" w "free v"] assms
  by (simp add: still_def free_def)

lemma parse_marked_accounts:
  assumes p: "tcp_parse_marked_lb n dat c w = Some (r, n', w')"
    and ok: "tcp_link n" "rx_buffer (tcp n) \<noteq> None" "ncb_lb_marked n"
  shows "accounts 0 n w n' w' \<and> rx_buffer (tcp n') \<noteq> None"
  using p unfolding tcp_parse_marked_lb_def
proof (elim run_elims, goal_cases)
  case (1 t lb bs lb')
  then have "n' = n\<lparr>tcp := (tcp n)\<lparr>lbdata := Some lb', lboffset := lboffset (tcp n) + c\<rparr>\<rparr>" "w' = w" by auto
  then show ?case
    using ok by (simp only:) (rule accounts_rx_tcp; simp add: ncb_lb_marked_def)
next
  case prems: (2 t ov lb bs lb' v)
  then show ?case using marked_done [OF still_recvdata ok] by auto
next
  case prems: (3 t ov lb bs lb' v)
  then show ?case using marked_done [OF still_recvdata ok] by auto
qed

lemma parse_body_accounts:
  assumes p: "tcp_parse_body n dat c u ov w = Some (r, n', w')"
    and ok: "tcp_link n" "rx_buffer (tcp n) \<noteq> None" "\<not> ncb_lb_marked n"
  shows "accounts 0 n w n' w' \<and> rx_buffer (tcp n') \<noteq> None"
proof -
  have same: "accounts 0 n w n w" by (rule accounts_still) (use ok in auto)
  have small: "accounts 0 n w (n\<lparr>packet := Some q, tcp := (tcp n)\<lparr>rx_parse_offset := k\<rparr>\<rparr>) v"
    if "packet n = Some pk" "still w v" for q k v pk
    using accounts_rx [OF ok(1,2), of "(tcp n)\<lparr>rx_parse_offset := k\<rparr>" "Some q" w v] that ok
    by (simp add: ncb_lb_marked_def still_def split: if_splits)
  have large: "accounts 0 n w (n\<lparr>tcp := (tcp n)\<lparr>lbdata := Some lb, lbsize := total, lboffset := c, rx_parse_offset := 0\<rparr>\<rparr>) v"
    if "malloc total w = (Some b, v)" "total > TCP_BUFFER_SIZE" for lb total v b
    using accounts_rx_tcp [OF ok(1,2)] still_malloc [OF that(1)] that(2) ok
    by (simp add: TCP_BUFFER_SIZE_def)
  have none: "accounts 0 n w n v" if "malloc total w = (None, v)" for total v
    using still_malloc [OF that] ok(1) by (intro accounts_still) (simp_all add: still_def)
  obtain y where y: "y = (r, n', w')" by blast
  from p [folded y] have "case y of (r, n', w') \<Rightarrow> accounts 0 n w n' w' \<and> rx_buffer (tcp n') \<noteq> None"
    unfolding tcp_parse_body_def
    by (elim run_elims case_optE) (use ok(2) in \<open>auto dest: still_recvdata intro: same small large none\<close>)
  then show ?thesis by (simp add: y)
qed

lemma parse_pkt_accounts:
  assumes p: "tcp_parse_pkt n dat c w = Some (r, n', w')" and ok: "tcp_link n" "rx_buffer (tcp n) \<noteq> None"
  shows "accounts 0 n w n' w' \<and> rx_buffer (tcp n') \<noteq> None"
proof -
  have same: "accounts 0 n w n v" if "still w v" for v by (rule accounts_still [OF ok(1) that])
  have off: "accounts 0 n w (n\<lparr>packet := Some q, tcp := (tcp n)\<lparr>rx_parse_offset := k\<rparr>\<rparr>) v
      \<and> tcp_link (n\<lparr>packet := Some q, tcp := (tcp n)\<lparr>rx_parse_offset := k\<rparr>\<rparr>)"
    if "packet n = Some pk" "still w v" for q k v pk
    using that ok by (auto simp: accounts_def still_def ncb_owned_def ncb_lb_marked_def)
  have body: "accounts 0 n w m v \<and> rx_buffer (tcp m) \<noteq> None"
    if "tcp_parse_body (n\<lparr>packet := Some q, tcp := (tcp n)\<lparr>rx_parse_offset := k\<rparr>\<rparr>) dat c a b w = Some (s, m, v)"
      "packet n = Some pk" "\<not> ncb_lb_marked n" for q k a b s m v pk
    using parse_body_accounts [OF that(1)] off [OF that(2) still_refl, where q = q and k = k] that(3) ok(2)
      accounts_trans [of 0 n w "n\<lparr>packet := Some q, tcp := (tcp n)\<lparr>rx_parse_offset := k\<rparr>\<rparr>" w 0 m v]
    by (simp add: ncb_lb_marked_def)
  have raw: "accounts 0 n w (n\<lparr>tcp := (tcp n)\<lparr>rx_parse_offset := 0\<rparr>\<rparr>) v" if "still w v" for v
    using that ok by (simp add: accounts_def still_def)
  obtain y where y: "y = (r, n', w')" by blast
  from p [folded y] have "case y of (r, n', w') \<Rightarrow> accounts 0 n w n' w' \<and> rx_buffer (tcp n') \<noteq> None"
    unfolding tcp_parse_pkt_def Let_def
    by (cases y, elim run_elims)
      (use ok(2) in \<open>auto dest: still_recvdata parse_body_accounts [OF _ ok] parse_marked_accounts [OF _ ok] body
        intro: same raw off [THEN conjunct1]\<close>)
  then show ?thesis by (simp add: y)
qed

lemma parse_all_accounts:
  assumes "tcp_parse_all n buf off c w = Some y"
  shows "tcp_link n \<and> rx_buffer (tcp n) \<noteq> None \<longrightarrow>
    (case y of (r, n', w') \<Rightarrow> accounts 0 n w n' w' \<and> rx_buffer (tcp n') \<noteq> None)"
  using _ assms
proof (rule tcp_parse_all.raw_induct)
  fix f n buf off c w y
  assume IH: "\<And>n buf off c w y. f n buf off c w = Some y \<Longrightarrow> tcp_link n \<and> rx_buffer (tcp n) \<noteq> None \<longrightarrow>
      (case y of (r, n', w') \<Rightarrow> accounts 0 n w n' w' \<and> rx_buffer (tcp n') \<noteq> None)"
    and step: "Option.bind (tcp_parse_pkt n (drop (nat off) buf) c w) (\<lambda>(overplus, n, w).
         if overplus < 0 then Some (- 1, n, w)
         else if 0 < overplus then f n buf (off + (c - overplus)) overplus w
              else Some (0, n, w)) = Some y"
  show "tcp_link n \<and> rx_buffer (tcp n) \<noteq> None \<longrightarrow>
    (case y of (r, n', w') \<Rightarrow> accounts 0 n w n' w' \<and> rx_buffer (tcp n') \<noteq> None)"
  proof
    assume "tcp_link n \<and> rx_buffer (tcp n) \<noteq> None"
    then have ok: "tcp_link n" "rx_buffer (tcp n) \<noteq> None" by auto
    obtain ov n1 w1 where p: "tcp_parse_pkt n (drop (nat off) buf) c w = Some (ov, n1, w1)"
      using step by (auto split: Option.bind_splits)
    note a = parse_pkt_accounts [OF p ok]
    show "case y of (r, n', w') \<Rightarrow> accounts 0 n w n' w' \<and> rx_buffer (tcp n') \<noteq> None"
    proof (cases "ov > 0")
      case True
      then have "f n1 buf (off + (c - ov)) ov w1 = Some y" using step p by simp
      from IH [OF this] a show ?thesis by (cases y) (auto simp: accounts_def)
    next
      case False
      with a step p show ?thesis by (auto split: if_splits)
    qed
  qed
qed

lemma i_tcp_rx_accounts:
  assumes rx: "i_tcp_rx n w = Some (r, n', w')" and ok: "tcp_link n"
  shows "accounts 0 n w n' w' \<and> rx_buffer (tcp n') \<noteq> None"
proof -
  obtain buf cb bs a w1 b2 where b: "rx_buffer (tcp n) = Some buf" and c: "recv_call TCP_BUFFER_SIZE w = Some (cb, bs, a, w1)"
    and res: "(let m = n\<lparr>tcp := (tcp n)\<lparr>rx_buffer := Some b2\<rparr>\<rparr> in
      if cb > 0 then tcp_parse_all m b2 0 cb w1
      else if cb = 0 then Some (- ECONNRESET, m, w1)
      else if errno w1 = EINTR then Some (0, m, w1)
      else if errno w1 = EAGAIN then Some (EAGAIN, m, w1)
      else Some (-1, m, w1)) = Some (r, n', w')"
    using rx by (auto simp: i_tcp_rx_def split: Option.bind_splits)
  let ?m = "n\<lparr>tcp := (tcp n)\<lparr>rx_buffer := Some b2\<rparr>\<rparr>"
  have "still w w1" using c by (auto simp: recv_call_def Let_def still_def split: list.splits rxans.splits)
  then have m: "accounts 0 n w ?m w1" "tcp_link ?m" "rx_buffer (tcp ?m) \<noteq> None"
    using ok b by (auto simp: accounts_def still_def ncb_owned_def ncb_lb_marked_def)
  show ?thesis
  proof (cases "cb > 0")
    case True
    with res have "tcp_parse_all ?m b2 0 cb w1 = Some (r, n', w')" by (simp add: Let_def)
    from parse_all_accounts [OF this] m show ?thesis by (auto simp: accounts_def)
  next
    case False
    with res m show ?thesis by (auto simp: Let_def split: if_splits)
  qed
qed

lemma tcp_rx_accounts:
  assumes "tcp_rx n w = Some (r, n', w')" and "tcp_link n"
  shows "accounts 0 n w n' w'"
proof -
  have s: "(case (n, w) of (n, w) \<Rightarrow> tcp_rx n w) = Some (r, n', w')" using assms by simp
  have "case (n', w') of (n', w') \<Rightarrow> accounts 0 n w n' w'"
    by (rule tcp_l.keeps [OF _ _ s, where P = "\<lambda>(n', w'). accounts 0 n w n' w'"])
      (use assms(2) in \<open>auto simp: accounts_def dest!: i_tcp_rx_accounts\<close>)
  then show ?thesis by simp
qed

section \<open>Sending\<close>

lemma accounts_fifo:
  assumes "tcp_link n" "tx_ok (n\<lparr>fifo := f\<rparr>)" "still w v"
    "heap w' = heap v + 2 * (int (length (fhead f)) - int (length (fhead (fifo n)))) + d"
    "w' = v\<lparr>heap := heap w'\<rparr>"
  shows "accounts d n w (n\<lparr>fifo := f\<rparr>) w'"
proof -
  have "objs w' = objs v" "pools w' = pools v" "wp_tcphld w' = wp_tcphld v" "k_newobj w' = k_newobj v"
    by (subst assms(5), simp)+
  then show ?thesis
    using assms(1-4) by (auto simp: accounts_def still_def ncb_owned_def ncb_lb_marked_def tcp_link_def)
qed

context sender
begin

lemma write_node_accounts:
  assumes w: "write_node txn n x w = Some (r, n', w')" and ok: "tcp_link n" "node_ok x"
  shows "accounts (-2) n w n' w'"
proof -
  have tx: "fifo_ok n" "nodes_ok n" using ok(1) by (simp_all add: tcp_link_def tx_ok_def)
  obtain r1 x1 w1 where t: "(if fifo_is_blocking n = 0 then txn n x w else Some (- EAGAIN, x, w)) = Some (r1, x1, w1)"
    using w by (auto simp: write_node_def split: Option.bind_splits)
  have x1: "still w w1" "node_ok x1"
    using t law [OF ok(2), of n w] ok(2) by (auto simp: txn_law_def still_def split: if_splits)
  obtain r2 n2 w2 where q: "fifo_queue n x1 w1 = (r2, n2, w2)" by (metis prod_cases3)
  have freed: "accounts (-2) n w n (free (free v))" if "still w1 v" for v
    using accounts_fifo [OF ok(1), of "fifo n" w v "free (free v)" "-2"] ok(1) still_trans [OF x1(1) that]
    by (simp add: tcp_link_def free_def)
  have res: "(n', w') = (n, free (free w1)) \<or> (n', w') = (if r2 < 0 then (n2, free (free w2)) else (n2, w2))"
    using w t q by (auto simp: write_node_def split: if_splits)
  from q show ?thesis
  proof (cases rule: fifo_queueE)
    case refused
    then show ?thesis using res freed [OF still_refl] freed [OF still_ctl [OF refused(4)]] by auto
  next
    case queued
    have "tx_ok n2" using fifo_ok_queue [OF tx(1) q] tx(2) x1(2) by (simp add: tx_ok_def nodes_ok_def queued)
    then have "accounts (-2) n w n2 w2"
      unfolding queued(3) using still_trans [OF x1(1) still_ctl [OF queued(4)]] ok(1)
      by (intro accounts_fifo [where v = w2]) (simp_all)
    moreover have "\<not> r2 < 0" using queued(1) tx(1) by (simp add: fifo_ok_def)
    ultimately show ?thesis using res freed [OF still_refl] by auto
  qed
qed

end

lemma write_body_accounts:
  assumes w: "tcp_write_body origin cb s n w = Some (r, n', w')"
    and ok: "tcp_link n" "template_ok n w" and cb: "0 < cb"
  shows "accounts 0 n w n' w'"
proof (cases "ncb_write n = None \<or> ncb_read n = None")
  case True
  then show ?thesis using w accounts_still [OF ok(1) still_refl] by (auto simp: tcp_write_body_def)
next
  case rw: False
  obtain r1 st w1 where i: "tcp_save_info n w = Some (r1, st, w1)"
    using w rw by (auto simp: tcp_write_body_def split: Option.bind_splits)
  have w1: "still w w1" "\<exists>ks. w1 = w\<lparr>k_tcpinfo := ks\<rparr>"
    using still_info [OF i] i by (auto elim: save_infoE)
  show ?thesis
  proof (cases "r1 \<ge> 0 \<and> st \<noteq> TCP_ESTABLISHED")
    case True
    then show ?thesis using w rw i accounts_still [OF ok(1) w1(1)] by (auto simp: tcp_write_body_def)
  next
    case est: False
    obtain r2 p w2 where mp: "tcp_make_packet n origin cb s w1 = Some (r2, p, w2)"
      using w rw i est by (auto simp: tcp_write_body_def split: Option.bind_splits)
    have t1: "template_ok n w1" using ok(2) w1(2) by (auto simp: template_ok_def)
    note ml = make_packet_length [OF mp t1 cb]
    have w2: "still (w\<lparr>heap := heap w + (if p = None then 0 else 1)\<rparr>) w2"
      using ml(2) w1(1) by (auto simp: still_def)
    have kept: "accounts 0 n w n v" if "still w v" for v by (rule accounts_still [OF ok(1) that])
    show ?thesis
    proof (cases "p = None \<or> r2 < 0")
      case True
      then have "n' = n \<and> w' = (if p = None then w2 else free w2)"
        using w rw i est mp by (auto simp: tcp_write_body_def split: option.splits)
      with w2 show ?thesis by (auto intro!: kept simp: still_def free_def)
    next
      case False
      then obtain b where b: "p = Some b" "\<not> r2 < 0" by auto
      obtain m w3 where mal: "malloc sizeof_tx_node w2 = (m, w3)" by fastforce
      note w3 = still_malloc [OF mal]
      show ?thesis
      proof (cases m)
        case None
        then have "n' = n \<and> w' = free w3" using w rw i est mp b mal by (auto simp: tcp_write_body_def)
        with None w2 w3 b show ?thesis by (auto intro!: kept simp: still_def free_def)
      next
        case (Some mm)
        let ?x = "tx_node_zero\<lparr>data := b, wcb := cb + t_cb (template (tcp n)), offset := 0\<rparr>"
        have wn: "write_node tcp_txn n ?x w3 = Some (r, n', w')"
          using w rw i est mp b mal Some by (auto simp: tcp_write_body_def)
        have "int (length b) = cb + t_cb (template (tcp n))" using ml(1) b by simp
        then have "node_ok ?x" using cb ok(2) by (simp add: node_ok_def tx_node_zero_def template_ok_def)
        from tcp_s.write_node_accounts [OF wn ok(1) this] show ?thesis
          using w2 w3 b Some by (auto simp: accounts_def still_def)
      qed
    qed
  qed
qed

lemma tcp_tx_accounts:
  assumes t: "tcp_tx n w = Some (r, n', w')" and ok: "tcp_link n"
  shows "accounts 0 n w n' w'"
proof -
  have tx: "tx_ok n" using ok by (rule tcp_linkD)
  from tcp_tx_law [OF t tx] obtain f where l: "n' = n\<lparr>fifo := f\<rparr>" "tx_ok n'" "length (fhead (fifo n')) = length (fhead (fifo n))"
    by auto
  obtain r1 st w1 where i: "tcp_save_info n w = Some (r1, st, w1)"
    using t by (auto simp: tcp_tx_def split: Option.bind_splits)
  have "still w1 w'"
  proof (cases "w' = w1")
    case False
    then obtain x x' where "fifo_top n = Some x" "tcp_txn n x w1 = Some (r, x', w')"
      using t i by (auto simp: tcp_tx_def split: Option.bind_splits if_splits option.splits)
    with tcp_s.law [of x n w1 r x' w'] tx show ?thesis
      by (auto simp: tx_ok_def nodes_ok_def fifo_top_def txn_law_def still_def split: list.splits)
  qed simp
  then have "still w w'" using still_info [OF i] still_trans by blast
  with l ok show ?thesis by (auto intro: accounts_fifo)
qed

lemma tcp_tx_syn_accounts:
  "tcp_tx_syn n w = Some (r, n', w') \<Longrightarrow> tcp_link n \<Longrightarrow>
     accounts 0 n w n' w' \<and> (r = -1 \<or> r = - EAGAIN \<or> r = 0)"
proof (induction n w rule: tcp_tx_syn.induct)
  case (1 n w)
  obtain s e w1 where c: "i_tcp_check_syn_result w = Some (s, e, w1)"
    using "1.prems"(1) by (subst (asm) tcp_tx_syn.simps) (auto split: option.splits)
  have w1: "still w w1"
    using c by (auto simp: i_tcp_check_syn_result_def soerror_call_def still_def
        split: Option.bind_splits list.splits kans.splits)
  let ?w2 = "tcp_update_opts n w1"
  obtain ra w3 where g1: "getname (remot_addr n) ?w2 = (ra, w3)" by fastforce
  obtain la w4 where g2: "getname (local_addr n) w3 = (la, w4)" by fastforce
  let ?n = "n\<lparr>remot_addr := ra, local_addr := la\<rparr>"
  obtain m w5 where m: "io_modify ?n EPOLLIN w4 = (m, w5)" by fastforce
  have w5: "still w w5" "still w (objclos h w5)" "still w (ncb_post_connected k w5)" for h k
    using still_trans [OF still_trans [OF still_trans [OF w1 still_options(1)] still_getname [OF g1]] still_getname [OF g2]]
      still_modify [OF m] by (auto simp: objclos_def ncb_post_connected_def intro: still_trans)
  have new: "accounts 0 n w (?n\<lparr>ncb_read := Some R_tcp_rx, ncb_write := Some W_tcp_tx\<rparr>) v" if "still w v" for v
    using that "1.prems"(2) by (simp add: accounts_def still_def tcp_link_routines)
  have old: "accounts 0 n w ?n v" "accounts 0 n w n v" if "still w v" for v
    using that "1.prems"(2) by (simp_all add: accounts_def still_def)
  show ?case
  proof (cases "s \<noteq> 0 \<and> e = EINTR")
    case True
    then have "tcp_tx_syn n w1 = Some (r, n', w')" using "1.prems"(1) c by (subst (asm) tcp_tx_syn.simps) simp
    with "1.IH" [OF c refl refl] True "1.prems"(2)
    have "accounts 0 n w1 n' w'" "r = -1 \<or> r = - EAGAIN \<or> r = 0" by simp_all
    then show ?thesis using still_then_accounts [OF w1] by blast
  next
    case False
    let ?m = "?n\<lparr>ncb_read := Some R_tcp_rx, ncb_write := Some W_tcp_tx\<rparr>"
    have "(r = -1 \<or> r = - EAGAIN \<or> r = 0) \<and> ((n', w') = (n, w1) \<or> (n', w') = (?n, objclos (hld n) w5) \<or> (n', w') = (?m, ncb_post_connected ?m w5))"
      using "1.prems"(1) c g1 g2 m False by (subst (asm) tcp_tx_syn.simps) (auto simp: Let_def split: if_splits)
    then show ?thesis using new [OF w5(3)] old(1) [OF w5(2)] old(2) [OF w1] by auto
  qed
qed

end
