(* ===== verification/Leakfree.thy ===== *)
theory Leakfree
  imports Memory
begin

text \<open>
  The memory of the whole TCP part: whatever the users, the epoll threads, the worker and the object
  manager do, every block on the heap keeps exactly one owner.
\<close>

section \<open>The account\<close>

definition owned_sum :: "(objhld \<Rightarrow> ncb option) \<Rightarrow> int" where
  "owned_sum os = (\<Sum>h \<in> dom os. ncb_owned (the (os h)))"

definition pool_tasks :: "objhld \<Rightarrow> world \<Rightarrow> int" where
  "pool_tasks p w = (case pools w p of None \<Rightarrow> 0 | Some q \<Rightarrow> int (length (tasks q)))"

text \<open>What is on the heap and belongs neither to a link nor to the task list of the pool \<open>p\<close>.\<close>

definition stray :: "objhld \<Rightarrow> world \<Rightarrow> int" where
  "stray p w = heap w - owned_sum (objs w) - pool_tasks p w"

text \<open>The object manager hands out handles that are not in use.\<close>

definition fresh_handles :: "world \<Rightarrow> bool" where
  "fresh_handles w \<longleftrightarrow> distinct (filter (\<lambda>h. 0 \<le> h) (k_newobj w))
     \<and> (\<forall>h \<in> set (k_newobj w). 0 \<le> h \<longrightarrow> objs w h = None)"

definition mem_ok :: "objhld \<Rightarrow> world \<Rightarrow> bool" where
  "mem_ok p w \<longleftrightarrow> finite (dom (objs w)) \<and> fresh_handles w
     \<and> (\<forall>h n. objs w h = Some n \<and> protocol n = IPPROTO_TCP \<longrightarrow> tcp_link n \<and> hld n = h)
     \<and> 0 \<le> p \<and> (wp_tcphld w = p \<or> wp_tcphld w < 0)
     \<and> (\<exists>q. pools w p = Some q \<and> (\<forall>t \<in> set (tasks q). task_thread t = p))"

definition keeps :: "objhld \<Rightarrow> world \<Rightarrow> world \<Rightarrow> bool" where
  "keeps p w w' \<longleftrightarrow> mem_ok p w' \<and> stray p w' = stray p w"

lemma keeps_refl: "mem_ok p w \<Longrightarrow> keeps p w w"
  by (simp add: keeps_def)

lemma keeps_trans: "keeps p w w' \<Longrightarrow> keeps p w' w'' \<Longrightarrow> keeps p w w''"
  by (simp add: keeps_def)

lemma still_mem_ok: "still w w' \<Longrightarrow> mem_ok p w' = mem_ok p w"
  by (simp add: still_def mem_ok_def fresh_handles_def)

lemma still_stray: "still w w' \<Longrightarrow> stray p w' = stray p w"
  by (simp add: still_def stray_def pool_tasks_def)

lemma keeps_still: "mem_ok p w \<Longrightarrow> still w w' \<Longrightarrow> keeps p w w'"
  by (simp add: keeps_def still_mem_ok still_stray)

lemma keeps_then_still: "keeps p w w' \<Longrightarrow> still w' w'' \<Longrightarrow> keeps p w w''"
  by (simp add: keeps_def still_mem_ok still_stray)

lemma owned_sum_put:
  "finite (dom os) \<Longrightarrow> os h = Some n \<Longrightarrow> owned_sum (os(h \<mapsto> n')) = owned_sum os + ncb_owned n' - ncb_owned n"
proof -
  assume f: "finite (dom os)" and h: "os h = Some n"
  have "owned_sum os = ncb_owned n + (\<Sum>g \<in> dom os - {h}. ncb_owned (the (os g)))"
    using f h unfolding owned_sum_def by (subst sum.remove [of _ h]) auto
  moreover have "owned_sum (os(h \<mapsto> n')) = ncb_owned n' + (\<Sum>g \<in> dom os - {h}. ncb_owned (the ((os(h \<mapsto> n')) g)))"
    using f unfolding owned_sum_def by (subst sum.remove [of _ h]) auto
  moreover have "(\<Sum>g \<in> dom os - {h}. ncb_owned (the ((os(h \<mapsto> n')) g))) = (\<Sum>g \<in> dom os - {h}. ncb_owned (the (os g)))"
    by (rule sum.cong) auto
  ultimately show ?thesis by simp
qed

lemma owned_sum_new:
  "finite (dom os) \<Longrightarrow> os h = None \<Longrightarrow> owned_sum (os(h \<mapsto> n)) = owned_sum os + ncb_owned n"
proof -
  assume f: "finite (dom os)" and h: "os h = None"
  have "owned_sum (os(h \<mapsto> n)) = ncb_owned n + (\<Sum>g \<in> dom os. ncb_owned (the ((os(h \<mapsto> n)) g)))"
    using f h unfolding owned_sum_def by (subst dom_fun_upd) (simp add: domIff)
  also have "(\<Sum>g \<in> dom os. ncb_owned (the ((os(h \<mapsto> n)) g))) = owned_sum os"
    unfolding owned_sum_def using h by (intro sum.cong) auto
  finally show ?thesis by (simp add: fun_upd_def)
qed

text \<open>The block under a handle is replaced, and the heap changes by what the block owns.\<close>

lemma keeps_put:
  assumes "mem_ok p w" "objs w g = Some n" "protocol n' = IPPROTO_TCP \<Longrightarrow> tcp_link n' \<and> hld n' = g"
    and "still (w\<lparr>objs := (objs w)(g \<mapsto> n'), heap := heap w + ncb_owned n' - ncb_owned n\<rparr>) w'"
  shows "keeps p w w'"
proof -
  let ?w = "w\<lparr>objs := (objs w)(g \<mapsto> n'), heap := heap w + ncb_owned n' - ncb_owned n\<rparr>"
  have "mem_ok p ?w" using assms(1-3) by (auto simp: mem_ok_def fresh_handles_def)
  moreover have "stray p ?w = stray p w"
    using assms(1,2) by (simp add: stray_def pool_tasks_def owned_sum_put mem_ok_def)
  ultimately show ?thesis using assms(4) by (simp add: keeps_def still_mem_ok still_stray)
qed

lemma keeps_accounts:
  assumes "mem_ok p w" "objs w g = Some n" "hld n = g" "still w w1" "accounts 0 n w1 n' v"
    and "still (put_ncb g n' v) w'"
  shows "keeps p w w'"
proof (rule keeps_put [OF assms(1,2)])
  show "tcp_link n' \<and> hld n' = g" using assms(3,5) by (simp add: accounts_def)
  show "still (w\<lparr>objs := (objs w)(g \<mapsto> n'), heap := heap w + ncb_owned n' - ncb_owned n\<rparr>) w'"
    using assms(4-6) by (auto simp: still_def accounts_def put_ncb_def)
qed

text \<open>An operation of the user on a handle.\<close>

lemma keeps_with_link:
  assumes ok: "mem_ok p w" and w: "with_link i_tcprefr f body g w = Some (r, w')"
    and body: "\<And>n r n' v. objs w g = Some n \<Longrightarrow> tcp_link n \<Longrightarrow>
        body n (emit (Refr g) w) = Some (r, n', v) \<Longrightarrow> accounts 0 n (emit (Refr g) w) n' v"
  shows "keeps p w w'"
proof (cases "0 \<le> g \<and> (\<exists>n. objs w g = Some n \<and> protocol n = IPPROTO_TCP)")
  case True
  then obtain n where n: "0 \<le> g" "objs w g = Some n" "protocol n = IPPROTO_TCP" by blast
  obtain n' v where b: "body n (emit (Refr g) w) = Some (r, n', v)" and w': "w' = emit (Defr g) (put_ncb g n' v)"
    by (rule entered_tcp [OF n(2,1,3) w])
  have l: "tcp_link n" "hld n = g" using ok n by (auto simp: mem_ok_def)
  show ?thesis
    by (rule keeps_accounts [OF ok n(2) l(2) still_emit(1) body [OF n(2) l(1) b]]) (simp add: w')
next
  case False
  from tcp_r.refused [OF this, of f body] w have eq: "w'\<lparr>trace := trace w\<rparr> = w" by auto
  have "still (w'\<lparr>trace := trace w\<rparr>) w'" by (simp add: still_def)
  then show ?thesis by (intro keeps_still [OF ok]) (simp only: eq)
qed

section \<open>The operations of the user\<close>

lemma keeps_settst:
  assumes ok: "mem_ok p w"
  shows "tcp_settst g t w = Some (r, w') \<Longrightarrow> keeps p w w'"
    and "tcp_settst_r g t w = Some (r, w') \<Longrightarrow> keeps p w w'"
    and "tcp_setattr g a en w = Some (r, w') \<Longrightarrow> keeps p w w'"
  unfolding tcp_settst_def tcp_settst_r_def tcp_setattr_def
  by (auto split: option.splits if_splits intro: keeps_refl [OF ok] elim!: keeps_with_link [OF ok])
    (use ok in \<open>auto simp: accounts_def keeps_def split: if_splits\<close>)

lemma keeps_write:
  assumes ok: "mem_ok p w" and t: "\<And>n. objs w g = Some n \<Longrightarrow> template_ok n w"
    and w: "tcp_write g origin cb s w = Some (r, w')"
  shows "keeps p w w'"
proof (cases "origin = None \<or> g < 0 \<or> cb \<le> 0 \<or> cb > TCP_MAXIMUM_PACKET_SIZE")
  case True
  then show ?thesis using w keeps_refl [OF ok] by (auto simp: tcp_write_def split: option.splits)
next
  case False
  then obtain b where "origin = Some b" "with_link i_tcprefr id (tcp_write_body b cb s) g w = Some (r, w')" "0 < cb"
    using w by (auto simp: tcp_write_def)
  then show ?thesis
    using t by (elim keeps_with_link [OF ok]) (auto simp: template_ok_def intro: write_body_accounts)
qed

text \<open>The bodies of the other operations are chains of calls that move no memory.\<close>

lemmas stills = still_info still_setsockopt still_connect still_getname still_fcntl still_simple still_modify

lemmas still_sel = still_options [unfolded still_def] still_emit [unfolded still_def]

lemma keeps_connect:
  assumes ok: "mem_ok p w"
  shows "tcp_connect g ip port w = Some (r, w') \<Longrightarrow> keeps p w w'"
  unfolding tcp_connect_def
  by (elim case_optE keeps_with_link [OF ok] run_elims; use ok in \<open>auto dest!: stills still_attach
        simp: accounts_def still_def still_sel objclos_def ncb_post_connected_def tcp_link_routines keeps_def\<close>)

lemma keeps_listen:
  assumes ok: "mem_ok p w"
  shows "tcp_listen g blk w = Some (r, w') \<Longrightarrow> keeps p w w'"
  unfolding tcp_listen_def
  by (elim keeps_with_link [OF ok] run_elims; use ok in \<open>auto dest!: stills still_attach
        simp: accounts_def still_def still_sel objclos_def tcp_link_routines keeps_def\<close>)

lemma keeps_connect2:
  assumes ok: "mem_ok p w"
  shows "tcp_connect2 g ip port w = Some (r, w') \<Longrightarrow> keeps p w w'"
  unfolding tcp_connect2_def
  by (elim case_optE keeps_with_link [OF ok] run_elims; use ok in \<open>auto dest!: stills still_attach tcp_tx_syn_accounts
        simp: accounts_def still_def still_sel objclos_def tcp_link_routines keeps_def\<close>)

section \<open>Blocks that come and go\<close>

text \<open>A handle that the object manager hands out, with the block the allocator made.\<close>

lemma keeps_objallo:
  assumes ok: "mem_ok p w" and o: "objallo_ncb w = Some (h, w')"
  shows "keeps p w w' \<and> (0 \<le> h \<longrightarrow> objs w' = (objs w)(h \<mapsto> fifo_init ncb_zero) \<and> objs w h = None)"
proof -
  obtain hs where k: "k_newobj w = h # hs" using o by (auto simp: objallo_ncb_def Let_def split: list.splits if_splits)
  have p0: "protocol (fifo_init ncb_zero) \<noteq> IPPROTO_TCP" "ncb_owned (fifo_init ncb_zero) = 0"
    by (simp_all add: fifo_init_def ncb_zero_def ncb_owned_def)
  show ?thesis
  proof (cases "h < 0")
    case True
    then have "w' = w\<lparr>k_newobj := hs\<rparr>" using o k by (simp add: objallo_ncb_def)
    then show ?thesis
      using ok k True by (auto simp: keeps_def mem_ok_def fresh_handles_def stray_def pool_tasks_def)
  next
    case False
    then have w': "w' = ncb_allocator h (w\<lparr>k_newobj := hs\<rparr>)" using o k by (simp add: objallo_ncb_def)
    have n: "objs w h = None" "h \<notin> set (filter (\<lambda>h. 0 \<le> h) hs)" "distinct (filter (\<lambda>h. 0 \<le> h) hs)"
      using ok k False by (auto simp: mem_ok_def fresh_handles_def)
    have m: "mem_ok p w'"
      using ok k n False p0(1) by (auto simp: w' ncb_allocator_def mem_ok_def fresh_handles_def split: if_splits)
    have f: "finite (dom (objs w))" using ok by (simp add: mem_ok_def)
    have "stray p w' = stray p w"
      by (simp add: stray_def pool_tasks_def w' ncb_allocator_def owned_sum_new [OF f n(1)] p0(2))
    then show ?thesis using m n by (simp add: keeps_def w' ncb_allocator_def)
  qed
qed

lemma zero_link:
  "tcp_link ((fifo_init ncb_zero)\<lparr>hld := h, sockfd := fd, protocol := IPPROTO_TCP, nis_callback := c, local_addr := a\<rparr>)"
  "tcp_link ((fifo_init ncb_zero)\<lparr>sockfd := fd, hld := h, protocol := IPPROTO_TCP, nis_callback := c\<rparr>)"
  by (simp_all add: tcp_link_def tx_ok_def fifo_ok_def nodes_ok_def fifo_init_def ncb_zero_def MAXIMUM_FIFO_SIZE_def)

lemma keeps_create:
  assumes ok: "mem_ok p w" and c: "tcp_create callback ip port w = Some (r, w')"
  shows "keeps p w w'"
proof -
  obtain fd w1 where n: "newfd_call w = Some (fd, w1)" using c by (auto simp: tcp_create_def split: Option.bind_splits)
  have w1: "still w w1" using n by (auto simp: newfd_call_def still_def split: list.splits kans.splits)
  obtain r2 w2 where so: "setsockopt fd SO_REUSEADDR [1] w1 = (r2, w2)" by fastforce
  define a where "a = \<lparr>sin_addr = (case ip of None \<Rightarrow> 0 | Some s \<Rightarrow> inet_addr (env w2) s), sin_port = htons port\<rparr>"
  obtain r3 w3 where b: "bind_call fd a w2 = (r3, w3)" by fastforce
  have w3: "still w w3"
    using still_trans [OF w1 still_setsockopt [OF so]] b
    by (auto simp: bind_call_def Let_def still_def still_sel split: prod.splits if_splits dest!: still_simple)
  show ?thesis
  proof (cases "fd < 0 \<or> r3 < 0")
    case True
    then have "w' = w1 \<or> w' = emit (Close fd) w3" using c n so b by (cases "fd < 0") (auto simp: tcp_create_def a_def)
    then show ?thesis using keeps_still [OF ok] w1 w3 still_trans [OF w3 still_emit(1)] by auto
  next
    case False
    then obtain h w4 where o: "objallo_ncb w3 = Some (h, w4)"
      using c n so b by (auto simp: tcp_create_def a_def split: Option.bind_splits)
    have ok3: "mem_ok p w3" using ok still_mem_ok [OF w3] by simp
    note o' = keeps_objallo [OF ok3 o]
    have k4: "keeps p w w4" using keeps_trans [OF keeps_still [OF ok w3]] o' by blast
    show ?thesis
    proof (cases "h < 0")
      case True
      then have "w' = emit (Close fd) w4" using c n so b o False by (auto simp: tcp_create_def a_def)
      then show ?thesis using keeps_then_still [OF k4 still_emit(1)] by simp
    next
      case pos: False
      then have z: "objs w4 h = Some (fifo_init ncb_zero)" using o' by simp
      let ?n = "(fifo_init ncb_zero)\<lparr>hld := h, sockfd := fd, protocol := IPPROTO_TCP, nis_callback := callback, local_addr := a\<rparr>"
      let ?w5 = "snd (ncb_set_linger ?n 0 0 (emit (Refr h) w4))"
      have w5: "still w4 ?w5" using still_trans still_emit(1) still_options(2) by blast
      obtain pk w6 where m1: "malloc TCP_BUFFER_SIZE ?w5 = (pk, w6)" by fastforce
      obtain bf w7 where m2: "malloc TCP_BUFFER_SIZE w6 = (bf, w7)" by fastforce
      have ok4: "mem_ok p w4" using k4 by (simp add: keeps_def)
      let ?n1 = "?n\<lparr>packet := pk\<rparr>" and ?n2 = "?n\<lparr>packet := pk, tcp := (tcp ?n)\<lparr>rx_parse_offset := 0, rx_buffer := bf\<rparr>\<rparr>"
      have w': "w' = (if pk = None then objclos h (objdefr h (put_ncb h ?n1 w6))
          else if bf = None then objclos h (objdefr h (put_ncb h ?n2 w7)) else objdefr h (put_ncb h ?n2 w7))"
        using c n so b False o pos z m1 m2 by (auto simp: tcp_create_def a_def objrefr_def Let_def split: if_splits)
      have own: "ncb_owned ?n1 = (if pk = None then 0 else 1)"
        "ncb_owned ?n2 = (if pk = None then 0 else 1) + (if bf = None then 0 else 1)" "ncb_owned (fifo_init ncb_zero) = 0"
        by (simp_all add: ncb_owned_def ncb_lb_marked_def fifo_init_def ncb_zero_def tcp_part_zero_def)
      have l: "tcp_link ?n1 \<and> hld ?n1 = h" "tcp_link ?n2 \<and> hld ?n2 = h"
        using zero_link(1) [where h = h and fd = fd and c = callback and a = a] by simp_all
      have "keeps p w4 w'"
      proof (cases "pk = None")
        case True
        show ?thesis
          by (rule keeps_put [OF ok4 z, of ?n1])
            (use True l own w5 still_malloc [OF m1] in \<open>auto simp: w' still_def put_ncb_def objclos_def objdefr_def\<close>)
      next
        case False
        show ?thesis
          by (rule keeps_put [OF ok4 z, of ?n2])
            (use False l own w5 still_malloc [OF m1] still_malloc [OF m2] in \<open>auto simp: w' still_def put_ncb_def objclos_def objdefr_def\<close>)
      qed
      with k4 show ?thesis by (rule keeps_trans)
    qed
  qed
qed

lemma keeps_destroy:
  assumes ok: "mem_ok p w"
  shows "keeps p w (tcp_destroy g w)"
proof (cases "objs w g")
  case None
  then show ?thesis using ok by (simp add: tcp_destroy_def objreff_def keeps_refl)
next
  case (Some n)
  obtain n1 w1 where c: "io_close n (emit (Reff g) w) = (n1, w1)" by fastforce
  have n1: "\<exists>a b. n1 = n\<lparr>sockfd := a, epfd := b\<rparr>" and w1: "still w w1"
  proof -
    have id: "n = n\<lparr>sockfd := sockfd n, epfd := epfd n\<rparr>" by simp
    show "\<exists>a b. n1 = n\<lparr>sockfd := a, epfd := b\<rparr>" by (rule io_closeE [OF c]) (use id in blast)+
    show "still w w1"
      by (rule io_closeE [OF c]) (auto dest!: still_ctl simp: still_def still_sel)
  qed
  then obtain a b where n1: "n1 = n\<lparr>sockfd := a, epfd := b\<rparr>" by blast
  have d: "tcp_destroy g w = objdefr g (put_ncb g n1 w1)" using Some c by (simp add: tcp_destroy_def objreff_def)
  show ?thesis
  proof (rule keeps_put [OF ok Some])
    show "tcp_link n1 \<and> hld n1 = g" if "protocol n1 = IPPROTO_TCP"
      using that ok Some by (auto simp: n1 mem_ok_def)
    show "still (w\<lparr>objs := (objs w)(g \<mapsto> n1), heap := heap w + ncb_owned n1 - ncb_owned n\<rparr>) (tcp_destroy g w)"
      using w1 by (simp add: d n1 still_def objdefr_def put_ncb_def)
  qed
qed

text \<open>The object manager unloads a block and takes its handle back.\<close>

definition release :: "objhld \<Rightarrow> world \<Rightarrow> world" where
  "release g w = w\<lparr>objs := (objs w)(g := None)\<rparr>"

lemma owned_sum_release:
  "finite (dom os) \<Longrightarrow> os g = Some n \<Longrightarrow> owned_sum (os(g := None)) = owned_sum os - ncb_owned n"
  using owned_sum_new [of "os(g := None)" g n] by (simp add: fun_upd_idem)

lemma keeps_release:
  assumes ok: "mem_ok p w" and n: "objs w g = Some n" and d: "ncb_deconstruct g w = Some w1"
  shows "keeps p w (release g w1)"
proof -
  have nl: "0 < nl_count w"
  proof (rule ccontr)
    assume "\<not> 0 < nl_count w"
    moreover have "nl_count w1' = nl_count w" if "io_close m (ncb_post_preclose n w) = (m', w1')" for m m' w1'
      by (rule io_closeE [OF that]) (auto simp: ncb_post_preclose_def dest: ctl_stepD)
    ultimately show False using d n
      by (auto simp: ncb_deconstruct_def Let_def free_opt_def free_def fifo_uninit_def free_nodes_eq split: prod.splits if_splits)
  qed
  from ncb_deconstruct_spec [OF n nl] d obtain n' where w1: "objs w1 = (objs w)(g := Some n')" "heap w1 = heap w - ncb_owned n"
    by auto
  have f: "pools w1 = pools w \<and> wp_tcphld w1 = wp_tcphld w \<and> k_newobj w1 = k_newobj w"
  proof -
    obtain m v where c: "io_close (n\<lparr>user_context := None\<rparr>) (ncb_post_preclose n w) = (m, v)" by fastforce
    have "still w v"
      by (rule io_closeE [OF c]) (auto dest!: still_ctl simp: still_def still_sel ncb_post_preclose_def)
    then show ?thesis
      using d n by (auto simp: ncb_deconstruct_def Let_def c free_opt_def free_def fifo_uninit_def free_nodes_eq
          ncb_post_closed_def still_def still_sel put_ncb_def split: if_splits)
  qed
  have fin: "finite (dom (objs w))" using ok by (simp add: mem_ok_def)
  have o: "objs (release g w1) = (objs w)(g := None)" using w1(1) by (simp add: release_def)
  have "mem_ok p (release g w1)"
    using ok f by (auto simp: mem_ok_def fresh_handles_def o) (auto simp: release_def)
  moreover have "stray p (release g w1) = stray p w"
    using f w1(2) by (simp add: stray_def o owned_sum_release [OF fin n]) (simp add: release_def pool_tasks_def)
  ultimately show ?thesis by (simp add: keeps_def)
qed

section \<open>The threads\<close>

lemma owned_new:
  "fhead (fifo n) = [] \<Longrightarrow> protocol n = IPPROTO_TCP \<Longrightarrow> lbdata (tcp n) = None \<Longrightarrow>
     ncb_owned n = (if packet n = None then 0 else 1) + (if rx_buffer (tcp n) = None then 0 else 1)"
  by (simp add: ncb_owned_def ncb_lb_marked_def)

lemma syn_dpc_accounts:
  assumes d: "i_tcp_syn_dpc server n w = Some (r, n', w')"
    and n: "tcp_link n" "packet n = None" "rx_buffer (tcp n) = None" "lbdata (tcp n) = None" "fhead (fifo n) = []"
  shows "accounts 0 n w n' w'"
proof -
  have o: "ncb_owned n = 0" using n tcp_linkD(1) [OF n(1)] by (simp add: owned_new)
  have p: "protocol n = 6" using tcp_linkD(1) [OF n(1)] by simp
  obtain y where y: "y = (r, n', w')" by blast
  have "case y of (r, n', w') \<Rightarrow> accounts 0 n w n' w'"
    using d [folded y] unfolding i_tcp_syn_dpc_def
  proof (elim run_elims, goal_cases)
    case 1
    then show ?case using n(1) p n(3-5) by (auto dest!: still_getname still_malloc simp: accounts_def still_def still_sel o owned_new)
  next
    case 2
    then show ?case using n(1) p n(3-5) by (auto dest!: still_getname still_malloc simp: accounts_def still_def still_sel o owned_new)
  next
    case 3
    then show ?case using n(1) p n(3-5) by (auto dest!: still_getname still_malloc still_attach simp: accounts_def still_def still_sel o owned_new tcp_link_routines split: if_splits)
  next
    case 4
    then show ?case using n(1) p n(3-5) by (auto dest!: still_getname still_malloc still_attach still_modify simp: accounts_def still_def still_sel o owned_new tcp_link_routines ncb_post_accepted_def split: if_splits)
  qed
  then show ?thesis by (simp add: y)
qed

lemma i_tcp_syn_keeps:
  assumes s: "i_tcp_syn server w = Some (r, w')" and ok: "mem_ok p w"
  shows "keeps p w w' \<and> (\<forall>g. objs w g \<noteq> None \<longrightarrow> objs w' g = objs w g)"
proof -
  obtain r1 st w1 where i: "tcp_save_info server w = Some (r1, st, w1)"
    using s by (auto simp: i_tcp_syn_def split: Option.bind_splits)
  note w1 = still_info [OF i]
  have quit: ?thesis if "still w w'" using keeps_still [OF ok that] that by (simp add: still_def)
  show ?thesis
  proof (cases "r1 \<ge> 0 \<and> st \<noteq> TCP_LISTEN")
    case True
    then show ?thesis using s i w1 by (intro quit) (simp add: i_tcp_syn_def)
  next
    case False
    then obtain r2 fd cc w2 where t: "i_tcp_syn_try server w1 = Some (r2, fd, cc, w2)"
      using s i by (auto simp: i_tcp_syn_def split: Option.bind_splits)
    have w2: "still w w2"
      using t w1 by (auto simp: i_tcp_syn_try_def accept_call_def still_def Let_def
          split: Option.bind_splits list.splits kans.splits if_splits)
    show ?thesis
    proof (cases "r2 \<ge> 0")
      case neg: False
      then show ?thesis using s i False t w2 by (intro quit) (simp add: i_tcp_syn_def)
    next
      case True
      obtain h w3 where o: "objallo_ncb w2 = Some (h, w3)"
        using s i False t True by (auto simp: i_tcp_syn_def split: Option.bind_splits)
      have ok2: "mem_ok p w2" using ok still_mem_ok [OF w2] by simp
      note o' = keeps_objallo [OF ok2 o]
      have k3: "keeps p w w3" using keeps_trans [OF keeps_still [OF ok w2]] o' by blast
      show ?thesis
      proof (cases "h < 0")
        case neg: True
        then have "w' = emit (Close fd) w3" using s i False t True o by (simp add: i_tcp_syn_def)
        moreover have "objs w3 = objs w2" using o neg by (auto simp: objallo_ncb_def Let_def split: list.splits if_splits)
        ultimately show ?thesis using keeps_then_still [OF k3 still_emit(1)] w2 by (simp add: still_def)
      next
        case pos: False
        then have z: "objs w3 = (objs w2)(h \<mapsto> fifo_init ncb_zero)" "objs w2 h = None" using o' by auto
        let ?n = "(fifo_init ncb_zero)\<lparr>sockfd := fd, hld := h, protocol := IPPROTO_TCP, nis_callback := nis_callback server\<rparr>"
        obtain r4 n4 w4 where d: "i_tcp_syn_dpc server ?n (emit (Refr h) w3) = Some (r4, n4, w4)"
          and w': "w' = objdefr h (if r4 < 0 then objclos h (put_ncb h n4 w4) else put_ncb h n4 w4)"
          using s i False t True o pos z by (auto simp: i_tcp_syn_def objrefr_def Let_def split: Option.bind_splits)
        have n: "tcp_link ?n" "packet ?n = None" "rx_buffer (tcp ?n) = None" "lbdata (tcp ?n) = None" "fhead (fifo ?n) = []"
          using zero_link(2) by (simp_all add: fifo_init_def ncb_zero_def tcp_part_zero_def)
        have own: "ncb_owned (fifo_init ncb_zero) = 0" "ncb_owned ?n = 0"
          using n tcp_linkD(1) [OF n(1)] by (simp_all add: owned_new) (simp add: ncb_owned_def fifo_init_def ncb_zero_def)
        note a = syn_dpc_accounts [OF d n]
        have ok3: "mem_ok p w3" using k3 by (simp add: keeps_def)
        have z3: "objs w3 h = Some (fifo_init ncb_zero)" using z by simp
        have "keeps p w3 w'"
          by (rule keeps_put [OF ok3 z3, of n4])
            (use a own in \<open>auto simp: accounts_def still_def w' objdefr_def objclos_def put_ncb_def\<close>)
        moreover have "objs w' = (objs w3)(h \<mapsto> n4)"
          using a by (simp add: w' objdefr_def objclos_def put_ncb_def accounts_def)
        ultimately show ?thesis
          using keeps_trans [OF k3] z w2 by (auto simp: still_def)
      qed
    qed
  qed
qed

lemma tcp_syn_keeps:
  assumes "tcp_syn server w = Some y"
  shows "mem_ok p w \<longrightarrow> keeps p w (snd y) \<and> (\<forall>g. objs w g \<noteq> None \<longrightarrow> objs (snd y) g = objs w g)"
  using _ assms
proof (rule tcp_syn.raw_induct)
  fix f server w y
  assume IH: "\<And>server w y. f server w = Some y \<Longrightarrow> mem_ok p w \<longrightarrow>
      keeps p w (snd y) \<and> (\<forall>g. objs w g \<noteq> None \<longrightarrow> objs (snd y) g = objs w g)"
    and step: "Option.bind (i_tcp_syn server w) (\<lambda>(r, w). if r = 0 then f server w else Some (r, w)) = Some y"
  show "mem_ok p w \<longrightarrow> keeps p w (snd y) \<and> (\<forall>g. objs w g \<noteq> None \<longrightarrow> objs (snd y) g = objs w g)"
  proof
    assume ok: "mem_ok p w"
    obtain r w1 where s: "i_tcp_syn server w = Some (r, w1)" using step by (auto split: Option.bind_splits)
    note k = i_tcp_syn_keeps [OF s ok]
    show "keeps p w (snd y) \<and> (\<forall>g. objs w g \<noteq> None \<longrightarrow> objs (snd y) g = objs w g)"
    proof (cases "r = 0")
      case True
      then have "f server w1 = Some y" using step s by simp
      from IH [OF this] k show ?thesis by (auto simp: keeps_def)
    qed (use step s k in auto)
  qed
qed

lemma add_task_keeps:
  assumes ok: "mem_ok p w" and a: "i_wp_add_task t w = Some w'" "task_thread t = p"
  shows "mem_ok p w'" "stray p w' = stray p w - 1" "\<exists>ps. w' = w\<lparr>pools := ps\<rparr>"
proof -
  obtain q where q: "pools w p = Some q" "\<forall>t \<in> set (tasks q). task_thread t = p" using ok by (auto simp: mem_ok_def)
  then have w': "w' = w\<lparr>pools := (pools w)(p \<mapsto> q\<lparr>tasks := tasks q @ [t], task_list_size := task_list_size q + 1\<rparr>)\<rparr>"
    using a by (auto simp: i_wp_add_task_def)
  show "mem_ok p w'" using ok q a(2) by (auto simp: w' mem_ok_def fresh_handles_def)
  show "stray p w' = stray p w - 1" using q by (simp add: w' stray_def pool_tasks_def)
  show "\<exists>ps. w' = w\<lparr>pools := ps\<rparr>" using w' by blast
qed

lemma stray_heap: "mem_ok p (w\<lparr>heap := k\<rparr>) = mem_ok p w" "stray p (w\<lparr>heap := k\<rparr>) = stray p w + (k - heap w)"
  by (simp_all add: mem_ok_def fresh_handles_def stray_def pool_tasks_def)

lemma queued_keeps:
  assumes ok: "mem_ok p w" and n: "protocol n = IPPROTO_TCP" and q: "wp_queued n w = Some (r, w')"
  shows "keeps p w w'"
proof -
  show ?thesis
  proof (cases "wp_tcphld w < 0")
    case True
    then have "w' = w" using q n by (simp add: wp_queued_def wp_handle_def)
    then show ?thesis using keeps_refl [OF ok] by simp
  next
    case False
    obtain pl where pl: "0 \<le> p" "wp_tcphld w = p" "pools w p = Some pl" using ok False by (auto simp: mem_ok_def)
    obtain b w1 where m: "malloc sizeof_wptask (emit (Refr p) w) = (b, w1)" by fastforce
    have w1: "still (w\<lparr>heap := heap w + (if b = None then 0 else 1)\<rparr>) w1"
      using still_malloc [OF m] by (simp add: still_def)
    show ?thesis
    proof (cases b)
      case None
      then have "w' = objdefr p w1" using q pl n m by (simp add: wp_queued_def wp_handle_def pool_refr_def)
      then show ?thesis using None w1 by (intro keeps_still [OF ok]) (simp add: still_def objdefr_def)
    next
      case (Some x)
      then obtain w2 where a: "i_wp_add_task \<lparr>task_hld = hld n, task_thread = p\<rparr> w1 = Some w2"
        and w': "w' = objdefr p (emit (Signal p) w2)"
        using q pl n m by (auto simp: wp_queued_def wp_handle_def pool_refr_def split: Option.bind_splits)
      have ok1: "mem_ok p w1" using still_mem_ok [OF w1] ok by (simp add: stray_heap)
      note a' = add_task_keeps [OF ok1 a]
      have "stray p w1 = stray p w + 1" using still_stray [OF w1] Some by (simp add: stray_heap)
      then have "keeps p w w2" using a' by (simp add: keeps_def)
      then show ?thesis by (rule keeps_then_still) (simp add: w' objdefr_def still_def)
    qed
  qed
qed

text \<open>An event of a link.\<close>

lemma event_keeps:
  assumes ok: "mem_ok p w" and t: "\<And>n. objs w h = Some n \<Longrightarrow> protocol n = IPPROTO_TCP"
    and e: "i_iorun [(h, ev)] w = Some w'"
  shows "keeps p w w'"
  using e
proof (cases rule: iorun_eventE)
  case closed
  then show ?thesis by (auto intro: keeps_still [OF ok] simp: objclos_def)
next
  case gone
  then have "w' = w" by simp
  then show ?thesis using keeps_refl [OF ok] by simp
next
  case (link n n1 w1 w2)
  have l: "tcp_link n" "hld n = h" using ok link(1) t [OF link(1)] by (auto simp: mem_ok_def)
  let ?w0 = "emit (Refr h) w"
  have "keeps p w (put_ncb h n1 w1) \<and> protocol n1 = IPPROTO_TCP"
  proof (cases "n1 = n \<and> w1 = ?w0")
    case True
    then have "still w (put_ncb h n1 w1)" using link(1) by (auto simp: still_def put_ncb_def)
    then show ?thesis using keeps_still [OF ok] True tcp_linkD(1) [OF l(1)] by simp
  next
    case False
    then obtain f r v where f: "ncb_read n = Some f" "call_read f n ?w0 = Some (r, n1, v)"
      and w1: "w1 = v \<or> w1 = objclos (hld n1) v" using link(2) by blast
    have "keeps p w (put_ncb h n1 v) \<and> protocol n1 = IPPROTO_TCP"
    proof (cases "f = R_tcp_rx")
      case True
      then have "tcp_rx n ?w0 = Some (r, n1, v)" using f(2) by (simp add: call_read_def)
      note a = tcp_rx_accounts [OF this l(1)]
      from keeps_accounts [OF ok link(1) l(2) still_emit(1) a still_refl] a show ?thesis
        by (auto simp: accounts_def dest: tcp_linkD(1))
    next
      case False
      then have "f = R_tcp_syn" using f(1) l(1) by (auto simp: tcp_link_def)
      then have s: "tcp_syn n ?w0 = Some (r, v)" "n1 = n" using f(2) by (auto simp: call_read_def split: Option.bind_splits)
      have "mem_ok p ?w0" using ok still_mem_ok [OF still_emit(1)] by blast
      then have k: "keeps p ?w0 v" "objs v h = Some n" using tcp_syn_keeps [OF s(1), of p] link(1) by auto
      have "put_ncb h n1 v = v" using k(2) s(2) by (cases v) (simp add: put_ncb_def fun_upd_idem)
      then show ?thesis
        using keeps_trans [OF keeps_still [OF ok still_emit(1)] k(1)] tcp_linkD(1) [OF l(1)] s(2) by simp
    qed
    moreover have "still (put_ncb h n1 v) (put_ncb h n1 (objclos k v))" for k
      by (simp add: still_def objclos_def put_ncb_def)
    ultimately show ?thesis using w1 keeps_then_still by blast
  qed
  then have k: "keeps p w (put_ncb h n1 w1)" "mem_ok p (put_ncb h n1 w1)" "protocol n1 = IPPROTO_TCP"
    by (auto simp: keeps_def)
  have "keeps p (put_ncb h n1 w1) w2"
    using link(3) queued_keeps [OF k(2,3)] keeps_refl [OF k(2)] by auto
  then have "keeps p w (objdefr h w2)"
    unfolding objdefr_def using keeps_then_still [OF keeps_trans [OF k(1)] still_emit(1)] by blast
  then show ?thesis using link(4) by simp
qed

text \<open>A turn of the worker: a task is taken, executed, and freed unless it was put back.\<close>

lemma get_task_keeps:
  assumes ok: "mem_ok p w" and g: "i_wp_get_task p w = Some (Some t, w')"
  shows "mem_ok p w'" "stray p w' = stray p w + 1" "task_thread t = p" "\<exists>ps. w' = w\<lparr>pools := ps\<rparr>"
proof -
  obtain q ts where q: "pools w p = Some q" "\<forall>t \<in> set (tasks q). task_thread t = p" "tasks q = t # ts"
    and w': "w' = w\<lparr>pools := (pools w)(p \<mapsto> q\<lparr>tasks := ts, task_list_size := task_list_size q - 1\<rparr>)\<rparr>"
    using ok g by (auto simp: mem_ok_def i_wp_get_task_def split: list.splits)
  show "mem_ok p w'" using ok q by (auto simp: w' mem_ok_def fresh_handles_def)
  show "stray p w' = stray p w + 1" using q by (simp add: w' stray_def pool_tasks_def)
  show "task_thread t = p" using q by simp
  show "\<exists>ps. w' = w\<lparr>pools := ps\<rparr>" using w' by blast
qed

lemma exec_keeps:
  assumes ok: "mem_ok p w" and t: "\<And>n. objs w (task_hld t) = Some n \<Longrightarrow> protocol n = IPPROTO_TCP" "task_thread t = p"
    and e: "i_wp_exec t w = Some (r, w')"
  shows "mem_ok p w' \<and> stray p w' = stray p w - (if 0 < r then 1 else 0)"
proof (cases "objs w (task_hld t)")
  case None
  then show ?thesis using e ok by (auto simp: i_wp_exec_def objrefr_def)
next
  case (Some n)
  let ?h = "task_hld t" and ?w0 = "emit (Refr (task_hld t)) w"
  have l: "tcp_link n" "hld n = ?h" using ok Some t(1) [OF Some] by (auto simp: mem_ok_def)
  have put: "mem_ok p v' \<and> stray p v' = stray p w"
    if "accounts 0 n w m v" "v' = objdefr ?h (put_ncb ?h m v) \<or> v' = objdefr ?h (put_ncb ?h m (objclos ?h v))" for m v v'
    using keeps_accounts [OF ok Some l(2) still_refl that(1), of v'] that(2)
    by (auto simp: keeps_def still_def objdefr_def objclos_def put_ncb_def)
  show ?thesis
  proof (cases "ncb_write n")
    case None
    then have "r = -1 \<and> w' = objdefr ?h (put_ncb ?h n ?w0)" using e Some l(2) by (auto simp: i_wp_exec_def objrefr_def)
    then show ?thesis using put [OF accounts_still [OF l(1) still_emit(1)]] by auto
  next
    case wr: (Some f)
    obtain r1 n1 w1 where c: "call_write f n ?w0 = Some (r1, n1, w1)"
      using e Some wr by (auto simp: i_wp_exec_def objrefr_def split: Option.bind_splits)
    have f: "f = W_tcp_tx \<or> f = W_tcp_tx_syn" using wr l(1) by (auto simp: tcp_link_def)
    have "accounts 0 n ?w0 n1 w1"
      using f c tcp_tx_accounts [OF _ l(1)] tcp_tx_syn_accounts [OF _ l(1)] by (auto simp: call_write_def)
    then have a: "accounts 0 n w n1 w1" by (rule still_then_accounts [OF still_emit(1)])
    have h1: "hld n1 = ?h" using a l(2) by (simp add: accounts_def)
    show ?thesis
    proof (cases "0 < r1")
      case False
      have "r1 = -1 \<or> r1 = - EAGAIN \<or> r1 = 0"
        using f
      proof
        assume "f = W_tcp_tx"
        then show ?thesis using c tcp_tx_law [of n ?w0 r1 n1 w1] tcp_linkD(2) [OF l(1)] False by (auto simp: call_write_def)
      next
        assume "f = W_tcp_tx_syn"
        then show ?thesis using c tcp_tx_syn_accounts [OF _ l(1)] by (auto simp: call_write_def)
      qed
      then have "r = r1 \<and> (w' = objdefr ?h (put_ncb ?h n1 w1) \<or> w' = objdefr ?h (put_ncb ?h n1 (objclos ?h w1)))"
        using e Some wr c h1 by (auto simp: i_wp_exec_def objrefr_def split: if_splits)
      then show ?thesis using put [OF a] False by auto
    next
      case True
      then have "f = W_tcp_tx" using f c tcp_tx_syn_accounts [OF _ l(1)] by (fastforce simp: call_write_def)
      then have tx: "tcp_tx n ?w0 = Some (r1, n1, w1)" using c by (simp add: call_write_def)
      from tcp_tx_law [OF tx tcp_linkD(2) [OF l(1)]] True obtain x xs where x: "fhead (fifo n1) = x # xs" "tx_ok n1" "node_rest x = []"
        by auto
      obtain pr pt n2 w2 where pp: "fifo_pop False n1 w1 = (pr, pt, n2, w2)" by (metis prod_cases4)
      note pd = pop_front [OF pp x(1)] pop_done [OF pp x(2,1,3)]
      have a2: "accounts 0 n w n2 w2"
        using pp
      proof (cases rule: fifo_popE)
        case (popped y ys v)
        have "accounts 0 n1 w1 n2 w2"
          unfolding popped(4) using a pd(2) popped x(1) still_ctl [OF popped(5)]
          by (intro accounts_fifo [where v = v]) (auto simp: accounts_def free_def)
        from accounts_trans [OF a this] show ?thesis by simp
      qed (use x(1) in simp)
      obtain w3 where ad: "i_wp_add_task t w2 = Some w3" and w': "r = r1" "w' = objdefr ?h (put_ncb ?h n2 w3)"
        using e Some wr c True pp pd h1 by (auto simp: i_wp_exec_def objrefr_def split: if_splits Option.bind_splits)
      have ok2: "mem_ok p (put_ncb ?h n2 w2) \<and> stray p (put_ncb ?h n2 w2) = stray p w"
        using put [OF a2, of "objdefr ?h (put_ncb ?h n2 w2)"] still_mem_ok [OF still_emit(1)] still_stray [OF still_emit(1)]
        by (simp add: objdefr_def)
      have ad': "i_wp_add_task t (put_ncb ?h n2 w2) = Some (put_ncb ?h n2 w3)"
        using ad by (auto simp: i_wp_add_task_def put_ncb_def split: Option.bind_splits)
      note k = add_task_keeps [OF conjunct1 [OF ok2] ad' t(2)]
      then show ?thesis
        using ok2 True w' still_mem_ok [OF still_emit(1)] still_stray [OF still_emit(1)] by (simp add: objdefr_def)
    qed
  qed
qed

lemma turn_keeps:
  assumes ok: "mem_ok p w" and g: "i_wp_get_task p w = Some (Some t, w1)"
    and t: "\<And>n. objs w (task_hld t) = Some n \<Longrightarrow> protocol n = IPPROTO_TCP" and e: "i_wp_exec t w1 = Some (r, w2)"
  shows "keeps p w (if r \<le> 0 then free w2 else w2)"
proof -
  note k = get_task_keeps [OF ok g]
  have t1: "objs w1 (task_hld t) = Some n \<Longrightarrow> protocol n = IPPROTO_TCP" for n using k(4) t by auto
  from exec_keeps [OF k(1) t1 k(3) e] k(2) show ?thesis
    by (auto simp: keeps_def free_def stray_heap)
qed

lemma stop_keeps:
  assumes ok: "mem_ok p w"
  shows "keeps p w (i_wp_uninit p w)"
proof -
  obtain q where q: "pools w p = Some q" using ok by (auto simp: mem_ok_def)
  then show ?thesis
    using ok by (auto simp: i_wp_uninit_def Let_def keeps_def mem_ok_def fresh_handles_def stray_def pool_tasks_def)
qed

section \<open>Runs\<close>

text \<open>One call of one thread: the users make, change, connect, use and destroy links, the epoll
  threads dispatch events, the worker takes a turn or is stopped, the object manager unloads a link,
  the kernel has new answers. What is left out is \<open>tcp_awaken\<close>, whose message is never freed.\<close>

inductive mem_step :: "objhld \<Rightarrow> world \<Rightarrow> world \<Rightarrow> bool" for p where
  create: "tcp_create f ip port w = Some (r, w') \<Longrightarrow> mem_step p w w'"
| settst: "tcp_settst g t w = Some (r, w') \<Longrightarrow> mem_step p w w'"
| settst_r: "tcp_settst_r g t w = Some (r, w') \<Longrightarrow> mem_step p w w'"
| setattr: "tcp_setattr g a en w = Some (r, w') \<Longrightarrow> mem_step p w w'"
| connect: "tcp_connect g ip port w = Some (r, w') \<Longrightarrow> mem_step p w w'"
| connect2: "tcp_connect2 g ip port w = Some (r, w') \<Longrightarrow> mem_step p w w'"
| listen: "tcp_listen g blk w = Some (r, w') \<Longrightarrow> mem_step p w w'"
| send: "tcp_write g origin cb s w = Some (r, w') \<Longrightarrow> (\<And>n. objs w g = Some n \<Longrightarrow> template_ok n w) \<Longrightarrow> mem_step p w w'"
| destroy: "mem_step p w (tcp_destroy g w)"
| unload: "objs w g = Some n \<Longrightarrow> ncb_deconstruct g w = Some w' \<Longrightarrow> mem_step p w (release g w')"
| event: "i_iorun [(h, ev)] w = Some w' \<Longrightarrow> (\<And>n. objs w h = Some n \<Longrightarrow> protocol n = IPPROTO_TCP) \<Longrightarrow> mem_step p w w'"
| turn: "pools w p = Some q \<Longrightarrow> wp_actived q \<Longrightarrow> i_wp_get_task p w = Some (Some t, w1) \<Longrightarrow> (\<And>n. objs w (task_hld t) = Some n \<Longrightarrow> protocol n = IPPROTO_TCP) \<Longrightarrow>
     i_wp_exec t w1 = Some (r, w2) \<Longrightarrow> mem_step p w (if r \<le> 0 then free w2 else w2)"
| stop: "mem_step p w (i_wp_uninit p w)"
| kernel: "fresh_handles (w\<lparr>k_newobj := hs\<rparr>) \<Longrightarrow> mem_step p w (w\<lparr>k_fail := f, k_send := a, k_recv := b, k_accept := c,
     k_connect := d, k_soerror := e, k_tcpinfo := i, k_newfd := fd, k_newobj := hs, k_names := ns\<rparr>)"

lemma mem_step_keeps: "mem_step p w w' \<Longrightarrow> mem_ok p w \<Longrightarrow> keeps p w w'"
proof (induction rule: mem_step.induct)
  case (kernel w hs f a b c d e i fd ns)
  then show ?case by (auto simp: keeps_def mem_ok_def fresh_handles_def stray_def pool_tasks_def)
next
  case (event h ev w w')
  show ?case by (rule event_keeps [OF event(3,2,1)])
next
  case (turn w q t w1 r w2)
  show ?case by (rule turn_keeps [OF turn(6,3,4,5)])
next
  case (send g origin cb s w r w')
  show ?case by (rule keeps_write [OF send(3,2,1)])
qed (auto intro: keeps_create keeps_settst keeps_connect keeps_connect2 keeps_listen keeps_destroy keeps_release stop_keeps)

lemma mem_steps_keep: "(mem_step p)\<^sup>*\<^sup>* w w' \<Longrightarrow> mem_ok p w \<Longrightarrow> keeps p w w'"
proof (induction rule: rtranclp_induct)
  case base
  then show ?case by (rule keeps_refl)
next
  case (step y z)
  then have "keeps p w y" by blast
  moreover from this have "keeps p y z" using mem_step_keeps [OF step(2)] by (simp add: keeps_def)
  ultimately show ?case by (rule keeps_trans)
qed


definition mem_world0 :: world where
  "mem_world0 = world0\<lparr>k_newfd := [KRet 9], k_newobj := [5], wp_tcphld := 3,
     pools := [3 \<mapsto> \<lparr>tasks = [], task_list_size = 0, wp_actived = True\<rparr>]\<rparr>"

lemma mem_world0_ok: "mem_ok 3 mem_world0" "stray 3 mem_world0 = 0"
  by (simp_all add: mem_ok_def fresh_handles_def mem_world0_def world0_def stray_def owned_sum_def pool_tasks_def)


text \<open>Closing the links of a protocol that has none keeps the array of handles for ever.\<close>

lemma uninit_leaks:
  assumes "nl_ok L w" "0 < nl_count w" "k_fail w SYS_malloc = []" "\<forall>h \<in> set (nl_head w). protocol (the (objs w h)) \<noteq> proto"
  shows "\<exists>w'. ncb_uninit proto w = Some w' \<and> heap w' = heap w + 1 \<and> objs w' = objs w"
proof -
  have "filter (\<lambda>h. protocol (the (objs w h)) = proto) (nl_head w) = []" using assms(4) by (simp add: filter_empty_conv)
  moreover have "\<not> (\<exists>h \<in> set (nl_head w). objs w h = None)" using assms(1) by (auto simp: nl_ok_def)
  ultimately show ?thesis
    using assms(2,3) by (simp add: ncb_uninit_def malloc_ok Let_def)
qed

end
