(* ===== verification/Session.thy ===== *)
theory Session
  imports Endtoend Leakfree
begin

text \<open>
  A session from its beginning: one program makes a link, gives it a template and connects it, the
  other listens and accepts. What the operations leave behind is what a connection starts from, so
  the packets written on one end arrive at the other.
\<close>

section \<open>Steps that send nothing\<close>

definition mute :: "world \<Rightarrow> world \<Rightarrow> bool" where
  "mute w w' \<longleftrightarrow> objs w' = objs w \<and> env w' = env w \<and> (\<forall>fd. sent fd (trace w') = sent fd (trace w))"

lemma mute_trans: "mute w w' \<Longrightarrow> mute w' w'' \<Longrightarrow> mute w w''"
  by (simp add: mute_def)

lemma mute_opt: "opt_step w w' \<Longrightarrow> mute w w'"
  by (auto simp: opt_step_def mute_def)

lemma mute_setsockopt: "setsockopt fd opt v w = (r, w') \<Longrightarrow> mute w w'"
  by (rule mute_opt) (rule setsockopt_step)

lemma mute_options: "mute w (tcp_update_opts n w)" "mute w (snd (ncb_set_linger n a b w))"
  by (simp_all add: mute_opt update_opts_step ncb_set_linger_def opt_step_setsockopt)

lemma mute_getname: "getname a w = (b, w') \<Longrightarrow> mute w w'"
  by (auto simp: getname_def mute_def split: list.splits)

lemma mute_info: "tcp_save_info n w = Some (r, st, w') \<Longrightarrow> mute w w'"
  by (erule save_infoE) (auto simp: mute_def)

lemma mute_attach: "io_attach n m w = Some (r, n', w') \<Longrightarrow> mute w w' \<and> (\<exists>ep. n' = n\<lparr>epfd := ep\<rparr>)"
  by (frule io_attachD(1), drule io_attachD(2)) (auto simp: io_step_def mute_def)

lemma mute_malloc: "malloc k w = (b, w') \<Longrightarrow> mute w w'"
  by (drule mallocD) (auto simp: mute_def)

lemma mute_bind: "bind_call fd a w = (r, w') \<Longrightarrow> mute w w'"
  by (auto simp: bind_call_def mute_def Let_def split: prod.splits if_splits dest!: simple_callD)

lemma mute_connect: "connect_retry fd a w = Some (r, w') \<Longrightarrow> mute w w'"
proof (induction fd a w rule: connect_retry.induct)
  case (1 fd a w)
  obtain q v where c: "connect_call fd a w = Some (q, v)"
    using "1.prems" by (subst (asm) connect_retry.simps) (auto split: option.splits)
  have "mute w v" using c by (auto simp: connect_call_def mute_def split: list.splits kans.splits)
  moreover have "mute v w'"
    using "1.prems" "1.IH" [OF c refl] by (subst (asm) connect_retry.simps) (auto simp: c mute_def split: if_splits)
  ultimately show ?case by (rule mute_trans)
qed

lemmas mutes = mute_setsockopt mute_getname mute_info mute_attach mute_connect

section \<open>The client\<close>

lemma objallo_fresh:
  "objallo_ncb w = Some (h, w') \<Longrightarrow> 0 \<le> h \<Longrightarrow>
     objs w' h = Some (fifo_init ncb_zero) \<and> env w' = env w \<and> trace w' = trace w"
  by (auto simp: objallo_ncb_def ncb_allocator_def Let_def split: list.splits if_splits)

lemma create_idle:
  assumes c: "tcp_create cb ip port w = Some (h, w')" "0 \<le> h" and fd: "k_newfd w = KRet fd # fs"
  shows "\<exists>n. objs w' h = Some n \<and> hld n = h \<and> sockfd n = fd \<and> nis_callback n = cb \<and> attr n = 0 \<and> idle_link n
    \<and> ncb_read n = None \<and> ncb_write n = None \<and> env w' = env w \<and> (\<forall>fd. sent fd (trace w') = sent fd (trace w))"
  using c unfolding tcp_create_def
proof (elim run_elims; clarsimp simp: newfd_call_def fd, goal_cases)
  case prems: (1 uu wa r wb wc wd n0 wf wg y ya)
  have o: "objs wc h = Some (fifo_init ncb_zero)" "env wc = env wb" "trace wc = trace wb"
    using objallo_fresh [OF prems(5)] prems(6) by simp_all
  then have r: "n0 = fifo_init ncb_zero" "wd = emit (Refr h) wc" using prems(7) by (simp_all add: objrefr_def)
  have l: "length y = nat TCP_BUFFER_SIZE" "length ya = nat TCP_BUFFER_SIZE"
    using malloc_length [OF prems(8)] malloc_length [OF prems(9)] by simp_all
  show ?case
    using mute_setsockopt [OF prems(2)] mute_bind [OF prems(3)] mute_malloc [OF prems(8)] mute_malloc [OF prems(9)] o
    by (simp add: r mute_def mute_options [unfolded mute_def] put_ncb_def objdefr_def idle_link_def l
        fifo_init_def ncb_zero_def tcp_part_zero_def)
qed

lemma settst_idle:
  assumes s: "tcp_settst h (Some t) w = Some (0, w')" and n: "objs w h = Some n" "protocol n = IPPROTO_TCP" "0 \<le> h"
  shows "t_cb t \<le> TCP_MAXIMUM_TEMPLATE_SIZE \<and> objs w' h = Some (n\<lparr>tcp := (tcp n)\<lparr>template := t\<rparr>\<rparr>) \<and> env w' = env w
    \<and> (\<forall>fd. sent fd (trace w') = sent fd (trace w))"
  using s unfolding tcp_settst_def option.case
  by (elim entered_tcp [OF n(1,3,2)] run_elims; auto simp: put_ncb_def)

lemma connect_idle:
  assumes s: "tcp_connect h ip port w = Some (r, w')" "0 \<le> r" and n: "objs w h = Some n" "protocol n = IPPROTO_TCP" "0 \<le> h"
  shows "\<exists>a b c. objs w' h = Some (n\<lparr>epfd := a, remot_addr := b, local_addr := c, ncb_read := Some R_tcp_rx,
      ncb_write := Some W_tcp_tx\<rparr>) \<and> env w' = env w \<and> (\<forall>fd. sent fd (trace w') = sent fd (trace w))"
  using s unfolding tcp_connect_def
  by (elim case_optE entered_tcp [OF n(1,3,2)] run_elims; auto dest!: mutes simp: mute_def mute_options [unfolded mute_def]
      put_ncb_def ncb_post_connected_def post_upd split: option.splits)

section \<open>Both ends are ready\<close>

lemma idle_ready:
  assumes n: "objs w h = Some n" "idle_link n" "hld n = h" "0 \<le> h" "ncb_read n = Some R_tcp_rx" "ncb_write n = Some W_tcp_tx"
    and w: "sent (sockfd n) (trace w) = []"
  shows "link_inv h w \<and> link_out h w = []"
proof -
  have tx: "tx_ok n" using n(2) by (simp add: idle_link_def tx_ok_def fifo_ok_def nodes_ok_def MAXIMUM_FIFO_SIZE_def)
  then show ?thesis
    using n w by (simp add: link_inv_def link_out_def out_stream_def idle_link_def)
qed

lemma idle_receiving:
  assumes n: "objs w h = Some n" "idle_link n" "ncb_read n = Some R_tcp_rx"
    and t: "template (tcp n) = t" "framing M t" "t_cb t \<le> TCP_MAXIMUM_TEMPLATE_SIZE" and w: "k_fail w SYS_malloc = []"
  shows "receiving h t (delivered n w) [] w"
proof -
  have p: "rx_pending n = []" "\<not> ncb_lb_marked n" using n(2) by (simp_all add: idle_link_def rx_pending_def ncb_lb_marked_def)
  have f: "0 < t_cb t" "head_parser t" "t_parser t \<noteq> None" using t(2) by (auto simp: framing_def split: option.splits)
  have "rx_ready n w"
    using n(2) t(1,3) f w p
    by (auto simp: rx_ready_def rx_ok_def idle_link_def tst_len_def TCP_MAXIMUM_TEMPLATE_SIZE_def TCP_BUFFER_SIZE_def)
  then show ?thesis using n t(1) p by (simp add: receiving_def)
qed

lemma client_ready:
  assumes c: "tcp_create cb lip lport w = Some (h, w1)" "0 \<le> h" "k_newfd w = KRet fd # fs" "sent fd (trace w) = []"
    and s: "tcp_settst h (Some t) w1 = Some (0, w2)" and k: "tcp_connect h ip port w2 = Some (r, w3)" "0 \<le> r"
  shows "link_inv h w3 \<and> link_out h w3 = [] \<and> t_cb t \<le> TCP_MAXIMUM_TEMPLATE_SIZE
    \<and> (\<exists>n. objs w3 h = Some n \<and> idle_link n)"
proof -
  from create_idle [OF c(1-3)] obtain n where n: "objs w1 h = Some n" "hld n = h" "sockfd n = fd" "idle_link n"
    and s1: "sent fd (trace w1) = []" using c(4) by auto
  have p: "protocol n = IPPROTO_TCP" using n(4) by (simp add: idle_link_def)
  note n2 = settst_idle [OF s n(1) p c(2)]
  let ?n2 = "n\<lparr>tcp := (tcp n)\<lparr>template := t\<rparr>\<rparr>"
  have o2: "objs w2 h = Some ?n2" using n2 by simp
  have p2: "protocol ?n2 = IPPROTO_TCP" using p by simp
  from connect_idle [OF k o2 p2 c(2)] obtain n3 x y z where n3: "objs w3 h = Some n3"
    "n3 = ?n2\<lparr>epfd := x, remot_addr := y, local_addr := z, ncb_read := Some R_tcp_rx, ncb_write := Some W_tcp_tx\<rparr>"
    and s3: "sent fd (trace w3) = []" using n2 s1 by auto
  have "idle_link n3" using n(4) by (simp add: n3(2) idle_link_def)
  then show ?thesis using idle_ready [OF n3(1)] n(2,3) c(2) s3 n2 n3(1) by (simp add: n3(2))
qed

text \<open>What the accepted end tells the user of a packet.\<close>

definition told :: "ncb \<Rightarrow> objhld \<Rightarrow> world \<Rightarrow> byte list \<Rightarrow> effect list" where
  "told server g v f = (case nis_callback server of None \<Rightarrow> []
     | Some k \<Rightarrow> [Post k (EVT_RECEIVEDATA g (if fully_receive server v then f else drop (tst_len (template (tcp server))) f))])"

lemma accepted_ready:
  assumes a: "accepted_link server fd g v" and u: "attr server AND LINKATTR_TCP_UPDATE_ACCEPT_CONTEXT (env v) \<noteq> 0"
    and t: "framing M (template (tcp server))" "t_cb (template (tcp server)) \<le> TCP_MAXIMUM_TEMPLATE_SIZE"
    and k: "k_fail v SYS_malloc = []"
  shows "receiving g (template (tcp server)) (told server g v) [] v"
proof -
  from a u obtain n where n: "objs v g = Some n" "idle_link n" "ncb_read n = Some R_tcp_rx" "hld n = g"
    "nis_callback n = nis_callback server" "attr n = attr server" "template (tcp n) = template (tcp server)"
    by (auto simp: accepted_link_def split: option.splits)
  have "delivered n v = told server g v"
    using n by (auto simp: fun_eq_iff delivered_def told_def fully_receive_def split: option.split)
  with idle_receiving [OF n(1-3,7) t k] show ?thesis by simp
qed

section \<open>The property\<close>


definition session_world0 :: world where
  "session_world0 = (listen_world0 [Some 7, Some 1] [] [5])\<lparr>k_newfd := [KRet 9], k_connect := [KRet 0], k_send := [KRet 3],
     k_names := [\<lparr>sin_addr = 1, sin_port = 2\<rparr>, \<lparr>sin_addr = 3, sin_port = 4\<rparr>]\<rparr>"

lemma listen_world0_env:
  "env (listen_world0 is as hs) = env0" "k_fail (listen_world0 is as hs) = (\<lambda>_. [])"
  by (simp_all add: listen_world0_def world0_def)

lemma session_create:
  "\<exists>w1 n. tcp_create (Some 1) None 80 session_world0 = Some (5, w1) \<and> objs w1 5 = Some n \<and> protocol n = IPPROTO_TCP
    \<and> hld n = 5 \<and> sockfd n = 9 \<and> attr n = 0 \<and> quiet w1 \<and> served 5 9 w1 \<and> k_tcpinfo w1 = [Some 7, Some 1] \<and> k_connect w1 = [KRet 0]
    \<and> k_send w1 = [KRet 3] \<and> k_names w1 = [\<lparr>sin_addr = 1, sin_port = 2\<rparr>, \<lparr>sin_addr = 3, sin_port = 4\<rparr>] \<and> env w1 = env0"
  by (simp add: tcp_create_def newfd_call_def session_world0_def listen_world0_def world0_def setsockopt_def simple_call_def
      bind_call_def objallo_ncb_def ncb_allocator_def objrefr_def ncb_set_linger_def malloc_def objdefr_def put_ncb_def Let_def
      emit_def quiet_def served_def epo_of_def epo_index_def fifo_init_def ncb_zero_def)

lemma session_client:
  "\<exists>w1 w2 w3 n r. tcp_create (Some 1) None 80 session_world0 = Some (5, w1) \<and> tcp_settst 5 (Some (tst0 1)) w1 = Some (0, w2)
    \<and> tcp_connect 5 (Some ''10.0.0.1'') 80 w2 = Some (r, w3) \<and> 0 \<le> r \<and> objs w3 5 = Some n \<and> template (tcp n) = tst0 1 \<and> attr n = 0
    \<and> ncb_read n = Some R_tcp_rx \<and> ncb_write n = Some W_tcp_tx
    \<and> env w3 = env0 \<and> k_fail w3 = (\<lambda>_. []) \<and> k_tcpinfo w3 = [Some 1] \<and> k_send w3 = [KRet 3]"
proof -
  obtain w1 n where c: "tcp_create (Some 1) None 80 session_world0 = Some (5, w1)" and n: "objs w1 5 = Some n" "protocol n = IPPROTO_TCP"
    "hld n = 5" "sockfd n = 9" "attr n = 0" and w1: "quiet w1" "served 5 9 w1" "k_tcpinfo w1 = [Some 7, Some 1]" "k_connect w1 = [KRet 0]"
    "k_send w1 = [KRet 3]" "k_names w1 = [\<lparr>sin_addr = 1, sin_port = 2\<rparr>, \<lparr>sin_addr = 3, sin_port = 4\<rparr>]" "env w1 = env0"
    using session_create by blast
  let ?n = "n\<lparr>tcp := (tcp n)\<lparr>template := tst0 1\<rparr>\<rparr>"
  define w2 where "w2 = objdefr 5 (put_ncb 5 ?n (emit (Refr 5) w1))"
  have s: "tcp_settst 5 (Some (tst0 1)) w1 = Some (0, w2)"
  proof -
    have "\<not> t_cb (tst0 1) > TCP_MAXIMUM_TEMPLATE_SIZE" by (simp add: tst0_def TCP_MAXIMUM_TEMPLATE_SIZE_def)
    then show ?thesis using tcp_r.good [of 5 w1 n] n by (simp add: tcp_settst_def with_link_def w2_def)
  qed
  have w2: "quiet w2" "objs w2 5 = Some ?n" "served 5 9 w2" "k_tcpinfo w2 = [Some 7, Some 1]" "k_connect w2 = replicate 0 (KErr EINTR) @ KRet 0 # []"
    "k_names w2 = [\<lparr>sin_addr = 1, sin_port = 2\<rparr>, \<lparr>sin_addr = 3, sin_port = 4\<rparr>]" "env w2 = env0" "k_send w2 = [KRet 3]" "k_fail w2 = (\<lambda>_. [])"
    using w1 by (auto simp: w2_def objdefr_def put_ncb_def quiet_def served_def split: option.splits)
  have "served (5 :: int) (sockfd ?n) w2" "0 \<le> sockfd ?n" "protocol ?n = IPPROTO_TCP" "hld ?n = 5" using w2(3) n by simp_all
  from connect_run [OF w2(1) _ w2(2) this(3,4,2,1) _ w2(4,5,6), of 80 "''10.0.0.1''"] w2(7,8,9)
  obtain r n3 w3 where k: "tcp_connect 5 (Some ''10.0.0.1'') 80 w2 = Some (r, w3)"
    "n3 = ?n\<lparr>epfd := r, remot_addr := \<lparr>sin_addr = 1, sin_port = 2\<rparr>, local_addr := \<lparr>sin_addr = 3, sin_port = 4\<rparr>,
       ncb_read := Some R_tcp_rx, ncb_write := Some W_tcp_tx\<rparr>"
    "objs w3 = (objs w2)(5 \<mapsto> n3)" "env w3 = env0" "k_fail w3 = (\<lambda>_. [])" "k_tcpinfo w3 = [Some 1]" "k_send w3 = [KRet 3]" "0 \<le> r"
    by auto
  show ?thesis
    by (rule exI [of _ w1], rule exI [of _ w2], rule exI [of _ w3], rule exI [of _ n3], rule exI [of _ r])
      (use c s k n(5) in simp)
qed


end
