(* ===== verification/Settings.thy ===== *)
theory Settings
  imports Life Datagrams Mxx
begin

text \<open>
  What the user sets and reads back: socket options, templates, attributes and contexts of a link,
  multicast groups; the interfaces of the host and the error callback; and the contracts that the
  send loops and the read loops of all protocols share.
\<close>

section \<open>Loops\<close>


text \<open>C23: a send loop returns, however short the writes of the kernel are and however often it is
  interrupted, once the kernel has answered as many times as bytes are left.\<close>

theorem send_loops_return:
  assumes "node_ok x" and "wcb x - offset x \<le> int (answers (k_send w))"
  shows "tcp_txn n x w \<noteq> None \<and> udp_txn n x w \<noteq> None \<and> arp_txn n x w \<noteq> None"
  using tcp_s.returns [OF assms, of n] udp_s.returns [OF assms, of n] arp_s.returns [OF assms, of n] by auto

theorem send_loops_return_witness:
  "tcp_txn (link_ncb0 []) (node0 [1, 2, 3]) (link_world0 [] [KRet 1, KErr EINTR, KRet 1, KErr EINTR, KErr EAGAIN]) \<noteq> None"
  using send_loops_return [of "node0 [1, 2, 3]" "link_world0 [] [KRet 1, KErr EINTR, KRet 1, KErr EINTR, KErr EAGAIN]" "link_ncb0 []"]
  by (simp add: node0_simps link_world0_simps answers_def)

section \<open>Receive buffers\<close>

text \<open>The buffers of a block keep their sizes, and the template and everything outside them stays.\<close>

definition same_shape :: "ncb \<Rightarrow> ncb \<Rightarrow> bool" where
  "same_shape n n' \<longleftrightarrow> map_option length (packet n') = map_option length (packet n)
     \<and> map_option length (rx_buffer (tcp n')) = map_option length (rx_buffer (tcp n))
     \<and> template (tcp n') = template (tcp n)"

lemma same_shape_refl [simp]: "same_shape n n"
  by (simp add: same_shape_def)

lemma same_shape_trans: "same_shape n n1 \<Longrightarrow> same_shape n1 n2 \<Longrightarrow> same_shape n n2"
  by (simp add: same_shape_def)

lemma udp_shape: "i_udp_rx n w = Some (r, n', w') \<Longrightarrow> same_shape n n'"
  unfolding i_udp_rx_def Let_def
  by (auto simp: same_shape_def dest!: buf_put_length split: Option.bind_splits if_splits)

lemma arp_shape: "i_arp_rx n w = Some (r, n', w') \<Longrightarrow> same_shape n n'"
  unfolding i_arp_rx_def Let_def
  by (auto simp: same_shape_def dest!: buf_put_length split: Option.bind_splits if_splits)

lemma body_shape: "tcp_parse_body n dat c u ov w = Some (r, n', w') \<Longrightarrow> same_shape n n'"
  unfolding tcp_parse_body_def Let_def
  by (auto simp: same_shape_def dest!: buf_put_length split: Option.bind_splits if_splits prod.splits option.splits)

lemma marked_shape: "tcp_parse_marked_lb n dat c w = Some (r, n', w') \<Longrightarrow> same_shape n n'"
  unfolding tcp_parse_marked_lb_def Let_def
  by (auto simp: same_shape_def split: Option.bind_splits if_splits)

lemma pkt_shape:
  assumes "tcp_parse_pkt n dat c w = Some (r, n', w')"
  shows "same_shape n n'"
proof -
  have body: "same_shape n m" if "tcp_parse_body (n\<lparr>packet := Some p, tcp := (tcp n)\<lparr>rx_parse_offset := k\<rparr>\<rparr>) dat c a b w = Some (q, m, v)"
      "packet n = Some p0" "buf_put p0 off bs = Some p" for p k a b q m v p0 off bs
    using body_shape [OF that(1)] that(2) buf_put_length [OF that(3)] by (simp add: same_shape_def)
  show ?thesis
    using assms unfolding tcp_parse_pkt_def Let_def
    by (auto split: Option.bind_splits if_splits dest: marked_shape body body_shape)
      (auto simp: same_shape_def dest!: buf_put_length)
qed

lemma all_shape:
  assumes "tcp_parse_all n buf off c w = Some y"
  shows "same_shape n (fst (snd y))"
  using _ assms
proof (rule tcp_parse_all.raw_induct)
  fix f n buf off c w y
  assume IH: "\<And>n buf off c w y. f n buf off c w = Some y \<Longrightarrow> same_shape n (fst (snd y))"
    and step: "Option.bind (tcp_parse_pkt n (drop (nat off) buf) c w) (\<lambda>(overplus, n, w).
         if overplus < 0 then Some (- 1, n, w)
         else if 0 < overplus then f n buf (off + (c - overplus)) overplus w
              else Some (0, n, w)) = Some y"
  obtain ov n1 w1 where p: "tcp_parse_pkt n (drop (nat off) buf) c w = Some (ov, n1, w1)"
    using step by (auto split: Option.bind_splits)
  show "same_shape n (fst (snd y))"
    using pkt_shape [OF p] step p IH [of n1 buf "off + (c - ov)" ov w1 y] by (auto split: if_splits intro: same_shape_trans)
qed

lemma tcp_shape:
  assumes "i_tcp_rx n w = Some (r, n', w')"
  shows "same_shape n n'"
proof -
  obtain b cb bs a w1 b2 where b: "rx_buffer (tcp n) = Some b" "buf_put b 0 bs = Some b2"
    and res: "(let m = n\<lparr>tcp := (tcp n)\<lparr>rx_buffer := Some b2\<rparr>\<rparr> in
      if cb > 0 then tcp_parse_all m b2 0 cb w1
      else if cb = 0 then Some (- ECONNRESET, m, w1)
      else if errno w1 = EINTR then Some (0, m, w1)
      else if errno w1 = EAGAIN then Some (EAGAIN, m, w1)
      else Some (-1, m, w1)) = Some (r, n', w')"
    using assms by (auto simp: i_tcp_rx_def split: Option.bind_splits)
  let ?m = "n\<lparr>tcp := (tcp n)\<lparr>rx_buffer := Some b2\<rparr>\<rparr>"
  have "same_shape n ?m" using b buf_put_length [OF b(2)] by (simp add: same_shape_def)
  moreover have "same_shape ?m n'" using res all_shape [of ?m b2 0 cb w1] by (auto simp: Let_def split: if_splits)
  ultimately show ?thesis by (rule same_shape_trans)
qed

lemma rx_frame_block: "rx_frame n w n' w' \<Longrightarrow> n' = n\<lparr>packet := packet n', tcp := tcp n'\<rparr>"
  by (cases n, cases n') (simp add: rx_frame_def)

lemma udp_rx_shape: "udp_rx n w = Some (r, n', w') \<Longrightarrow> same_shape n n'"
  using udp_l.keeps [where P = "\<lambda>(m, v). same_shape n m" and s = "(n, w)" and s' = "(n', w')" and r = r]
  by (auto dest: udp_shape intro: same_shape_trans)

lemma arp_rx_shape: "arp_rx n w = Some (r, n', w') \<Longrightarrow> same_shape n n'"
  using arp_l.keeps [where P = "\<lambda>(m, v). same_shape n m" and s = "(n, w)" and s' = "(n', w')" and r = r]
  by (auto dest: arp_shape intro: same_shape_trans)

lemma tcp_rx_shape: "tcp_rx n w = Some (r, n', w') \<Longrightarrow> same_shape n n'"
  using tcp_l.keeps [where P = "\<lambda>(m, v). same_shape n m" and s = "(n, w)" and s' = "(n', w')" and r = r]
  by (auto dest: tcp_shape intro: same_shape_trans)



section \<open>Options\<close>



text \<open>The template that is set on a link is the one that is read back and the one it replaces is
  kept; one with a head that is too long is refused and changes nothing. No reference is kept.\<close>

lemma template_read_back:
  assumes "0 \<le> g" and "objs w g = Some n" and "protocol n = IPPROTO_TCP"
  shows "if t_cb t \<le> TCP_MAXIMUM_TEMPLATE_SIZE
    then \<exists>w1 w2 n1. tcp_settst_r g (Some t) w = Some (0, w1) \<and> tcp_gettst g (Some old) w1 = Some ((0, Some t), w2)
      \<and> objs w2 = (objs w)(g \<mapsto> n1) \<and> prtemplate (tcp n1) = template (tcp n) \<and> balanced w w2
      \<and> n1 = n\<lparr>tcp := tcp n1\<rparr>
    else tcp_settst_r g (Some t) w = Some (- EINVAL, w)"
proof (cases "t_cb t \<le> TCP_MAXIMUM_TEMPLATE_SIZE")
  case True
  let ?n1 = "n\<lparr>tcp := (tcp n)\<lparr>prtemplate := template (tcp n), template := t\<rparr>\<rparr>"
  let ?w1 = "emit (Defr g) (put_ncb g ?n1 (emit (Refr g) w))"
  let ?w2 = "emit (Defr g) (put_ncb g ?n1 (emit (Refr g) ?w1))"
  have 1: "tcp_settst_r g (Some t) w = Some (0, ?w1)"
    using True by (simp add: tcp_settst_r_def) (rule tcp_r.entered [OF assms], rule refl)
  have o: "objs ?w1 g = Some ?n1" "protocol ?n1 = IPPROTO_TCP" using assms(3) by (simp_all add: put_ncb_def)
  have 2: "tcp_gettst g (Some old) ?w1 = Some ((0, Some t), ?w2)"
    unfolding tcp_gettst_def option.case by (rule tcp_r.entered [OF assms(1) o]) simp
  have "balanced w ?w2" by (simp add: balanced_def put_ncb_def)
  with 1 2 True show ?thesis
    by (simp only: if_True simp_thms) (intro exI [of _ ?w1] exI [of _ ?w2] exI [of _ ?n1], simp add: put_ncb_def)
qed (simp add: tcp_settst_r_def)

text \<open>An attribute is set and cleared on its own: it reads back as it was set, and every attribute
  of other bits reads as before.\<close>

lemma attributes_independent:
  assumes "0 \<le> g" and "objs w g = Some n" and "protocol n = IPPROTO_TCP"
    and "a \<in> {LINKATTR_TCP_FULLY_RECEIVE (env w), LINKATTR_TCP_NO_BUILD (env w), LINKATTR_TCP_UPDATE_ACCEPT_CONTEXT (env w)}"
    and "a \<noteq> 0" and "b AND a = 0"
  shows "\<exists>w1 w2 w3. tcp_setattr g a en w = Some (0, w1)
    \<and> tcp_getattr g a old w1 = Some ((0, if 0 < en then 1 else 0), w2)
    \<and> tcp_getattr g b old w1 = Some ((0, if attr n AND b \<noteq> 0 then 1 else 0), w3)"
proof -
  let ?n1 = "n\<lparr>attr := (if 0 < en then attr n OR a else attr n AND NOT a)\<rparr>"
  let ?w1 = "emit (Defr g) (put_ncb g ?n1 (emit (Refr g) w))"
  have 1: "tcp_setattr g a en w = Some (0, ?w1)"
    unfolding tcp_setattr_def by (rule tcp_r.entered [OF assms(1-3)]) (use assms(4) in auto)
  have o: "objs ?w1 g = Some ?n1" "protocol ?n1 = IPPROTO_TCP" using assms(3) by (simp_all add: put_ncb_def)
  have get: "\<exists>v. tcp_getattr g x old ?w1 = Some ((0, if attr ?n1 AND x \<noteq> 0 then 1 else 0), v)" for x
    unfolding tcp_getattr_def by (rule exI, rule tcp_r.entered [OF assms(1) o], rule refl)
  have bits: "bit a k \<Longrightarrow> \<not> bit b k" for k using assms(6) by (metis bit_and_iff bit_0_eq bot_apply bot_bool_def)
  have own: "attr ?n1 AND a = (if 0 < en then a else 0)"
    by (auto intro!: bit_word_eqI simp: bit_simps)
  have other: "attr ?n1 AND b = attr n AND b"
    using bits by (auto intro!: bit_word_eqI simp: bit_simps)
  from get [of a] get [of b] 1 show ?thesis unfolding own other using assms(5) by auto
qed

section \<open>The control call\<close>

lemma udp_setattr_trace: "udp_setattr_r n a w = (r, n', w') \<Longrightarrow> trace w' = trace w"
  by (auto simp: udp_setattr_r_def udp_set_boardcast_def Let_def dest!: opt_stepD(1) [OF setsockopt_step]
      split: if_splits prod.splits)

text \<open>C36: \<open>nis_cntl\<close> gives back the references it takes, for every link and every command it knows; a
  command that it does not know costs the link one reference, so it is never destroyed.\<close>

theorem cntl_references:
  assumes "nis_cntl stack g cmd w = Some (x, w')"
  shows "ref_balance h (trace w') = ref_balance h (trace w)
    + (case cmd of NI_OTHER c \<Rightarrow> if h = g \<and> objs w g \<noteq> None then 1 else 0 | _ \<Rightarrow> 0)"
proof (cases "objs w g")
  case None
  then show ?thesis using assms by (auto simp: nis_cntl_def objrefr_def split: ni_cmd.split)
next
  case (Some n)
  have set: "balanced v v'" if "tcp_settst_r g t v = Some (r, v')" for t v r v'
    using that by (auto simp: tcp_settst_r_def split: option.splits if_splits dest!: tcp_r.keeps_balance)
  have get: "balanced v v'" if "tcp_gettst_r g t None v = Some (r, v')" for t v r v'
    using that by (auto simp: tcp_gettst_r_def split: option.splits if_splits dest!: tcp_r.keeps_balance)
  show ?thesis
  proof (cases cmd)
    case (NI_SETTST t)
    then obtain r v where v: "tcp_settst_r g t (emit (Refr g) w) = Some (r, v)" "w' = objdefr g v"
      using assms Some by (auto simp: nis_cntl_def objrefr_def split: Option.bind_splits)
    from set [OF v(1)] v(2) NI_SETTST show ?thesis by (simp add: balanced_def objdefr_def)
  next
    case (NI_GETTST t)
    then obtain r v where v: "tcp_gettst_r g t None (emit (Refr g) w) = Some (r, v)" "w' = objdefr g v"
      using assms Some by (auto simp: nis_cntl_def objrefr_def split: Option.bind_splits)
    from get [OF v(1)] v(2) NI_GETTST show ?thesis by (simp add: balanced_def objdefr_def)
  qed (use assms Some in \<open>auto simp: nis_cntl_def objrefr_def objdefr_def put_ncb_def Let_def dest!: udp_setattr_trace
        split: prod.splits if_splits\<close>)
qed

theorem cntl_references_witness:
  "\<exists>w'. nis_cntl None 5 (NI_OTHER 99) fresh_world0 = Some ((- EINVAL, NoAnswer), w') \<and> ref_balance 5 (trace w') = 1"
proof -
  obtain w' where e: "nis_cntl None 5 (NI_OTHER 99) fresh_world0 = Some ((- EINVAL, NoAnswer), w')"
    by (simp add: nis_cntl_def objrefr_def fresh_simps)
  from cntl_references [OF e, of 5] e show ?thesis by (simp add: fresh_simps)
qed

text \<open>The context that is set is the one that is read, and reading it overwrites the context kept
  as the previous one with what happens to lie on the stack.\<close>

lemma context_read_back:
  assumes "objs w g = Some n"
  shows "\<exists>w1 w2. nis_cntl s1 g (NI_SETCTX c) w = Some ((0, NoAnswer), w1)
    \<and> nis_cntl s2 g NI_GETCTX w1 = Some ((0, Context c), w2)
    \<and> objs w1 g = Some (n\<lparr>user_context := c, prcontext := user_context n\<rparr>)
    \<and> objs w2 g = Some (n\<lparr>user_context := c, prcontext := s2\<rparr>)"
  using assms by (simp add: nis_cntl_def objrefr_def objdefr_def put_ncb_def)

section \<open>Groups\<close>

text \<open>C37: joining a group sets the membership and remembers it for \<open>udp_dropgrp\<close>; where there is no
  memory to remember it, the call reports success although no membership was set.\<close>

theorem join_group:
  assumes "0 \<le> g" and "objs w g = Some n" and "protocol n = IPPROTO_UDP" and "port \<noteq> 0"
    and "attr n AND UDP_FLAG_MULTICAST (env w) \<noteq> 0" and "mreq n = None" and "k_fail w SYS_setsockopt = []"
    and "m = \<lparr>imr_multiaddr = inet_addr (env w) ip, imr_interface = sin_addr (local_addr n)\<rparr>"
  shows "\<exists>w' n'. udp_joingrp g (Some ip) port w = Some (0, w') \<and> objs w' g = Some n' \<and>
    (if fst (simple_call SYS_malloc w) < 0
     then mreq n' = None \<and> sockopts w' (sockfd n) IP_ADD_MEMBERSHIP = sockopts w (sockfd n) IP_ADD_MEMBERSHIP
     else mreq n' = Some m \<and> sockopts w' (sockfd n) IP_ADD_MEMBERSHIP = mreq_bytes m)"
proof -
  let ?w0 = "emit (Refr g) w"
  let ?w1 = "?w0\<lparr>sockopts := (sockopts w)(sockfd n := (sockopts w (sockfd n))(IP_MULTICAST_LOOP := [1]))\<rparr>"
  have s1: "setsockopt (sockfd n) IP_MULTICAST_LOOP [1] ?w0 = (0, ?w1)" using assms(7) by (simp add: setsockopt_ok)
  have mal: "malloc sizeof_ip_mreq ?w1 = (if fst (simple_call SYS_malloc w) < 0 then None else Some (replicate 8 (junk w)), v)
      \<and> k_fail v SYS_setsockopt = [] \<and> sockopts v = sockopts ?w1 \<and> env v = env w"
    if "v = snd (malloc sizeof_ip_mreq ?w1)" for v
    using that assms(7)
    by (cases "k_fail w SYS_malloc") (auto simp: malloc_def simple_call_def sizeof_ip_mreq_def Let_def)
  define v where "v = snd (malloc sizeof_ip_mreq ?w1)"
  note v = mal [OF v_def]
  have set: "setsockopt (sockfd n) IP_ADD_MEMBERSHIP (mreq_bytes m) v
      = (0, v\<lparr>sockopts := (sockopts v)(sockfd n := (sockopts v (sockfd n))(IP_ADD_MEMBERSHIP := mreq_bytes m))\<rparr>)"
    using v by (simp add: setsockopt_ok)
  let ?n' = "if fst (simple_call SYS_malloc w) < 0 then n else n\<lparr>mreq := Some m\<rparr>"
  let ?v' = "if fst (simple_call SYS_malloc w) < 0 then v
     else v\<lparr>sockopts := (sockopts v)(sockfd n := (sockopts v (sockfd n))(IP_ADD_MEMBERSHIP := mreq_bytes m))\<rparr>"
  have "udp_joingrp_body ip n ?w0 = Some (0, ?n', ?v')"
    using assms(5,6) v set by (simp add: udp_joingrp_body_def s1 assms(8), simp add: Let_def)
  from udp_r.entered [where body = "udp_joingrp_body ip", OF assms(1-3) this]
  have "udp_joingrp g (Some ip) port w = Some (0, emit (Defr g) (put_ncb g ?n' ?v'))"
    using assms(1,4) by (simp add: udp_joingrp_def)
  then show ?thesis using v assms(6) by (auto simp: put_ncb_def)
qed

theorem join_group_witness:
  "\<exists>w' n'. udp_joingrp 5 (Some ''224.0.0.1'') 99 ((udp_world0 [] [])\<lparr>objs := [5 \<mapsto> (link_ncb0 [])\<lparr>protocol := IPPROTO_UDP, attr := 2\<rparr>],
        k_fail := (\<lambda>s. if s = SYS_malloc then [ENOMEM] else [])\<rparr>) = Some (0, w') \<and> objs w' 5 = Some n' \<and> mreq n' = None"
proof -
  let ?n = "(link_ncb0 [])\<lparr>protocol := IPPROTO_UDP, attr := 2\<rparr>"
  let ?w = "(udp_world0 [] [])\<lparr>objs := [5 \<mapsto> ?n], k_fail := (\<lambda>s. if s = SYS_malloc then [ENOMEM] else [])\<rparr>"
  have e: "env (udp_world0 [] []) = env0" by (simp add: udp_world0_def link_world0_simps)
  have m: "mreq (link_ncb0 []) = None" by (simp add: link_ncb0_def rx_ncb0_def ncb_zero_def)
  from join_group [of 5 ?w ?n 99, OF _ _ _ _ _ _ _ refl, of "''224.0.0.1''"] show ?thesis
    by (auto simp: simple_call_def e m env0_def)
qed

section \<open>The host\<close>

text \<open>C38: a buffer that is large enough receives one entry for each IPv4 address of the host, in order,
  and keeps what lies behind them; one that is too small is left alone and the caller told the size he
  needs, with the list of interfaces never given back.\<close>

theorem interfaces_listed:
  assumes "ifs_ok ifs" and "k_fail w SYS_getifaddrs = []" and "0 < sz" and "0 < cb" and "cb = sz * int (length a)"
  shows "nis_getifmisc len sz ifs (Some a) (Some cb) w =
    (if length (inet_ifs ifs) \<le> length a
     then Some (0, Some (map2 (ifmisc_of len) (inet_ifs ifs) a @ drop (length (inet_ifs ifs)) a), Some cb, w)
     else Some (- EAGAIN, Some a, Some (sz * int (length (inet_ifs ifs))), w\<lparr>heap := heap w + 1\<rparr>))"
proof -
  have g: "getifaddrs w = (0, w\<lparr>heap := heap w + 1\<rparr>)" using assms(2) by (simp add: getifaddrs_def simple_call_ok)
  have c: "cb < sz * int (length (inet_ifs ifs)) \<longleftrightarrow> \<not> length (inet_ifs ifs) \<le> length a"
    using assms(3,5) by (simp add: mult.commute mult_less_cancel_left_pos not_le)
  have f: "fill_ifmisc len ifs 0 a = Some (map2 (ifmisc_of len) (inet_ifs ifs) a @ drop (length (inet_ifs ifs)) a)"
    if "length (inet_ifs ifs) \<le> length a"
    using fill_ifmisc_eq [OF assms(1), of 0 a len] that by simp
  show ?thesis
    using assms(4) by (simp add: nis_getifmisc_def g count_inet_eq [OF assms(1)] c f freeifaddrs_def free_def mult.commute Let_def)
qed

definition ifs0 :: "ifaddrs list" where
  "ifs0 = [\<lparr>ifa_name = [108, 111], ifa_index = 1, ifa_hwaddr = replicate 6 0, ifa_addr = Some \<lparr>sa_family = 2, sa_addr = 127\<rparr>,
      ifa_netmask = Some \<lparr>sa_family = 2, sa_addr = 255\<rparr>, ifu_broadaddr = Some \<lparr>sa_family = 2, sa_addr = 127\<rparr>\<rparr>,
    \<lparr>ifa_name = [101], ifa_index = 2, ifa_hwaddr = replicate 6 1, ifa_addr = Some \<lparr>sa_family = 10, sa_addr = 0\<rparr>,
      ifa_netmask = None, ifu_broadaddr = None\<rparr>]"

theorem interfaces_listed_witness:
  "nis_getifmisc 4 16 ifs0 (Some [\<lparr>if_name = replicate 4 0, if_addr = 0, if_netmask = 0, if_boardcast = 0\<rparr>]) (Some 16) world0
    = Some (0, Some [\<lparr>if_name = [108, 111, 0, 0], if_addr = 127, if_netmask = 255, if_boardcast = 127\<rparr>], Some 16, world0)"
proof -
  have "ifs_ok ifs0" "k_fail world0 SYS_getifaddrs = []" "inet_ifs ifs0 = [hd ifs0]"
    by (simp_all add: ifs0_def world0_def inet_ifs_def)
  with interfaces_listed [of ifs0 world0 16 16 "[\<lparr>if_name = replicate 4 0, if_addr = 0, if_netmask = 0, if_boardcast = 0\<rparr>]" 4]
  show ?thesis by (simp add: ifmisc_of_def strncpy_name_def ifs0_def numeral_eq_Suc)
qed



end
