(* ===== verification/Echoes.thy ===== *)
theory Echoes
  imports Echo Endtoend
begin

text \<open>
  The echo server on a connected link: what becomes of a packet it is told of.
\<close>

lemma getaddr_good:
  assumes "0 \<le> g" "objs w g = Some n" "protocol n = IPPROTO_TCP"
  shows "\<exists>r a b. tcp_getaddr g k (Some x) (Some y) w = Some ((r, Some a, Some b), objdefr g (emit (Refr g) w))"
proof -
  have "put_ncb g n (emit (Refr g) w) = emit (Refr g) w" using assms(2) by (simp add: put_ncb_def emit_def fun_upd_idem)
  then show ?thesis using tcp_r.good [OF assms] by (simp add: tcp_getaddr_def with_link_def)
qed

text \<open>A short packet is shown on the terminal, whole and after its origin.\<close>

lemma display_shows:
  assumes l: "0 \<le> g" "objs w g = Some n" "protocol n = IPPROTO_TCP"
    and d: "dat \<noteq> []" "\<forall>ip pt. length (income ip pt) + length dat < 1024"
  shows "\<exists>ip pt. display income file_write stack g dat (int (length dat)) w
    = Some (file_write (income ip pt @ dat), [income ip pt @ dat], objdefr g (emit (Refr g) w))"
proof -
  obtain r a b where g: "tcp_getaddr g (LINK_ADDR_REMOTE (env w)) (Some (fst stack)) (Some (snd stack)) w
      = Some ((r, Some a, Some b), objdefr g (emit (Refr g) w))"
    using getaddr_good [OF l] by blast
  have "length (income a b) + length dat < 1024" using d(2) by simp
  then show ?thesis using d(1) by (intro exI [of _ a] exI [of _ b]) (simp add: display_def g buf_get_def Let_def)
qed

text \<open>C16: the echo server on an idle link shows a packet it received on the terminal and writes it back.
  Where the kernel has room the bytes go out and the link goes on. Where the kernel is full the
  library accepts the packet and answers 0, which the server takes for a failure: it closes the link,
  and the answer stays in the queue unsent.\<close>

theorem echo_answers:
  assumes "link_inv g w" and "objs w g = Some n" and "fhead (fifo n) = []" and "0 < sockfd n"
    and "template_ok n w" and "built_packet n w dat (int (length dat)) = Some pkt"
    and "dat \<noteq> []" and "\<forall>ip pt. length (income ip pt) + length dat < 1024" and "\<forall>bs. 0 < file_write bs"
    and "k_fail w = (\<lambda>_. [])" and "interest n w \<noteq> None"
    and "k_tcpinfo w = Some TCP_ESTABLISHED # is" and "k_send w = a # ks"
  shows "\<exists>ip pt. (\<forall>m. a = KRet m \<and> int (length pkt) \<le> m \<longrightarrow> (\<exists>w'.
        tcp_server_callback income file_write stack (EVT_RECEIVEDATA g dat) w = Some ([income ip pt @ dat], w')
        \<and> link_inv g w' \<and> taken g w' = taken g w @ pkt))
    \<and> (a = KErr EAGAIN \<longrightarrow> (\<exists>w' n'.
        tcp_server_callback income file_write stack (EVT_RECEIVEDATA g dat) w = Some ([income ip pt @ dat], w')
        \<and> objs w' g = Some n' \<and> sockfd n' = -1 \<and> pend (fhead (fifo n')) = pkt
        \<and> sent (sockfd n) (trace w') = sent (sockfd n) (trace w)))"
proof -
  let ?w = "objdefr g (emit (Refr g) w)" and ?cb = "int (length dat)"
  from assms(1,2) have l: "0 \<le> g" "protocol n = IPPROTO_TCP" by (simp_all add: link_inv_def)
  obtain ip pt where d: "display income file_write stack g dat ?cb w = Some (file_write (income ip pt @ dat), [income ip pt @ dat], ?w)"
    using display_shows [OF l(1) assms(2) l(2) assms(7,8)] by blast
  have i: "link_inv g ?w" "objs ?w g = Some n" "template_ok n ?w" "built_packet n ?w dat ?cb = Some pkt" "taken g ?w = taken g w"
    using assms(1,2,5,6) built_packet_env [of ?w w n] by (simp_all add: link_inv_def template_ok_def taken_def objdefr_def)
  have len: "length dat < 1024" using spec [OF spec [OF assms(8)], of 0 0] by simp
  then have c: "0 < ?cb" "?cb \<le> int (length dat)" "?cb \<le> TCP_MAXIMUM_PACKET_SIZE"
    using assms(7) by (simp_all add: TCP_MAXIMUM_PACKET_SIZE_def)
  have "int (length pkt) = ?cb + t_cb (template (tcp n))" "0 \<le> t_cb (template (tcp n))"
    using make_packet [OF i(4) c(1,2)] assms(10) i(3) by (simp_all add: template_ok_def objdefr_def)
  then have "0 < int (length pkt)" using c(1) by linarith
  then have p: "pkt \<noteq> []" by auto
  have k: "k_fail ?w = (\<lambda>_. [])" "k_fail ?w SYS_malloc = []" "k_tcpinfo ?w = Some TCP_ESTABLISHED # is" "k_send ?w = a # ks" "interest n ?w \<noteq> None"
    using assms(10-13) by (simp_all add: interest_def objdefr_def)
  have direct: "\<exists>w'. tcp_server_callback income file_write stack (EVT_RECEIVEDATA g dat) w = Some ([income ip pt @ dat], w')
        \<and> link_inv g w' \<and> taken g w' = taken g w @ pkt" if a: "a = KRet m" "int (length pkt) \<le> m" for m
  proof -
    obtain w' where w': "tcp_write g (Some dat) ?cb None ?w = Some (int (length pkt), w')" "taken g w' = taken g w @ pkt"
      using write_direct [OF i(1,2) assms(3) p i(4) c k(2,3) k(4) [unfolded a(1)] a(2)] i(5) by auto
    moreover have "link_inv g w'" using write_grows [OF i(1-3) w'(1) c(1,3)] by (auto simp: grows_def adds_def)
    ultimately show ?thesis using assms(9) p by (simp add: tcp_server_callback_def d)
  qed
  have full: "\<exists>w' n'. tcp_server_callback income file_write stack (EVT_RECEIVEDATA g dat) w = Some ([income ip pt @ dat], w')
        \<and> objs w' g = Some n' \<and> sockfd n' = -1 \<and> pend (fhead (fifo n')) = pkt
        \<and> sent (sockfd n) (trace w') = sent (sockfd n) (trace w)" if a: "a = KErr EAGAIN"
  proof -
    from write_waits [OF i(1,2) assms(3) p i(4) c k(1,3) k(4) [unfolded a] k(5)] obtain v f where v: "tcp_write g (Some dat) ?cb None ?w = Some (0, v)"
      "objs v g = Some (n\<lparr>fifo := f\<rparr>)" "pend (fhead f) = pkt" "sent (sockfd n) (trace v) = sent (sockfd n) (trace w)"
      by (auto simp: objdefr_def)
    obtain n' u where u: "io_close (n\<lparr>fifo := f\<rparr>) (emit (Reff g) v) = (n', u)" by fastforce
    have "sockfd n' = -1 \<and> fifo n' = f \<and> sent (sockfd n) (trace u) = sent (sockfd n) (trace v)"
      using assms(4) by (rule_tac io_closeE [OF u]) (auto dest!: ctl_stepD)
    then show ?thesis
      using v assms(9) u by (simp add: tcp_server_callback_def d tcp_destroy_def objreff_def put_ncb_def objdefr_def)
  qed
  show ?thesis using direct full by (intro exI [of _ ip] exI [of _ pt]) blast
qed

definition echo_world0 :: "kans \<Rightarrow> world" where
  "echo_world0 a = (link_world0 [] [a])\<lparr>epolls := (\<lambda>_ _. Some 1)\<rparr>"

theorem echo_answers_witness:
  "(\<exists>w'. tcp_server_callback (\<lambda>_ _. [1]) (\<lambda>_. 1) (0, 0) (EVT_RECEIVEDATA 5 [8]) (echo_world0 (KRet 3)) = Some ([[1, 8]], w')
      \<and> taken 5 w' = [0, 1, 8])
    \<and> (\<exists>w' n'. tcp_server_callback (\<lambda>_ _. [1]) (\<lambda>_. 1) (0, 0) (EVT_RECEIVEDATA 5 [8]) (echo_world0 (KErr EAGAIN)) = Some ([[1, 8]], w')
      \<and> objs w' 5 = Some n' \<and> sockfd n' = -1 \<and> pend (fhead (fifo n')) = [0, 1, 8])"
proof -
  have w: "link_inv 5 (echo_world0 a)" "objs (echo_world0 a) 5 = Some (link_ncb0 [])" "fhead (fifo (link_ncb0 [])) = []"
    "0 < sockfd (link_ncb0 [])" "template_ok (link_ncb0 []) (echo_world0 a)"
    "built_packet (link_ncb0 []) (echo_world0 a) [8] (int (length [8 :: byte])) = Some [0, 1, 8]"
    "k_fail (echo_world0 a) = (\<lambda>_. [])" "interest (link_ncb0 []) (echo_world0 a) \<noteq> None"
    "k_tcpinfo (echo_world0 a) = Some TCP_ESTABLISHED # [Some 1, Some 1]" "k_send (echo_world0 a) = a # []" for a
    using link_world0_packet [of "[]" "[a]"] link_world0_inv [of "[]" "[a]"] built_packet_env [of "echo_world0 a" "link_world0 [] [a]"]
    by (simp_all add: echo_world0_def link_world0_simps link_ncb0_simps link_inv_def template_ok_def interest_def)
  note run = echo_answers [OF w(1-6) _ _ _ w(7-10), of "\<lambda>_ _. [1]" "\<lambda>_. 1" _ "(0, 0)"]
  from run [of "KRet 3"] run [of "KErr EAGAIN"] show ?thesis by (auto simp: taken_def echo_world0_def link_world0_simps link_ncb0_simps)
qed

end
