(* ===== verification/Spec2Isabelle.thy ===== *)
theory Spec2Isabelle
  imports Tcp_rx Tcp_tx Balance Arp Mxx Echo Stream Sending
    Datagrams Endtoend Accept Life Leakfree Session Settings Echoes
begin

text \<open>
  A verification development for swnet-linux (\<open>nshost\<close>), an asynchronous network library in C over
  epoll(7): TCP links with user-defined packet templates, UDP links, ARP links, and in-process
  pipes that wake a link. The user creates a link, gets a handle, and hears of everything through
  a callback; the library runs one group of threads that wait for epoll events and one worker
  thread per protocol that writes.

  The parts and where they are modelled.

  \<^item> \<open>Prelude\<close>: words, errno values, checked buffer accesses (\<open>buf_get\<close>, \<open>buf_put\<close>), byte order.
  \<^item> \<open>Types\<close>: the records of src/ncb.h (\<open>ncb\<close>), src/fifo.h (\<open>tx_node\<close>), src/arp.h.
  \<^item> \<open>World\<close>: the kernel, the heap and the object manager of libnsp, which are not in the
    repository. The answers of the kernel are scripts that the calls consume, so a theorem about
    every script is a theorem about every behaviour of the kernel. \<open>trace\<close> records what is visible
    from outside: events posted to the user, bytes handed to the kernel, descriptors closed,
    references taken and given back. \<open>heap\<close> counts the blocks allocated and not freed.
  \<^item> \<open>Queues\<close>: the interface \<open>tx_queue\<close> of a FIFO; src/fifo.c (\<open>Fifo\<close>) and the task list of
    src/wpool.c (\<open>Wpool\<close>) are interpretations of it.
  \<^item> \<open>Io\<close> and \<open>Iorun\<close>: src/io.c, joining an epoll instance, changing and leaving it, dispatch of
    events, the start and end of the epoll threads.
  \<^item> \<open>Ncb\<close>: src/ncb.c, the life of a control block, events, socket options.
  \<^item> \<open>Txn\<close>: the interface \<open>sender\<close> of the write routines; \<open>tcp_txn\<close>, \<open>udp_txn\<close>, \<open>arp_txn\<close> are
    interpretations. \<open>write_node\<close> is the end that \<open>tcp_write\<close>, \<open>udp_write\<close>, \<open>arp_nrequest\<close> share.
  \<^item> \<open>Loops\<close>: the interface \<open>rx_loop\<close> of the read routines, which repeat until the kernel is empty.
  \<^item> \<open>Link\<close>: the interface \<open>link_ref\<close> of the handle checks \<open>__tcprefr\<close>, \<open>__udprefr\<close>, \<open>__arprefr\<close>,
    and \<open>with_link\<close>, the frame of every operation on a handle.
  \<^item> \<open>Pipe\<close>: src/pipe.c. \<open>Tcpal\<close>, \<open>Tcp_stream\<close>: src/tcpal.c, the packet parser, against the
    specification \<open>deframe\<close>. \<open>Tcpopt\<close>, \<open>Tcpio\<close>, \<open>Tcp\<close>: src/tcp.c and src/tcpio.c. \<open>Tcp_rx\<close>, \<open>Tcp_tx\<close>,
    \<open>Tcp_frame\<close>: what receiving and sending do. \<open>Udpio\<close>, \<open>Udp\<close>: src/udpio.c, src/udp.c. \<open>Arpio\<close>,
    \<open>Ifaddr\<close>, \<open>Arp\<close>: src/arpio.c, the interfaces of src/mxx.c, src/arp.c. \<open>Wpool\<close>: src/wpool.c.
    \<open>Mxx\<close>: the rest of src/mxx.c. \<open>Echo\<close>: the sample program src/echo; \<open>Echoes\<close>: what its server
    does with a packet. \<open>Balance\<close>: references.


  What is shown, beside the lemmas of the parts.

  \<^item> \<open>Stream\<close>: the threads of a connected link as a step relation \<open>link_step\<close> and its output stream,
    the bytes the kernel took followed by those that wait: it only ever grows at its end, by whole
    packets. \<open>Endtoend\<close>: two links that are the ends of one connection as a relation \<open>connection\<close> on
    the worlds of both programs; the packets the writer was told are accepted reach the receiver's
    callback in order. \<open>Session\<close> puts the operations in front of it that make the two ends ready: create,
    set a template, connect on one side, the accept of a listening link on the other. \<open>Sending\<close>: the two queues are FIFOs, an epoll event and the worker it wakes drain a link,
    and what the worker does to datagrams.
  \<^item> \<open>Memory\<close>: what each operation of a TCP link does to the heap, and what a link owns (\<open>ncb_owned\<close>).
    \<open>Leakfree\<close>: the operations, events, turns of the worker and the unloading of links as a relation
    \<open>mem_step\<close>; every block always belongs to a link, a waiting node or a task.
  \<^item> \<open>Tcp_rx\<close>: receiving refines \<open>deframe\<close>, the cutting of a byte stream into packets, for every
    way the kernel may split the stream. \<open>Datagrams\<close>: what events on UDP and ARP links deliver, the
    frames of ARP. \<open>Accept\<close>: the accept loop.
  \<^item> \<open>Life\<close>: references of the epoll threads, refused handles, the registry of blocks under any order
    of allocation and destruction, connecting, listening, waking, destruction. \<open>Settings\<close>: loops and
    buffers of all protocols, options, templates, attributes, the control call, the host.

  A theorem about one schedule of answers has them as a list, such as \<open>k_recv w = \<dots> @ RxErr EAGAIN # ks\<close>;
  the theorems about safety hold for every list. Some theorems state what the code does where that is
  not what its comments or its other parts expect: a datagram thrown away, a task never freed, the
  head of a large packet lost, a link closed by an empty datagram, a listen or connect that fails and
  reports success, a read behind a buffer, a membership reported and not set. They are the findings
  of the development and stand beside the properties that hold.

  Conventions. A function keeps its C name; a leading double underscore becomes the prefix \<open>i_\<close>.
  A handler takes the control block and the world and returns its status, the block as it leaves
  it and the world. \<open>None\<close> stands for a run without a defined continuation: an access outside an
  allocated block, or a script that is at its end (the thread is still inside the call). A loop
  over answers of the kernel recurses on the script, so it needs no fuel; the loops that may spin
  are \<open>partial_function (option)\<close>. Each critical section of the code is one definition and so one
  atomic step. A pointer of an inner function that is never null at any call is not an option.

  Not modelled: the text of log messages (\<open>nis_call_ecr\<close> is modelled by itself, its calls are
  not); the code under \<open>#if 0\<close> in src/tcp.c and
  src/tcpio.c; \<open>pipe_initialize\<close> of src/pipe.c, which does nothing; the addresses of allocations (a block is
  identified by its content); what the callback of the user does while it runs, an event being only
  recorded (a call it makes is a call of its own, after the step that posted); preemption inside a critical section.
\<close>

end
